theory Spec2Isabelle
  imports Complex_Main
begin

section \<open>Common ground: exceptions, HTTP outcomes, JSON objects\<close>

text \<open>
  The four exporters (\<^verbatim>\<open>emby_exporter_fixed.py\<close>, \<^verbatim>\<open>emby_exporter_debug.py\<close>,
  \<^verbatim>\<open>emby_livetv_exporter.py\<close>, \<^verbatim>\<open>emby_livetv_ultimate.py\<close>) are embedded function by
  function. Mutation of the exporter object and of the Prometheus registry is explicit
  state passing. A Python exception is a value of \<open>pyexn\<close>; a function that can raise
  returns \<open>pyexn option \<times> state\<close>, so that the side effects made before the raise stay
  visible, as they do in Python.
\<close>

datatype pyexn = ValueError | AttributeError | UnboundLocalError | Other_exception

text \<open>
  What \<^verbatim>\<open>self.session.get(url, params=params, timeout=10)\<close> can do: raise a
  \<^verbatim>\<open>requests.exceptions.RequestException\<close> (connection error, timeout), or return a
  response with a status code and a body. The body is the value \<^verbatim>\<open>response.json()\<close>
  decodes to; it is only read on the paths that reach \<^verbatim>\<open>response.json()\<close>.
\<close>

datatype 'a http_outcome = Request_exception | Response nat 'a

text \<open>\<^verbatim>\<open>response.raise_for_status()\<close> raises \<^verbatim>\<open>HTTPError\<close> for 4xx and 5xx.\<close>

definition raise_for_status :: "nat \<Rightarrow> bool" where
  "raise_for_status status = (400 \<le> status \<and> status < 600)"

text \<open>
  A JSON object with the keys \<^verbatim>\<open>Items\<close> and \<^verbatim>\<open>TotalRecordCount\<close>, as the
  Live TV endpoints return. \<open>other_keys\<close> says whether the object has further keys:
  Python's truth value of a dict is "not empty".
\<close>

record 'a paged =
  Items :: "'a list option"
  TotalRecordCount :: "int option"
  other_keys :: bool

definition dict_truthy :: "'a paged \<Rightarrow> bool" where
  "dict_truthy p = (Items p \<noteq> None \<or> TotalRecordCount p \<noteq> None \<or> other_keys p)"

definition get_TotalRecordCount :: "'a paged \<Rightarrow> int" where
  \<comment> \<open>\<^verbatim>\<open>p.get('TotalRecordCount', 0)\<close>\<close>
  "get_TotalRecordCount p = (case TotalRecordCount p of None \<Rightarrow> 0 | Some n \<Rightarrow> n)"

definition get_Items :: "'a paged \<Rightarrow> 'a list" where
  \<comment> \<open>\<^verbatim>\<open>p.get('Items', [])\<close>\<close>
  "get_Items p = (case Items p of None \<Rightarrow> [] | Some xs \<Rightarrow> xs)"

definition get_str :: "string option \<Rightarrow> string \<Rightarrow> string" where
  \<comment> \<open>\<^verbatim>\<open>d.get(key, default)\<close> for a string-valued key\<close>
  "get_str v d = (case v of None \<Rightarrow> d | Some s \<Rightarrow> s)"

definition str_truthy :: "string option \<Rightarrow> bool" where
  \<comment> \<open>truth value of \<^verbatim>\<open>d.get(key)\<close> for a string-valued key: present and not empty\<close>
  "str_truthy v = (case v of None \<Rightarrow> False | Some s \<Rightarrow> s \<noteq> [])"

section \<open>The data of \<^verbatim>\<open>emby_livetv_ultimate.py\<close>\<close>

text \<open>
  The JSON objects the exporter reads, with the keys it reads. A key that is missing is
  \<open>None\<close>; the values have the types the Emby API documents (strings, integers,
  booleans), so the type errors of ill-typed JSON are outside the model.
\<close>

record system_info =
  si_Version :: "string option"
  si_ServerName :: "string option"
  si_HasLiveTv :: "bool option"
  si_other_keys :: bool

record channel =
  ch_Id :: "string option"
  ch_Name :: "string option"
  ch_ChannelNumber :: "string option"
  ch_Number :: "string option"
  ch_IsDisabled :: "bool option"
  ch_IsFavorite :: "bool option"

record now_playing_item =
  np_Type :: "string option"
  np_Name :: "string option"
  np_ChannelNumber :: "string option"
  np_MediaType :: "string option"

record play_state =
  ps_PlayMethod :: "string option"
  ps_IsPaused :: "bool option"

record transcoding_info =
  ti_Bitrate :: "int option"
  ti_Height :: "int option"

text \<open>A session of \<^verbatim>\<open>/Sessions\<close>. \<open>NowPlayingItem = None\<close> stands for a missing or
  empty object, which Python treats alike in a condition.\<close>

record session =
  sess_Id :: "string option"
  sess_UserName :: "string option"
  sess_Client :: "string option"
  NowPlayingItem :: "now_playing_item option"
  PlayState :: "play_state option"
  TranscodingInfo :: "transcoding_info option"
  Bandwidth :: "int option"

record tuner =
  tuner_Id :: "string option"
  tuner_Name :: "string option"
  tuner_Type :: "string option"
  tuner_ChannelId :: "string option"
  tuner_Status :: "string option"
  tuner_ChannelName :: "string option"

text \<open>The body of \<^verbatim>\<open>/LiveTv/Tuners\<close>: a JSON list of tuners, or something that is
  not a list.\<close>

datatype tuners_body = Tuners_list "tuner list" | Tuners_not_a_list

record recording =
  rec_Size :: "int option"

record timer =
  timer_SeriesTimerId :: "string option"

record program =
  program_Name :: "string option"

text \<open>
  The responses of the server during one cycle, one per request the cycle can issue.
  \<open>env_programs_day d\<close> answers the lookahead query whose window starts \<open>d\<close> days
  after today's midnight. \<open>env_time n\<close> is what the \<open>n\<close>-th call of
  \<^verbatim>\<open>time.time()\<close> made by session tracking returns, counted from the start of the
  process.
\<close>

record ultimate_env =
  env_system_info :: "system_info http_outcome"
  env_channels :: "channel paged http_outcome"
  env_sessions :: "session list http_outcome"
  env_tuners :: "tuners_body http_outcome"
  env_recordings_active :: "recording paged http_outcome"
  env_timers :: "timer paged http_outcome"
  env_recordings_all :: "recording paged http_outcome"
  env_programs_today :: "program paged http_outcome"
  env_programs_upcoming :: "program paged http_outcome"
  env_programs_day :: "nat \<Rightarrow> program paged http_outcome"
  env_time :: "nat \<Rightarrow> rat"

text \<open>
  The exporter object and the metrics it writes. A gauge without labels is its current
  value (the library creates it with value 0); a gauge with labels is a map from the label
  values to the value of each series; a counter is a function from the label values to
  the running total. \<open>requests\<close> records the endpoints requested, in order, and
  \<open>ticks\<close> counts the clock readings taken so far.

  Left out, as they write metrics of their own and decide nothing else: the
  \<^verbatim>\<open>Info\<close> metrics, the HD channel count and the channel type distribution, the
  quality, method, per-user, popularity, hourly and prime-time statistics of
  \<^verbatim>\<open>collect_sessions\<close>, resolution, framerate and buffer health, the genre and duration
  analysis of \<^verbatim>\<open>collect_epg\<close>, and all logging except where a log line raises.
\<close>

record ultimate =
  channel_watch_start :: "string \<rightharpoonup> string \<times> string \<times> rat"
  last_channel_switch :: "string \<rightharpoonup> string \<times> rat"
  peak_streams_24h :: int
  requests :: "string list"
  ticks :: nat
  api_response_time :: "string \<Rightarrow> nat"
  stream_errors :: "string \<Rightarrow> nat"
  server_up :: int
  livetv_enabled :: int
  channels_total :: int
  channels_available :: int
  channel_favorites :: int
  channel_status :: "(string \<times> string \<times> string) \<rightharpoonup> int"
  streams_active :: int
  users_watching :: int
  stream_bandwidth_total :: rat
  transcoding_active :: int
  peak_concurrent_streams :: int
  streams_by_channel :: "(string \<times> string) \<rightharpoonup> int"
  stream_bitrate :: "(string \<times> string \<times> string) \<rightharpoonup> rat"
  user_watch_time :: "string \<times> string \<Rightarrow> rat"
  user_channel_switches :: "string \<Rightarrow> nat"
  tuners_total :: int
  tuners_available :: int
  tuners_in_use :: int
  tuner_utilization :: rat
  tuner_status :: "(string \<times> string \<times> string \<times> string) \<rightharpoonup> int"
  recordings_active :: int
  recordings_scheduled :: int
  recording_series :: int
  recording_storage_gb :: rat
  epg_programs_today :: int
  upcoming_programs :: int
  epg_days_available :: int

text \<open>The exporter after \<^verbatim>\<open>__init__\<close>, with every metric as the library creates it.\<close>

definition new_exporter :: ultimate where
  "new_exporter = \<lparr>
     channel_watch_start = Map.empty, last_channel_switch = Map.empty, peak_streams_24h = 0,
     requests = [], ticks = 0,
     api_response_time = (\<lambda>_. 0), stream_errors = (\<lambda>_. 0),
     server_up = 0, livetv_enabled = 0,
     channels_total = 0, channels_available = 0, channel_favorites = 0, channel_status = Map.empty,
     streams_active = 0, users_watching = 0, stream_bandwidth_total = 0, transcoding_active = 0,
     peak_concurrent_streams = 0, streams_by_channel = Map.empty, stream_bitrate = Map.empty,
     user_watch_time = (\<lambda>_. 0), user_channel_switches = (\<lambda>_. 0),
     tuners_total = 0, tuners_available = 0, tuners_in_use = 0, tuner_utilization = 0,
     tuner_status = Map.empty,
     recordings_active = 0, recordings_scheduled = 0, recording_series = 0, recording_storage_gb = 0,
     epg_programs_today = 0, upcoming_programs = 0, epg_days_available = 0 \<rparr>"

subsection \<open>\<^verbatim>\<open>EmbyLiveTVUltimateExporter._make_request\<close>\<close>

definition make_request :: "string \<Rightarrow> 'a http_outcome \<Rightarrow> ultimate \<Rightarrow> 'a option \<times> ultimate" where
  "make_request endpoint outcome st =
     (let st0 = st\<lparr>requests := requests st @ [endpoint]\<rparr> in
      case outcome of
        Request_exception \<Rightarrow>
          (None, st0\<lparr>stream_errors := (stream_errors st0)(''api_error'' := stream_errors st0 ''api_error'' + 1)\<rparr>)
      | Response status body \<Rightarrow>
          (let st1 = st0\<lparr>api_response_time := (api_response_time st0)(endpoint := api_response_time st0 endpoint + 1)\<rparr> in
           if status = 404 then (None, st1)
           else if raise_for_status status then
             (None, st1\<lparr>stream_errors := (stream_errors st1)(''api_error'' := stream_errors st1 ''api_error'' + 1)\<rparr>)
           else (Some body, st1)))"

subsection \<open>\<^verbatim>\<open>collect_server_info\<close>\<close>

definition collect_server_info :: "ultimate_env \<Rightarrow> ultimate \<Rightarrow> ultimate" where
  "collect_server_info env st =
     (case make_request ''/System/Info'' (env_system_info env) st of (info, st1) \<Rightarrow>
        (case info of
           None \<Rightarrow> st1\<lparr>server_up := 0, livetv_enabled := 0\<rparr>
         | Some i \<Rightarrow>
             if si_Version i \<noteq> None \<or> si_ServerName i \<noteq> None \<or> si_HasLiveTv i \<noteq> None \<or> si_other_keys i
             then st1\<lparr>server_up := 1,
                      livetv_enabled := (if si_HasLiveTv i = Some True then 1 else 0)\<rparr>
             else st1\<lparr>server_up := 0, livetv_enabled := 0\<rparr>))"

subsection \<open>\<^verbatim>\<open>collect_channels\<close>\<close>

definition channel_step :: "int \<times> int \<times> ultimate \<Rightarrow> channel \<Rightarrow> int \<times> int \<times> ultimate" where
  "channel_step acc c =
     (case acc of (available_count, favorite_count, st) \<Rightarrow>
        (let channel_id = get_str (ch_Id c) ''unknown'';
             channel_name = get_str (ch_Name c) ''Unknown'';
             channel_number = get_str (ch_ChannelNumber c) (get_str (ch_Number c) ''N/A'');
             is_available = (if str_truthy (ch_Id c) \<and> ch_IsDisabled c \<noteq> Some True then 1 else 0)
         in ((if is_available \<noteq> 0 then available_count + 1 else available_count),
             (if ch_IsFavorite c = Some True then favorite_count + 1 else favorite_count),
             st\<lparr>channel_status := (channel_status st)((channel_name, channel_number, channel_id) \<mapsto> is_available)\<rparr>)))"

definition collect_channels :: "ultimate_env \<Rightarrow> ultimate \<Rightarrow> ultimate" where
  "collect_channels env st =
     (case make_request ''/LiveTv/Channels'' (env_channels env) st of (channels, st1) \<Rightarrow>
        (case channels of
           None \<Rightarrow> st1\<lparr>channels_total := 0\<rparr>
         | Some p \<Rightarrow>
             if Items p = None then st1\<lparr>channels_total := 0\<rparr>
             else (case foldl channel_step (0, 0, st1\<lparr>channels_total := get_TotalRecordCount p\<rparr>) (get_Items p) of
                     (available_count, favorite_count, st2) \<Rightarrow>
                       st2\<lparr>channels_available := available_count, channel_favorites := favorite_count\<rparr>)))"

subsection \<open>\<^verbatim>\<open>collect_sessions\<close>\<close>

definition time_time :: "ultimate_env \<Rightarrow> ultimate \<Rightarrow> rat \<times> ultimate" where
  "time_time env st = (env_time env (ticks st), st\<lparr>ticks := Suc (ticks st)\<rparr>)"

text \<open>The locals of \<^verbatim>\<open>collect_sessions\<close> that the loop updates. \<open>channel_viewers\<close>
  keeps the insertion order of the dict.\<close>

record sessions_locals =
  livetv_stream_count :: int
  users_watching_set :: "string list"
  channel_viewers :: "(string \<times> int) list"
  total_bandwidth_mbps :: rat
  transcoding_count :: int

definition bump :: "string \<Rightarrow> (string \<times> int) list \<Rightarrow> (string \<times> int) list" where
  \<comment> \<open>\<^verbatim>\<open>d[key] += 1\<close> on a \<^verbatim>\<open>defaultdict(int)\<close>\<close>
  "bump key d = (case map_of d key of
                   None \<Rightarrow> d @ [(key, 1)]
                 | Some n \<Rightarrow> map (\<lambda>(k, v). if k = key then (k, v + 1) else (k, v)) d)"

text \<open>Lines 314 to 319, "Track channel switches".\<close>

definition track_channel_switch :: "ultimate_env \<Rightarrow> string \<Rightarrow> string \<Rightarrow> ultimate \<Rightarrow> ultimate" where
  "track_channel_switch env user channel_name st =
     (let st1 = (case last_channel_switch st user of
                   None \<Rightarrow> st
                 | Some (last_channel, _) \<Rightarrow>
                     if last_channel \<noteq> channel_name
                     then st\<lparr>user_channel_switches := (user_channel_switches st)(user := user_channel_switches st user + 1)\<rparr>
                     else st)
      in case time_time env st1 of (now, st2) \<Rightarrow>
           st2\<lparr>last_channel_switch := (last_channel_switch st2)(user \<mapsto> (channel_name, now))\<rparr>)"

text \<open>Lines 321 to 328, "Track watch time". \<^verbatim>\<open>Counter.inc\<close> raises \<^verbatim>\<open>ValueError\<close> when
  the amount is negative, that is when the clock reads less than the start of the anchor;
  the counter is then left as it was.\<close>

definition track_watch_time ::
  "ultimate_env \<Rightarrow> string \<Rightarrow> string \<Rightarrow> string \<Rightarrow> ultimate \<Rightarrow> pyexn option \<times> ultimate" where
  "track_watch_time env session_id user channel_name st =
     (case channel_watch_start st session_id of
        None \<Rightarrow>
          (case time_time env st of (now, st1) \<Rightarrow>
             (None, st1\<lparr>channel_watch_start := (channel_watch_start st1)(session_id \<mapsto> (user, channel_name, now))\<rparr>))
      | Some (old_user, old_channel, start_time) \<Rightarrow>
          if old_channel = channel_name
          then (case time_time env st of (now, st1) \<Rightarrow>
                  (let watch_duration = now - start_time in
                   if watch_duration < 0 then (Some ValueError, st1)
                   else (None, st1\<lparr>user_watch_time := (user_watch_time st1)
                           ((user, channel_name) := user_watch_time st1 (user, channel_name) + watch_duration)\<rparr>)))
          else (None, st))"

text \<open>Lines 350 to 363: the bitrate of a session with \<^verbatim>\<open>TranscodingInfo\<close>.\<close>

definition track_bitrate ::
  "session \<Rightarrow> string \<Rightarrow> string \<Rightarrow> string \<Rightarrow> sessions_locals \<times> ultimate \<Rightarrow> sessions_locals \<times> ultimate" where
  "track_bitrate s user channel_name session_id acc =
     (case acc of (loc, st) \<Rightarrow>
        (case TranscodingInfo s of
           None \<Rightarrow> (loc, st)
         | Some trans_info \<Rightarrow>
             (let bitrate = (case ti_Bitrate trans_info of None \<Rightarrow> 0 | Some b \<Rightarrow> b) in
              if bitrate > 0
              then (loc\<lparr>total_bandwidth_mbps := total_bandwidth_mbps loc + of_int bitrate / 1000000\<rparr>,
                    st\<lparr>stream_bitrate := (stream_bitrate st)((user, channel_name, session_id) \<mapsto> of_int bitrate / 1000)\<rparr>)
              else (loc, st))))"

text \<open>The body of \<^verbatim>\<open>for session in sessions\<close>. An exception of the watch-time block
  leaves the body there, with the locals and the exporter as they are at that point.\<close>

definition session_step ::
  "ultimate_env \<Rightarrow> sessions_locals \<times> ultimate \<Rightarrow> session \<Rightarrow> pyexn option \<times> sessions_locals \<times> ultimate" where
  "session_step env acc s =
     (case acc of (loc, st) \<Rightarrow>
        (case NowPlayingItem s of
           None \<Rightarrow> (None, loc, st)
         | Some now_playing \<Rightarrow>
             if np_Type now_playing = Some ''TvChannel'' then
               (let session_id = get_str (sess_Id s) ''unknown'';
                    user = get_str (sess_UserName s) ''unknown'';
                    channel_name = get_str (np_Name now_playing) ''Unknown Channel'';
                    channel_number = get_str (np_ChannelNumber now_playing) ''N/A'';
                    loc1 = loc\<lparr>livetv_stream_count := livetv_stream_count loc + 1,
                              users_watching_set := List.insert user (users_watching_set loc),
                              channel_viewers := bump (channel_name @ ''|'' @ channel_number) (channel_viewers loc)\<rparr>;
                    st1 = track_channel_switch env user channel_name st
                in case track_watch_time env session_id user channel_name st1 of
                     (Some e, st2) \<Rightarrow> (Some e, loc1, st2)
                   | (None, st2) \<Rightarrow>
                       (let play_method = (case PlayState s of None \<Rightarrow> ''Unknown''
                                           | Some play_state \<Rightarrow> get_str (ps_PlayMethod play_state) ''Unknown'');
                            loc2 = (if play_method = ''Transcode''
                                    then loc1\<lparr>transcoding_count := transcoding_count loc1 + 1\<rparr> else loc1)
                        in (None, track_bitrate s user channel_name session_id (loc2, st2))))
             else (None, loc, st)))"

text \<open>The loop \<^verbatim>\<open>for session in sessions\<close>: it ends with the list, or at the first
  session whose pass raises.\<close>

fun sessions_loop ::
  "ultimate_env \<Rightarrow> sessions_locals \<times> ultimate \<Rightarrow> session list \<Rightarrow> pyexn option \<times> sessions_locals \<times> ultimate" where
  "sessions_loop env acc [] = (None, acc)"
| "sessions_loop env acc (s # ss) =
     (case session_step env acc s of
        (Some e, acc') \<Rightarrow> (Some e, acc')
      | (None, acc') \<Rightarrow> sessions_loop env acc' ss)"

fun split_on :: "char \<Rightarrow> string \<Rightarrow> string list" where
  \<comment> \<open>\<^verbatim>\<open>s.split(c)\<close> for a separator of one character\<close>
  "split_on c [] = [[]]"
| "split_on c (x # xs) =
     (if x = c then [] # split_on c xs
      else (case split_on c xs of [] \<Rightarrow> [[x]] | w # ws \<Rightarrow> (x # w) # ws))"

text \<open>Lines 412 to 418. \<^verbatim>\<open>channel_name, channel_number = channel_key.split('|')\<close> raises
  \<^verbatim>\<open>ValueError\<close> unless the key splits in exactly two parts.\<close>

fun set_streams_by_channel :: "(string \<times> int) list \<Rightarrow> ultimate \<Rightarrow> pyexn option \<times> ultimate" where
  "set_streams_by_channel [] st = (None, st)"
| "set_streams_by_channel ((channel_key, count) # rest) st =
     (case split_on CHR ''|'' channel_key of
        [channel_name, channel_number] \<Rightarrow>
          set_streams_by_channel rest
            (st\<lparr>streams_by_channel := (streams_by_channel st)((channel_name, channel_number) \<mapsto> count)\<rparr>)
      | _ \<Rightarrow> (Some ValueError, st))"

text \<open>Lines 401 to 410, "Set all metrics" and "Update peak concurrent streams".\<close>

definition set_session_gauges :: "sessions_locals \<Rightarrow> ultimate \<Rightarrow> ultimate" where
  "set_session_gauges loc st =
     (let st3 = st\<lparr>streams_active := livetv_stream_count loc,
                    users_watching := int (length (users_watching_set loc)),
                    stream_bandwidth_total := total_bandwidth_mbps loc,
                    transcoding_active := transcoding_count loc\<rparr>;
          st4 = (if livetv_stream_count loc > peak_streams_24h st3
                 then st3\<lparr>peak_streams_24h := livetv_stream_count loc\<rparr> else st3)
      in st4\<lparr>peak_concurrent_streams := peak_streams_24h st4\<rparr>)"

text \<open>\<^verbatim>\<open>collect_sessions\<close> catches nothing: an exception of the loop leaves it before
  any gauge is set.\<close>

definition collect_sessions :: "ultimate_env \<Rightarrow> ultimate \<Rightarrow> pyexn option \<times> ultimate" where
  "collect_sessions env st =
     (case make_request ''/Sessions'' (env_sessions env) st of (sessions, st1) \<Rightarrow>
        if (case sessions of None \<Rightarrow> True | Some ss \<Rightarrow> ss = []) then (None, st1)
        else
          (case sessions_loop env
                  (\<lparr>livetv_stream_count = 0, users_watching_set = [], channel_viewers = [],
                    total_bandwidth_mbps = 0, transcoding_count = 0\<rparr>, st1)
                  (case sessions of None \<Rightarrow> [] | Some ss \<Rightarrow> ss) of
             (Some e, loc, st2) \<Rightarrow> (Some e, st2)
           | (None, loc, st2) \<Rightarrow> set_streams_by_channel (channel_viewers loc) (set_session_gauges loc st2)))"

subsection \<open>\<^verbatim>\<open>collect_tuners\<close>\<close>

definition is_in_use :: "tuner \<Rightarrow> int" where
  "is_in_use t = (if str_truthy (tuner_ChannelId t) \<or> tuner_Status t = Some ''LiveTv'' then 1 else 0)"

text \<open>One pass of the loop body; the loop's locals are \<open>in_use_count\<close> and
  \<open>available_count\<close>.\<close>

definition tuner_step :: "int \<times> int \<times> ultimate \<Rightarrow> tuner \<Rightarrow> int \<times> int \<times> ultimate" where
  "tuner_step acc t =
     (case acc of (in_use_count, available_count, st) \<Rightarrow>
        (let tuner_id = get_str (tuner_Id t) ''unknown'';
             tuner_name = get_str (tuner_Name t) ''Unknown Tuner'';
             tuner_type = get_str (tuner_Type t) ''Unknown'';
             in_use = is_in_use t;
             in_use_count' = (if in_use \<noteq> 0 then in_use_count + 1 else in_use_count);
             available_count' = (if in_use \<noteq> 0 then available_count else available_count + 1);
             channel_name = (if in_use \<noteq> 0 then get_str (tuner_ChannelName t) ''Unknown'' else ''None'')
         in (in_use_count', available_count',
             st\<lparr>tuner_status := (tuner_status st)((tuner_id, tuner_name, tuner_type, channel_name) \<mapsto> in_use)\<rparr>)))"

definition collect_tuners :: "ultimate_env \<Rightarrow> ultimate \<Rightarrow> ultimate" where
  "collect_tuners env st =
     (case make_request ''/LiveTv/Tuners'' (env_tuners env) st of (tuners, st1) \<Rightarrow>
        (case tuners of
           Some (Tuners_list (t # ts)) \<Rightarrow>
             (let total_tuners = int (length (t # ts)) in
              case foldl tuner_step (0, 0, st1) (t # ts) of (in_use_count, available_count, st2) \<Rightarrow>
                st2\<lparr>tuners_total := total_tuners,
                    tuners_available := available_count,
                    tuners_in_use := in_use_count,
                    tuner_utilization :=
                      (if total_tuners > 0 then (of_int in_use_count / of_int total_tuners) * 100 else 0)\<rparr>)
         | _ \<Rightarrow>
             st1\<lparr>tuners_total := 0, tuners_available := 0, tuners_in_use := 0, tuner_utilization := 0\<rparr>))"

subsection \<open>\<^verbatim>\<open>collect_recordings\<close>\<close>

text \<open>
  The local \<^verbatim>\<open>scheduled_count\<close> is bound only in the branch of the timers; \<open>None\<close>
  is the unbound local. The log line at the end of the third branch evaluates
  \<^verbatim>\<open>active.get('TotalRecordCount', 0)\<close> first and \<^verbatim>\<open>scheduled_count\<close> second.
\<close>

definition collect_recordings :: "ultimate_env \<Rightarrow> ultimate \<Rightarrow> pyexn option \<times> ultimate" where
  "collect_recordings env st =
     (case make_request ''/LiveTv/Recordings'' (env_recordings_active env) st of (active, st1) \<Rightarrow>
      let st2 = (case active of
                   None \<Rightarrow> st1
                 | Some a \<Rightarrow> if Items a \<noteq> None
                             then st1\<lparr>recordings_active := get_TotalRecordCount a\<rparr> else st1) in
      case make_request ''/LiveTv/Timers'' (env_timers env) st2 of (timers, st3) \<Rightarrow>
      let (scheduled_count, st4) =
            (case timers of
               None \<Rightarrow> (None, st3)
             | Some t \<Rightarrow>
                 if Items t \<noteq> None
                 then (Some (get_TotalRecordCount t),
                       st3\<lparr>recordings_scheduled := get_TotalRecordCount t,
                           recording_series :=
                             int (length (filter (\<lambda>timer. str_truthy (timer_SeriesTimerId timer)) (get_Items t)))\<rparr>)
                 else (None, st3)) in
      case make_request ''/LiveTv/Recordings'' (env_recordings_all env) st4 of (all_recordings, st5) \<Rightarrow>
        (case all_recordings of
           None \<Rightarrow> (None, st5)
         | Some r \<Rightarrow>
             if Items r \<noteq> None then
               (let total_size_bytes =
                      sum_list (map (\<lambda>item. case rec_Size item of None \<Rightarrow> 0 | Some n \<Rightarrow> n) (get_Items r));
                    st6 = st5\<lparr>recording_storage_gb := of_int total_size_bytes / (1024 * 1024 * 1024)\<rparr>
                in if active = None then (Some AttributeError, st6)
                   else if scheduled_count = None then (Some UnboundLocalError, st6)
                   else (None, st6))
             else (None, st5)))"

subsection \<open>\<^verbatim>\<open>collect_epg\<close>: the days-available probe\<close>

definition max_days :: nat where
  "max_days = 14"

definition probe_stops :: "'a paged option \<Rightarrow> bool" where
  \<comment> \<open>\<^verbatim>\<open>not future_programs or future_programs.get('TotalRecordCount', 0) == 0\<close>\<close>
  "probe_stops r = (case r of None \<Rightarrow> True | Some p \<Rightarrow> \<not> dict_truthy p \<or> get_TotalRecordCount p = 0)"

text \<open>The loop \<^verbatim>\<open>for days in range(1, max_days + 1): ... break ... else: ...\<close>, from
  \<open>days\<close> on.\<close>

function epg_days_loop :: "ultimate_env \<Rightarrow> nat \<Rightarrow> ultimate \<Rightarrow> ultimate" where
  "epg_days_loop env days st =
     (if max_days < days then st\<lparr>epg_days_available := int max_days\<rparr>
      else (case make_request ''/LiveTv/Programs'' (env_programs_day env days) st of (future_programs, st1) \<Rightarrow>
              if probe_stops future_programs then st1\<lparr>epg_days_available := int days - 1\<rparr>
              else epg_days_loop env (Suc days) st1))"
  by pat_completeness auto
termination
  by (relation "measure (\<lambda>(env, days, st). Suc max_days - days)") auto

definition collect_epg :: "ultimate_env \<Rightarrow> ultimate \<Rightarrow> pyexn option \<times> ultimate" where
  "collect_epg env st =
     (case make_request ''/LiveTv/Programs'' (env_programs_today env) st of (today_programs, st1) \<Rightarrow>
      let st2 = (case today_programs of
                   None \<Rightarrow> st1
                 | Some p \<Rightarrow> if Items p \<noteq> None
                             then st1\<lparr>epg_programs_today := get_TotalRecordCount p\<rparr> else st1) in
      case make_request ''/LiveTv/Programs'' (env_programs_upcoming env) st2 of (upcoming, st3) \<Rightarrow>
      let st4 = (case upcoming of
                   None \<Rightarrow> st3
                 | Some u \<Rightarrow> if dict_truthy u
                             then st3\<lparr>upcoming_programs := get_TotalRecordCount u\<rparr> else st3);
          st5 = epg_days_loop env 1 st4
      in if today_programs = None \<or> upcoming = None then (Some AttributeError, st5) else (None, st5))"

subsection \<open>\<^verbatim>\<open>collect_all_metrics\<close>\<close>

text \<open>The \<^verbatim>\<open>except Exception\<close> clause of \<^verbatim>\<open>collect_all_metrics\<close>.\<close>

definition collection_error :: "ultimate \<Rightarrow> ultimate" where
  "collection_error st =
     st\<lparr>server_up := 0,
        stream_errors := (stream_errors st)(''collection_error'' := stream_errors st ''collection_error'' + 1)\<rparr>"

definition collect_all_metrics :: "ultimate_env \<Rightarrow> ultimate \<Rightarrow> ultimate" where
  "collect_all_metrics env st =
     (let st1 = collect_server_info env st;
          st2 = collect_channels env st1
      in case collect_sessions env st2 of
           (Some e, st3) \<Rightarrow> collection_error st3
         | (None, st3) \<Rightarrow>
             (let st4 = collect_tuners env st3
              in case collect_recordings env st4 of
                   (Some e, st5) \<Rightarrow> collection_error st5
                 | (None, st5) \<Rightarrow>
                     (case collect_epg env st5 of
                        (Some e, st6) \<Rightarrow> collection_error st6
                      | (None, st6) \<Rightarrow> st6)))"

section \<open>\<^verbatim>\<open>emby_exporter_fixed.py\<close>\<close>

record fixed =
  api_request_duration :: "string \<Rightarrow> nat"
  api_request_errors :: "string \<Rightarrow> nat"
  active_sessions :: int
  active_streams :: int
  active_transcodes :: int
  session_bandwidth :: "(string \<times> string \<times> string) \<rightharpoonup> int"
  total_bandwidth :: int

text \<open>\<^verbatim>\<open>EmbyExporter._make_request\<close>: no branch for 404, which
  \<^verbatim>\<open>raise_for_status\<close> turns into an \<^verbatim>\<open>HTTPError\<close> like any 4xx.\<close>

definition make_request_fixed :: "string \<Rightarrow> 'a http_outcome \<Rightarrow> fixed \<Rightarrow> 'a option \<times> fixed" where
  "make_request_fixed endpoint outcome st =
     (case outcome of
        Request_exception \<Rightarrow>
          (None, st\<lparr>api_request_errors := (api_request_errors st)(endpoint := api_request_errors st endpoint + 1)\<rparr>)
      | Response status body \<Rightarrow>
          if raise_for_status status
          then (None, st\<lparr>api_request_errors := (api_request_errors st)(endpoint := api_request_errors st endpoint + 1)\<rparr>)
          else (Some body, st\<lparr>api_request_duration := (api_request_duration st)(endpoint := api_request_duration st endpoint + 1)\<rparr>))"

text \<open>The locals of \<^verbatim>\<open>EmbyExporter.collect_sessions\<close>.\<close>

record fixed_locals =
  streaming_count :: int
  fl_transcoding_count :: int
  total_bandwidth_bytes :: int

definition session_step_fixed :: "fixed_locals \<times> fixed \<Rightarrow> session \<Rightarrow> fixed_locals \<times> fixed" where
  "session_step_fixed acc s =
     (case acc of (loc, st) \<Rightarrow>
        if NowPlayingItem s \<noteq> None then
          (let loc1 = loc\<lparr>streaming_count := streaming_count loc + 1\<rparr> in
           case PlayState s of
             None \<Rightarrow> (loc1, st)
           | Some play_state \<Rightarrow>
               (let bandwidth = (case Bandwidth s of None \<Rightarrow> 0 | Some b \<Rightarrow> b);
                    play_method = get_str (ps_PlayMethod play_state) ''Unknown'';
                    loc2 = (if play_method = ''Transcode''
                            then loc1\<lparr>fl_transcoding_count := fl_transcoding_count loc1 + 1\<rparr> else loc1);
                    loc3 = loc2\<lparr>total_bandwidth_bytes := total_bandwidth_bytes loc2 + bandwidth\<rparr>
                in (loc3,
                    st\<lparr>session_bandwidth := (session_bandwidth st)
                          ((get_str (sess_Id s) ''unknown'', get_str (sess_UserName s) ''unknown'',
                            get_str (sess_Client s) ''unknown'') \<mapsto> bandwidth)\<rparr>)))
        else (loc, st))"

definition collect_sessions_fixed :: "session list http_outcome \<Rightarrow> fixed \<Rightarrow> fixed" where
  "collect_sessions_fixed outcome st =
     (case make_request_fixed ''/Sessions'' outcome st of (sessions, st1) \<Rightarrow>
        if (case sessions of None \<Rightarrow> True | Some ss \<Rightarrow> ss = []) then st1
        else
          (let ss = (case sessions of None \<Rightarrow> [] | Some ss \<Rightarrow> ss) in
           case foldl session_step_fixed
                  (\<lparr>streaming_count = 0, fl_transcoding_count = 0, total_bandwidth_bytes = 0\<rparr>, st1) ss of
             (loc, st2) \<Rightarrow>
               st2\<lparr>active_sessions := int (length ss),
                   active_streams := streaming_count loc,
                   active_transcodes := fl_transcoding_count loc,
                   total_bandwidth := total_bandwidth_bytes loc\<rparr>))"

section \<open>\<^verbatim>\<open>emby_exporter_debug.py\<close>\<close>

text \<open>The label \<^verbatim>\<open>status\<close> of \<^verbatim>\<open>debug_api_calls\<close> is the status code, or
  \<^verbatim>\<open>'error'\<close> (\<open>None\<close>).\<close>

record debug =
  dbg_api_request_duration :: "string \<Rightarrow> nat"
  dbg_api_request_errors :: "string \<Rightarrow> nat"
  debug_api_calls :: "string \<times> nat option \<Rightarrow> nat"
  debug_sessions_found :: int
  debug_streams_found :: int
  dbg_active_sessions :: int
  dbg_active_streams :: int
  dbg_active_transcodes :: int
  dbg_session_bandwidth :: "(string \<times> string \<times> string \<times> string \<times> string) \<rightharpoonup> int"
  dbg_total_bandwidth :: int

definition make_request_debug :: "string \<Rightarrow> 'a http_outcome \<Rightarrow> debug \<Rightarrow> 'a option \<times> debug" where
  "make_request_debug endpoint outcome st =
     (let failed = (\<lambda>st'. st'\<lparr>dbg_api_request_errors := (dbg_api_request_errors st')(endpoint := dbg_api_request_errors st' endpoint + 1),
                              debug_api_calls := (debug_api_calls st')((endpoint, None) := debug_api_calls st' (endpoint, None) + 1)\<rparr>) in
      case outcome of
        Request_exception \<Rightarrow> (None, failed st)
      | Response status body \<Rightarrow>
          (let st1 = st\<lparr>dbg_api_request_duration := (dbg_api_request_duration st)(endpoint := dbg_api_request_duration st endpoint + 1),
                        debug_api_calls := (debug_api_calls st)((endpoint, Some status) := debug_api_calls st (endpoint, Some status) + 1)\<rparr> in
           if raise_for_status status then (None, failed st1) else (Some body, st1)))"

record debug_locals =
  dl_streaming_count :: int
  dl_transcoding_count :: int
  dl_total_bandwidth_bytes :: int

text \<open>Lines 191 to 200: the bandwidth of a streaming session.\<close>

definition session_bandwidth_debug :: "session \<Rightarrow> int" where
  "session_bandwidth_debug s =
     (case Bandwidth s of
        Some b \<Rightarrow> b
      | None \<Rightarrow> (case TranscodingInfo s of
                   Some trans_info \<Rightarrow> (case ti_Bitrate trans_info of None \<Rightarrow> 0 | Some b \<Rightarrow> b)
                 | None \<Rightarrow> 0))"

text \<open>\<^verbatim>\<open>str(i)\<close> for an index of \<^verbatim>\<open>enumerate\<close>: the decimal digits of a natural
  number.\<close>

function str_nat :: "nat \<Rightarrow> string" where
  "str_nat n = (if n < 10 then [''0123456789'' ! n] else str_nat (n div 10) @ [''0123456789'' ! (n mod 10)])"
  by pat_completeness auto
termination
  by (relation "measure id") auto

declare str_nat.simps [simp del]

text \<open>The label values of the series of a session (lines 159 to 161, 172 and 179). The
  label \<^verbatim>\<open>session_id\<close> is \<^verbatim>\<open>session.get('Id', f'unknown_{i}')\<close>: the id, or the string
  \<^verbatim>\<open>unknown_\<close> followed by the index of the session in the list.\<close>

definition session_labels_debug :: "nat \<Rightarrow> session \<Rightarrow> string \<times> string \<times> string \<times> string \<times> string" where
  "session_labels_debug i s =
     (get_str (sess_Id s) (''unknown_'' @ str_nat i),
      get_str (sess_UserName s) ''unknown'',
      get_str (sess_Client s) ''unknown'',
      (case NowPlayingItem s of None \<Rightarrow> ''Unknown'' | Some np \<Rightarrow> get_str (np_MediaType np) ''Unknown''),
      (case PlayState s of None \<Rightarrow> ''Unknown'' | Some ps \<Rightarrow> get_str (ps_PlayMethod ps) ''Unknown''))"

text \<open>The body of \<^verbatim>\<open>for i, session in enumerate(sessions)\<close>.\<close>

definition session_step_debug :: "debug_locals \<times> debug \<Rightarrow> nat \<times> session \<Rightarrow> debug_locals \<times> debug" where
  "session_step_debug acc is =
     (case acc of (loc, st) \<Rightarrow> case is of (i, s) \<Rightarrow>
        if NowPlayingItem s \<noteq> None then
          (let loc1 = loc\<lparr>dl_streaming_count := dl_streaming_count loc + 1\<rparr>;
               play_method = (case PlayState s of None \<Rightarrow> ''Unknown'' | Some ps \<Rightarrow> get_str (ps_PlayMethod ps) ''Unknown'');
               loc2 = (if play_method = ''Transcode''
                       then loc1\<lparr>dl_transcoding_count := dl_transcoding_count loc1 + 1\<rparr> else loc1);
               bandwidth = session_bandwidth_debug s
           in if bandwidth > 0
              then (loc2\<lparr>dl_total_bandwidth_bytes := dl_total_bandwidth_bytes loc2 + bandwidth\<rparr>,
                    st\<lparr>dbg_session_bandwidth := (dbg_session_bandwidth st)(session_labels_debug i s \<mapsto> bandwidth)\<rparr>)
              else (loc2,
                    st\<lparr>dbg_session_bandwidth := (dbg_session_bandwidth st)(session_labels_debug i s \<mapsto> 0)\<rparr>))
        else (loc, st))"

definition collect_sessions_debug :: "session list http_outcome \<Rightarrow> debug \<Rightarrow> debug" where
  "collect_sessions_debug outcome st =
     (case make_request_debug ''/Sessions'' outcome st of (sessions, st1) \<Rightarrow>
        case sessions of
          None \<Rightarrow> st1\<lparr>debug_sessions_found := 0, debug_streams_found := 0\<rparr>
        | Some ss \<Rightarrow>
            (case foldl session_step_debug
                    (\<lparr>dl_streaming_count = 0, dl_transcoding_count = 0, dl_total_bandwidth_bytes = 0\<rparr>,
                     st1\<lparr>debug_sessions_found := int (length ss)\<rparr>)
                    (enumerate 0 ss) of
               (loc, st2) \<Rightarrow>
                 st2\<lparr>dbg_active_sessions := int (length ss),
                     dbg_active_streams := dl_streaming_count loc,
                     dbg_active_transcodes := dl_transcoding_count loc,
                     dbg_total_bandwidth := dl_total_bandwidth_bytes loc,
                     debug_streams_found := dl_streaming_count loc\<rparr>))"

section \<open>\<^verbatim>\<open>emby_livetv_exporter.py\<close>\<close>

record livetv =
  ltv_api_request_duration :: "string \<Rightarrow> nat"
  ltv_api_request_errors :: "string \<Rightarrow> nat"

text \<open>\<^verbatim>\<open>EmbyLiveTVExporter._make_request\<close>\<close>

definition make_request_livetv :: "string \<Rightarrow> 'a http_outcome \<Rightarrow> livetv \<Rightarrow> 'a option \<times> livetv" where
  "make_request_livetv endpoint outcome st =
     (case outcome of
        Request_exception \<Rightarrow>
          (None, st\<lparr>ltv_api_request_errors := (ltv_api_request_errors st)(endpoint := ltv_api_request_errors st endpoint + 1)\<rparr>)
      | Response status body \<Rightarrow>
          (let st1 = st\<lparr>ltv_api_request_duration := (ltv_api_request_duration st)(endpoint := ltv_api_request_duration st endpoint + 1)\<rparr> in
           if status = 404 then (None, st1)
           else if raise_for_status status then
             (None, st1\<lparr>ltv_api_request_errors := (ltv_api_request_errors st1)(endpoint := ltv_api_request_errors st1 endpoint + 1)\<rparr>)
           else (Some body, st1)))"

section \<open>\<^verbatim>\<open>parse_emby_datetime\<close>\<close>

subsection \<open>The library function \<^verbatim>\<open>datetime.fromisoformat\<close>\<close>

text \<open>
  What \<^verbatim>\<open>datetime.fromisoformat\<close> returns: the fields of the \<^verbatim>\<open>datetime\<close>
  object. \<open>dt_utcoffset\<close> is \<open>None\<close> for a naive datetime and the offset from UTC in
  microseconds for an aware one.
\<close>

record datetime =
  dt_year :: nat
  dt_month :: nat
  dt_day :: nat
  dt_hour :: nat
  dt_minute :: nat
  dt_second :: nat
  dt_microsecond :: nat
  dt_utcoffset :: "int option"

definition is_digit :: "char \<Rightarrow> bool" where
  "is_digit c = (c \<in> set ''0123456789'')"

definition digit_val :: "char \<Rightarrow> nat" where
  "digit_val c = of_char c - 48"

definition digits_val :: "string \<Rightarrow> nat" where
  "digits_val cs = foldl (\<lambda>n c. 10 * n + digit_val c) 0 cs"

definition parse_digits :: "string \<Rightarrow> nat option" where
  "parse_digits cs = (if cs \<noteq> [] \<and> list_all is_digit cs then Some (digits_val cs) else None)"

text \<open>
  \<^verbatim>\<open>datetime.fromisoformat\<close> is code of the Python library, not of the repository. It
  is modelled here from the library's documentation for Python 3.7 to 3.10, the
  behaviour the docstring of \<^verbatim>\<open>parse_emby_datetime\<close> describes ("Python expects ... 6
  digits max"): the strings accepted are
  \<^verbatim>\<open>YYYY-MM-DD[*HH[:MM[:SS[.fff[fff]]]][+HH:MM[:SS[.ffffff]]]]\<close>, where \<^verbatim>\<open>*\<close> is any one
  character, every field is made of ASCII digits and lies in the range the
  \<^verbatim>\<open>datetime\<close> constructor accepts, and the offset lies strictly between -24 and +24
  hours. Any other string raises \<^verbatim>\<open>ValueError\<close>. The functions of \<^verbatim>\<open>parse_emby_datetime\<close>
  take the library function as the parameter \<open>fromiso\<close>.
\<close>

definition parse_isoformat_date :: "string \<Rightarrow> (nat \<times> nat \<times> nat) option" where
  "parse_isoformat_date d =
     (if length d = 10 \<and> d ! 4 = CHR ''-'' \<and> d ! 7 = CHR ''-'' then
        (case (parse_digits (take 4 d), parse_digits (take 2 (drop 5 d)), parse_digits (take 2 (drop 8 d))) of
           (Some y, Some m, Some dd) \<Rightarrow> Some (y, m, dd)
         | _ \<Rightarrow> None)
      else None)"

definition parse_hh_mm_ss_ff :: "string \<Rightarrow> (nat \<times> nat \<times> nat \<times> nat) option" where
  "parse_hh_mm_ss_ff t =
     (let n = length t in
      if n \<noteq> 2 \<and> n \<noteq> 5 \<and> n \<noteq> 8 \<and> n \<noteq> 12 \<and> n \<noteq> 15 then None
      else (case parse_digits (take 2 t) of
              None \<Rightarrow> None
            | Some h \<Rightarrow>
                if n = 2 then Some (h, 0, 0, 0)
                else if t ! 2 \<noteq> CHR '':'' then None
                else (case parse_digits (take 2 (drop 3 t)) of
                        None \<Rightarrow> None
                      | Some m \<Rightarrow>
                          if n = 5 then Some (h, m, 0, 0)
                          else if t ! 5 \<noteq> CHR '':'' then None
                          else (case parse_digits (take 2 (drop 6 t)) of
                                  None \<Rightarrow> None
                                | Some sec \<Rightarrow>
                                    if n = 8 then Some (h, m, sec, 0)
                                    else if t ! 8 \<noteq> CHR ''.'' then None
                                    else (case parse_digits (drop 9 t) of
                                            None \<Rightarrow> None
                                          | Some f \<Rightarrow> Some (h, m, sec, if n = 12 then f * 1000 else f))))))"

definition is_sign :: "char \<Rightarrow> bool" where
  "is_sign c = (c = CHR ''+'' \<or> c = CHR ''-'')"

text \<open>The time of day and the offset: the text before the first sign is the time, the
  text after it the offset.\<close>

definition parse_isoformat_time :: "string \<Rightarrow> ((nat \<times> nat \<times> nat \<times> nat) \<times> int option) option" where
  "parse_isoformat_time tstr =
     (case parse_hh_mm_ss_ff (takeWhile (\<lambda>c. \<not> is_sign c) tstr) of
        None \<Rightarrow> None
      | Some time_comps \<Rightarrow>
          (case dropWhile (\<lambda>c. \<not> is_sign c) tstr of
             [] \<Rightarrow> Some (time_comps, None)
           | sign # tzstr \<Rightarrow>
               if length tzstr \<noteq> 5 \<and> length tzstr \<noteq> 8 \<and> length tzstr \<noteq> 15 then None
               else (case parse_hh_mm_ss_ff tzstr of
                       None \<Rightarrow> None
                     | Some (h, m, sec, us) \<Rightarrow>
                         (let td = (int h * 3600 + int m * 60 + int sec) * 1000000 + int us;
                              offset = (if sign = CHR ''-'' then - td else td)
                          in if td < 24 * 3600 * 1000000 then Some (time_comps, Some offset) else None))))"

definition is_leap :: "nat \<Rightarrow> bool" where
  "is_leap y = (y mod 4 = 0 \<and> (y mod 100 \<noteq> 0 \<or> y mod 400 = 0))"

definition days_in_month :: "nat \<Rightarrow> nat \<Rightarrow> nat" where
  "days_in_month y m =
     (if m = 2 then (if is_leap y then 29 else 28)
      else if m = 4 \<or> m = 6 \<or> m = 9 \<or> m = 11 then 30 else 31)"

definition fromisoformat :: "string \<Rightarrow> pyexn + datetime" where
  "fromisoformat date_string =
     (case parse_isoformat_date (take 10 date_string) of
        None \<Rightarrow> Inl ValueError
      | Some (y, m, d) \<Rightarrow>
          (case (if length date_string = 10 then Some ((0, 0, 0, 0), None)
                 else parse_isoformat_time (drop 11 date_string)) of
             None \<Rightarrow> Inl ValueError
           | Some ((h, mi, sec, us), tz) \<Rightarrow>
               if 1 \<le> y \<and> y \<le> 9999 \<and> 1 \<le> m \<and> m \<le> 12 \<and> 1 \<le> d \<and> d \<le> days_in_month y m
                  \<and> h < 24 \<and> mi < 60 \<and> sec < 60
               then Inr \<lparr>dt_year = y, dt_month = m, dt_day = d, dt_hour = h, dt_minute = mi,
                        dt_second = sec, dt_microsecond = us, dt_utcoffset = tz\<rparr>
               else Inl ValueError))"

subsection \<open>The regular expression\<close>

text \<open>
  \<^verbatim>\<open>re.match(r'(\d{4}-\d{2}-\d{2}T\d{2}:\d{2}:\d{2})\.(\d{6})\d*([+-]\d{2}:\d{2}|Z)?', s)\<close>
  written out. A pattern element is a digit, a sign \<^verbatim>\<open>[+-]\<close> or a literal character. After the six digits
  of group 2, \<^verbatim>\<open>\d*\<close> takes every digit that follows; group 3 is what stands right
  after them, if it has the form of an offset or is \<^verbatim>\<open>Z\<close>, and is unset otherwise. The
  match is anchored at the start only. Strings are lists of 8-bit characters, among
  which \<^verbatim>\<open>\d\<close> matches the ASCII digits only.
\<close>

datatype pat = D | Sign | L char

fun matches :: "pat list \<Rightarrow> string \<Rightarrow> bool" where
  "matches [] [] = True"
| "matches (D # ps) (c # cs) = (is_digit c \<and> matches ps cs)"
| "matches (Sign # ps) (c # cs) = (is_sign c \<and> matches ps cs)"
| "matches (L x # ps) (c # cs) = (c = x \<and> matches ps cs)"
| "matches _ _ = False"

definition base_time_pat :: "pat list" where
  "base_time_pat = [D, D, D, D, L CHR ''-'', D, D, L CHR ''-'', D, D, L CHR ''T'',
                    D, D, L CHR '':'', D, D, L CHR '':'', D, D]"

definition re_match :: "string \<Rightarrow> (string \<times> string \<times> string option) option" where
  "re_match s =
     (let base_time = take 19 s; rest = drop 19 s; microseconds = take 6 (drop 1 rest) in
      if matches base_time_pat base_time \<and> take 1 rest = ''.'' \<and> matches [D, D, D, D, D, D] microseconds
      then (let tail = dropWhile is_digit (drop 7 rest);
                group3 = (if matches [Sign, D, D, L CHR '':'', D, D] (take 6 tail)
                          then Some (take 6 tail)
                          else if take 1 tail = ''Z'' then Some ''Z'' else None)
            in Some (base_time, microseconds, group3))
      else None)"

subsection \<open>The two versions of \<^verbatim>\<open>parse_emby_datetime\<close>\<close>

definition endswith_Z :: "string \<Rightarrow> bool" where
  "endswith_Z s = (s \<noteq> [] \<and> last s = CHR ''Z'')"

definition replace_Z :: "string \<Rightarrow> string" where
  \<comment> \<open>\<^verbatim>\<open>s.replace('Z', '+00:00')\<close>\<close>
  "replace_Z s = concat (map (\<lambda>c. if c = CHR ''Z'' then ''+00:00'' else [c]) s)"

text \<open>Lines 136 to 147 of \<^verbatim>\<open>emby_livetv_ultimate.py\<close>: the body of the inner
  \<^verbatim>\<open>try\<close>, whose \<^verbatim>\<open>except Exception\<close> turns every exception into \<^verbatim>\<open>None\<close>.\<close>

definition truncate_and_parse :: "(string \<Rightarrow> pyexn + datetime) \<Rightarrow> string \<Rightarrow> (datetime option) option" where
  "truncate_and_parse fromiso date_string =
     (case re_match date_string of
        None \<Rightarrow> None
      | Some (base_time, microseconds, group3) \<Rightarrow>
          (let timezone = (case group3 of None \<Rightarrow> [] | Some z \<Rightarrow> z);
               timezone = (if timezone = ''Z'' then ''+00:00'' else timezone)
           in case fromiso (base_time @ ''.'' @ microseconds @ timezone) of
                Inr d \<Rightarrow> Some (Some d)
              | Inl e \<Rightarrow> Some None))"

text \<open>\<^verbatim>\<open>parse_emby_datetime\<close> of \<^verbatim>\<open>emby_livetv_ultimate.py\<close> and
  \<^verbatim>\<open>emby_livetv_exporter.py\<close>. The outer \<^verbatim>\<open>try\<close> catches \<^verbatim>\<open>ValueError\<close> only;
  \<open>Inl\<close> is an exception that leaves the function.\<close>

definition parse_emby_datetime :: "(string \<Rightarrow> pyexn + datetime) \<Rightarrow> string \<Rightarrow> pyexn + datetime option" where
  "parse_emby_datetime fromiso date_string =
     (if date_string = [] then Inr None
      else (case (if endswith_Z date_string then fromiso (replace_Z date_string) else fromiso date_string) of
              Inr d \<Rightarrow> Inr (Some d)
            | Inl ValueError \<Rightarrow>
                (case truncate_and_parse fromiso date_string of
                   Some r \<Rightarrow> Inr r
                 | None \<Rightarrow> Inr None)
            | Inl e \<Rightarrow> Inl e))"

text \<open>Lines 100 to 109 of \<^verbatim>\<open>emby_exporter_fixed.py\<close>, "Fallback: remove microseconds
  entirely", inside the same inner \<^verbatim>\<open>try\<close>.\<close>

definition drop_fraction_and_parse :: "(string \<Rightarrow> pyexn + datetime) \<Rightarrow> string \<Rightarrow> datetime option" where
  "drop_fraction_and_parse fromiso date_string =
     (if CHR ''.'' \<in> set date_string then
        (let date_part = (case split_on CHR ''.'' date_string of [] \<Rightarrow> [] | x # _ \<Rightarrow> x);
             tz_part = (if CHR ''+'' \<in> set date_string
                        then CHR ''+'' # (case split_on CHR ''+'' date_string of _ # x # _ \<Rightarrow> x | _ \<Rightarrow> [])
                        else if CHR ''Z'' \<in> set date_string then ''+00:00'' else [])
         in case fromiso (date_part @ tz_part) of Inr d \<Rightarrow> Some d | Inl e \<Rightarrow> None)
      else None)"

text \<open>\<^verbatim>\<open>parse_emby_datetime\<close> of \<^verbatim>\<open>emby_exporter_fixed.py\<close>.\<close>

definition parse_emby_datetime_fixed :: "(string \<Rightarrow> pyexn + datetime) \<Rightarrow> string \<Rightarrow> pyexn + datetime option" where
  "parse_emby_datetime_fixed fromiso date_string =
     (if date_string = [] then Inr None
      else (case (if endswith_Z date_string then fromiso (replace_Z date_string) else fromiso date_string) of
              Inr d \<Rightarrow> Inr (Some d)
            | Inl ValueError \<Rightarrow>
                (case truncate_and_parse fromiso date_string of
                   Some r \<Rightarrow> Inr r
                 | None \<Rightarrow> Inr (drop_fraction_and_parse fromiso date_string))
            | Inl e \<Rightarrow> Inl e))"

section \<open>Notions used in the statements\<close>

text \<open>What \<^verbatim>\<open>_make_request\<close> of \<^verbatim>\<open>emby_livetv_ultimate.py\<close> returns for an
  outcome of the HTTP call (lemma \<open>fst_make_request\<close>).\<close>

definition returned :: "'a http_outcome \<Rightarrow> 'a option" where
  "returned outcome =
     (case outcome of
        Request_exception \<Rightarrow> None
      | Response status body \<Rightarrow> if status = 404 \<or> raise_for_status status then None else Some body)"

text \<open>The lookahead query of day \<open>d\<close> makes the probe stop: the request failed, or it
  reports no programs.\<close>

definition day_reports_none :: "ultimate_env \<Rightarrow> nat \<Rightarrow> bool" where
  "day_reports_none env d = probe_stops (returned (env_programs_day env d))"

text \<open>An environment in which every request fails and the clock stands at 0; the
  examples below change it where they need a response.\<close>

definition server_down :: ultimate_env where
  "server_down = \<lparr>
     env_system_info = Request_exception, env_channels = Request_exception,
     env_sessions = Request_exception, env_tuners = Request_exception,
     env_recordings_active = Request_exception, env_timers = Request_exception,
     env_recordings_all = Request_exception, env_programs_today = Request_exception,
     env_programs_upcoming = Request_exception, env_programs_day = (\<lambda>_. Request_exception),
     env_time = (\<lambda>_. 0) \<rparr>"

definition count_of :: "int \<Rightarrow> 'a paged" where
  \<comment> \<open>the JSON object \<^verbatim>\<open>{"Items": [], "TotalRecordCount": n}\<close>\<close>
  "count_of n = \<lparr>Items = Some [], TotalRecordCount = Some n, other_keys = False\<rparr>"

definition free_tuner :: tuner where
  "free_tuner = \<lparr>tuner_Id = Some ''t1'', tuner_Name = Some ''Tuner 1'', tuner_Type = Some ''hdhomerun'',
                  tuner_ChannelId = None, tuner_Status = Some ''Idle'', tuner_ChannelName = None\<rparr>"

definition busy_tuner :: tuner where
  "busy_tuner = \<lparr>tuner_Id = Some ''t2'', tuner_Name = Some ''Tuner 2'', tuner_Type = Some ''hdhomerun'',
                  tuner_ChannelId = Some ''c7'', tuner_Status = Some ''LiveTv'', tuner_ChannelName = Some ''News24''\<rparr>"

text \<open>Guide data for three days: the lookahead queries of days 1 to 3 report five
  programs each, every later one reports none.\<close>

definition three_days_of_guide :: ultimate_env where
  "three_days_of_guide =
     server_down\<lparr>env_programs_day := (\<lambda>d. Response 200 (count_of (if d \<le> 3 then 5 else 0)))\<rparr>"

text \<open>Guide data for every day asked about.\<close>

definition full_guide :: ultimate_env where
  "full_guide = server_down\<lparr>env_programs_day := (\<lambda>d. Response 200 (count_of 5))\<rparr>"

text \<open>The other exporters after \<^verbatim>\<open>__init__\<close>, with every metric as the library
  creates it.\<close>

definition new_fixed :: fixed where
  "new_fixed = \<lparr>api_request_duration = (\<lambda>_. 0), api_request_errors = (\<lambda>_. 0),
                 active_sessions = 0, active_streams = 0, active_transcodes = 0,
                 session_bandwidth = Map.empty, total_bandwidth = 0\<rparr>"

definition new_debug :: debug where
  "new_debug = \<lparr>dbg_api_request_duration = (\<lambda>_. 0), dbg_api_request_errors = (\<lambda>_. 0),
                 debug_api_calls = (\<lambda>_. 0), debug_sessions_found = 0, debug_streams_found = 0,
                 dbg_active_sessions = 0, dbg_active_streams = 0, dbg_active_transcodes = 0,
                 dbg_session_bandwidth = Map.empty, dbg_total_bandwidth = 0\<rparr>"

definition new_livetv :: livetv where
  "new_livetv = \<lparr>ltv_api_request_duration = (\<lambda>_. 0), ltv_api_request_errors = (\<lambda>_. 0)\<rparr>"

text \<open>A session of user alice, who watches the live channel News24 through a transcode
  at 5 Mbit/s.\<close>

definition news_session :: session where
  "news_session = \<lparr>
     sess_Id = Some ''s1'', sess_UserName = Some ''alice'', sess_Client = Some ''Emby Web'',
     NowPlayingItem = Some \<lparr>np_Type = Some ''TvChannel'', np_Name = Some ''News24'',
                            np_ChannelNumber = Some ''24'', np_MediaType = Some ''Video''\<rparr>,
     PlayState = Some \<lparr>ps_PlayMethod = Some ''Transcode'', ps_IsPaused = Some False\<rparr>,
     TranscodingInfo = Some \<lparr>ti_Bitrate = Some 5000000, ti_Height = Some 1080\<rparr>,
     Bandwidth = Some 5000000 \<rparr>"

text \<open>The exporters after a cycle in which \<^verbatim>\<open>/Sessions\<close> returned that one session.\<close>

definition after_one_viewer :: ultimate where
  "after_one_viewer =
     snd (collect_sessions (server_down\<lparr>env_sessions := Response 200 [news_session]\<rparr>) new_exporter)"

definition fixed_after_one_viewer :: fixed where
  "fixed_after_one_viewer = collect_sessions_fixed (Response 200 [news_session]) new_fixed"

definition debug_after_one_viewer :: debug where
  "debug_after_one_viewer = collect_sessions_debug (Response 200 [news_session]) new_debug"

text \<open>A server that answers every request of a cycle: one viewer, two tuners, two
  timers, one recording of 1 GiB, and guide data for three days.\<close>

definition healthy :: ultimate_env where
  "healthy = \<lparr>
     env_system_info = Response 200 \<lparr>si_Version = Some ''4.8'', si_ServerName = Some ''emby'',
                                     si_HasLiveTv = Some True, si_other_keys = True\<rparr>,
     env_channels = Response 200 (count_of 0),
     env_sessions = Response 200 [news_session],
     env_tuners = Response 200 (Tuners_list [free_tuner, busy_tuner]),
     env_recordings_active = Response 200 (count_of 0),
     env_timers = Response 200 (count_of 2),
     env_recordings_all = Response 200 \<lparr>Items = Some [\<lparr>rec_Size = Some 1073741824\<rparr>],
                                        TotalRecordCount = Some 1, other_keys = False\<rparr>,
     env_programs_today = Response 200 (count_of 40),
     env_programs_upcoming = Response 200 (count_of 3),
     env_programs_day = (\<lambda>d. Response 200 (count_of (if d \<le> 3 then 5 else 0))),
     env_time = (\<lambda>_. 0) \<rparr>"

text \<open>The same server, except that the request for the recordings in progress fails.\<close>

definition recordings_in_progress_down :: ultimate_env where
  "recordings_in_progress_down = healthy\<lparr>env_recordings_active := Request_exception\<rparr>"

text \<open>A streaming session without the key \<^verbatim>\<open>Bandwidth\<close>, transcoded at 3 Mbit/s; a
  streaming session without \<^verbatim>\<open>PlayState\<close>; a streaming session with no bandwidth
  information at all; a session that plays nothing.\<close>

definition transcode_only_session :: session where
  "transcode_only_session = \<lparr>
     sess_Id = Some ''s2'', sess_UserName = Some ''bob'', sess_Client = Some ''Emby Theater'',
     NowPlayingItem = Some \<lparr>np_Type = Some ''Movie'', np_Name = Some ''Metropolis'',
                            np_ChannelNumber = None, np_MediaType = Some ''Video''\<rparr>,
     PlayState = Some \<lparr>ps_PlayMethod = Some ''Transcode'', ps_IsPaused = Some False\<rparr>,
     TranscodingInfo = Some \<lparr>ti_Bitrate = Some 3000000, ti_Height = Some 720\<rparr>,
     Bandwidth = None \<rparr>"

definition stateless_session :: session where
  "stateless_session = \<lparr>
     sess_Id = Some ''s3'', sess_UserName = Some ''carol'', sess_Client = Some ''Emby Web'',
     NowPlayingItem = Some \<lparr>np_Type = Some ''Episode'', np_Name = Some ''Pilot'',
                            np_ChannelNumber = None, np_MediaType = Some ''Video''\<rparr>,
     PlayState = None, TranscodingInfo = None, Bandwidth = Some 2000000 \<rparr>"

definition silent_session :: session where
  "silent_session = \<lparr>
     sess_Id = None, sess_UserName = Some ''dave'', sess_Client = Some ''Emby Web'',
     NowPlayingItem = Some \<lparr>np_Type = Some ''Audio'', np_Name = Some ''Song'',
                            np_ChannelNumber = None, np_MediaType = Some ''Audio''\<rparr>,
     PlayState = Some \<lparr>ps_PlayMethod = Some ''DirectPlay'', ps_IsPaused = Some False\<rparr>,
     TranscodingInfo = None, Bandwidth = None \<rparr>"

definition idle_session :: session where
  "idle_session = \<lparr>
     sess_Id = Some ''s5'', sess_UserName = Some ''erin'', sess_Client = Some ''Emby Web'',
     NowPlayingItem = None, PlayState = None, TranscodingInfo = None, Bandwidth = None \<rparr>"

text \<open>What \<^verbatim>\<open>collect_sessions\<close> of \<^verbatim>\<open>emby_livetv_ultimate.py\<close> reads off a session
  (lines 294 to 302): whether it is a Live TV session, its id, its user and the name of
  its channel.\<close>

definition is_livetv :: "session \<Rightarrow> bool" where
  "is_livetv s = (case NowPlayingItem s of None \<Rightarrow> False | Some np \<Rightarrow> np_Type np = Some ''TvChannel'')"

definition id_of :: "session \<Rightarrow> string" where
  "id_of s = get_str (sess_Id s) ''unknown''"

definition user_of :: "session \<Rightarrow> string" where
  "user_of s = get_str (sess_UserName s) ''unknown''"

definition channel_of :: "session \<Rightarrow> string" where
  "channel_of s = (case NowPlayingItem s of None \<Rightarrow> ''Unknown Channel''
                   | Some np \<Rightarrow> get_str (np_Name np) ''Unknown Channel'')"

text \<open>A Live TV session with the given id, user and channel, played directly.\<close>

definition watching :: "string \<Rightarrow> string \<Rightarrow> string \<Rightarrow> session" where
  "watching sid user channel_name = \<lparr>
     sess_Id = Some sid, sess_UserName = Some user, sess_Client = Some ''Emby Web'',
     NowPlayingItem = Some \<lparr>np_Type = Some ''TvChannel'', np_Name = Some channel_name,
                            np_ChannelNumber = Some ''1'', np_MediaType = Some ''Video''\<rparr>,
     PlayState = Some \<lparr>ps_PlayMethod = Some ''DirectStream'', ps_IsPaused = Some False\<rparr>,
     TranscodingInfo = None, Bandwidth = None \<rparr>"

text \<open>A cycle in which \<^verbatim>\<open>/Sessions\<close> returns the given sessions, with a clock that
  starts at 1000 and advances 10 seconds from one reading to the next.\<close>

definition sessions_are :: "session list \<Rightarrow> ultimate_env" where
  "sessions_are ss =
     server_down\<lparr>env_sessions := Response 200 ss, env_time := (\<lambda>n. 1000 + 10 * of_nat n)\<rparr>"

text \<open>The sessions \<^verbatim>\<open>/Sessions\<close> returns in a cycle; none when the request fails.\<close>

definition sessions_returned :: "ultimate_env \<Rightarrow> session list" where
  "sessions_returned env = (case returned (env_sessions env) of None \<Rightarrow> [] | Some ss \<Rightarrow> ss)"

text \<open>Cycles of \<^verbatim>\<open>collect_sessions\<close> one after the other, the first environment first.
  An exception of a cycle is caught by \<^verbatim>\<open>collect_all_metrics\<close>, and the next cycle starts from
  the tracking state the cycle left.\<close>

fun session_cycles :: "ultimate_env list \<Rightarrow> ultimate \<Rightarrow> ultimate" where
  "session_cycles [] st = st"
| "session_cycles (env # envs) st = session_cycles envs (snd (collect_sessions env st))"



text \<open>The locals of \<^verbatim>\<open>collect_sessions\<close> at the start of its loop.\<close>

definition fresh_locals :: sessions_locals where
  "fresh_locals = \<lparr>livetv_stream_count = 0, users_watching_set = [], channel_viewers = [],
                    total_bandwidth_mbps = 0, transcoding_count = 0\<rparr>"

text \<open>The offset a suffix of a timestamp denotes, in microseconds: \<^verbatim>\<open>Z\<close>, or a sign
  with hours and minutes that stay below 24 hours.\<close>

definition utc_offset_of :: "string \<Rightarrow> int option" where
  "utc_offset_of off =
     (if off = ''Z'' then Some 0
      else if matches [Sign, D, D, L CHR '':'', D, D] off then
        (let td = (int (digits_val (take 2 (drop 1 off))) * 3600 + int (digits_val (drop 4 off)) * 60) * 1000000
         in if td < 24 * 3600 * 1000000
            then Some (if take 1 off = ''-'' then - td else td) else None)
      else None)"

section \<open>What \<^verbatim>\<open>_make_request\<close> returns and changes\<close>

lemma fst_make_request: "fst (make_request e outcome st) = returned outcome"
  by (simp add: make_request_def returned_def Let_def split: http_outcome.splits)

lemma requests_make_request: "requests (snd (make_request e outcome st)) = requests st @ [e]"
  by (simp add: make_request_def Let_def split: http_outcome.splits)

section \<open>Tuners\<close>

lemma foldl_tuner_step_counts:
  "fst (foldl tuner_step (i, a, st) ts) = i + int (length (filter (\<lambda>t. is_in_use t \<noteq> 0) ts))
   \<and> fst (snd (foldl tuner_step (i, a, st) ts)) = a + int (length (filter (\<lambda>t. is_in_use t = 0) ts))"
  by (induction ts arbitrary: i a st) (simp_all add: tuner_step_def Let_def)

text \<open>
  Claim C9. When \<^verbatim>\<open>/LiveTv/Tuners\<close> returns a non-empty list, \<^verbatim>\<open>collect_tuners\<close>
  counts every tuner once, as in use or as available: the gauge of the tuners in use is
  the number of tuners with \<open>is_in_use = 1\<close>, the gauge of the available ones the number
  of the others, the two add up to the total, which is the length of the list, and the
  utilization is in use / total * 100.
\<close>

theorem tuners_partition:
  assumes "returned (env_tuners env) = Some (Tuners_list ts)" and "ts \<noteq> []"
  shows "tuners_total (collect_tuners env st) = int (length ts)
       \<and> tuners_in_use (collect_tuners env st) = int (length (filter (\<lambda>t. is_in_use t \<noteq> 0) ts))
       \<and> tuners_available (collect_tuners env st) = int (length (filter (\<lambda>t. is_in_use t = 0) ts))
       \<and> tuners_in_use (collect_tuners env st) + tuners_available (collect_tuners env st)
           = tuners_total (collect_tuners env st)
       \<and> tuner_utilization (collect_tuners env st)
           = (of_int (tuners_in_use (collect_tuners env st)) / of_int (tuners_total (collect_tuners env st))) * 100"
proof -
  obtain t ts' where ts: "ts = t # ts'" using assms(2) by (cases ts) auto
  obtain r st1 where mr: "make_request ''/LiveTv/Tuners'' (env_tuners env) st = (r, st1)"
    by (cases "make_request ''/LiveTv/Tuners'' (env_tuners env) st")
  have r: "r = Some (Tuners_list (t # ts'))"
    using fst_make_request[of "''/LiveTv/Tuners''" "env_tuners env" st] mr assms(1) ts by simp
  obtain i a st2 where fl: "foldl tuner_step (0, 0, st1) (t # ts') = (i, a, st2)"
    by (cases "foldl tuner_step (0, 0, st1) (t # ts')") auto
  have i: "i = int (length (filter (\<lambda>t. is_in_use t \<noteq> 0) ts))"
    and a: "a = int (length (filter (\<lambda>t. is_in_use t = 0) ts))"
    using foldl_tuner_step_counts[of 0 0 st1 "t # ts'"] fl ts by simp_all
  have part: "i + a = int (length ts)"
    unfolding i a using sum_length_filter_compl[of "\<lambda>t. is_in_use t \<noteq> 0" ts] by simp
  have res: "collect_tuners env st = st2\<lparr>tuners_total := int (length ts), tuners_available := a,
      tuners_in_use := i, tuner_utilization := (of_int i / of_int (int (length ts))) * 100\<rparr>"
    using mr r fl ts by (simp add: collect_tuners_def Let_def)
  show ?thesis unfolding res using i a part by simp
qed

theorem tuners_partition_witness:
  "returned (env_tuners (server_down\<lparr>env_tuners := Response 200 (Tuners_list [free_tuner, busy_tuner])\<rparr>))
     = Some (Tuners_list [free_tuner, busy_tuner])
   \<and> [free_tuner, busy_tuner] \<noteq> []
   \<and> tuners_total (collect_tuners (server_down\<lparr>env_tuners := Response 200 (Tuners_list [free_tuner, busy_tuner])\<rparr>) new_exporter) = 2
   \<and> tuners_in_use (collect_tuners (server_down\<lparr>env_tuners := Response 200 (Tuners_list [free_tuner, busy_tuner])\<rparr>) new_exporter) = 1
   \<and> tuners_available (collect_tuners (server_down\<lparr>env_tuners := Response 200 (Tuners_list [free_tuner, busy_tuner])\<rparr>) new_exporter) = 1
   \<and> tuner_utilization (collect_tuners (server_down\<lparr>env_tuners := Response 200 (Tuners_list [free_tuner, busy_tuner])\<rparr>) new_exporter) = 50"
proof -
  have h: "returned (env_tuners (server_down\<lparr>env_tuners := Response 200 (Tuners_list [free_tuner, busy_tuner])\<rparr>))
     = Some (Tuners_list [free_tuner, busy_tuner])"
    by (simp add: returned_def raise_for_status_def)
  show ?thesis
    using h tuners_partition[OF h, of new_exporter]
    by (simp add: is_in_use_def free_tuner_def busy_tuner_def str_truthy_def)
qed

section \<open>The EPG days-available probe\<close>

declare epg_days_loop.simps [simp del]

lemma epg_days_loop_unfold:
  "days \<le> max_days \<Longrightarrow>
   epg_days_loop env days st =
     (if day_reports_none env days
      then (snd (make_request ''/LiveTv/Programs'' (env_programs_day env days) st))\<lparr>epg_days_available := int days - 1\<rparr>
      else epg_days_loop env (Suc days) (snd (make_request ''/LiveTv/Programs'' (env_programs_day env days) st)))"
  using fst_make_request[of "''/LiveTv/Programs''" "env_programs_day env days" st]
  by (subst epg_days_loop.simps) (auto simp: day_reports_none_def split: prod.splits)

text \<open>The loop entered at day \<open>days\<close>, when \<open>k\<close> is the first day from there on that
  reports no programs.\<close>

lemma epg_days_loop_stop:
  "days \<le> k \<Longrightarrow> k \<le> max_days \<Longrightarrow> (\<forall>d. days \<le> d \<and> d < k \<longrightarrow> \<not> day_reports_none env d) \<Longrightarrow>
   day_reports_none env k \<Longrightarrow>
   epg_days_available (epg_days_loop env days st) = int k - 1 \<and>
   requests (epg_days_loop env days st) = requests st @ replicate (Suc k - days) ''/LiveTv/Programs''"
proof (induction "k - days" arbitrary: days st)
  case 0
  then have "days = k" by simp
  with 0 show ?case by (simp add: epg_days_loop_unfold requests_make_request)
next
  case (Suc n)
  then have lt: "days < k" and le: "days \<le> max_days" by simp_all
  from Suc.prems lt have nostop: "\<not> day_reports_none env days" by simp
  have n: "n = k - Suc days" using Suc.hyps(2) by simp
  have ih: "epg_days_available (epg_days_loop env (Suc days) st') = int k - 1 \<and>
     requests (epg_days_loop env (Suc days) st') = requests st' @ replicate (Suc k - Suc days) ''/LiveTv/Programs''" for st'
    using Suc.hyps(1)[OF n, of st'] Suc.prems lt by simp
  have rep: "Suc k - days = Suc (k - days)" using lt by simp
  show ?case
    using nostop le ih lt
    by (simp add: epg_days_loop_unfold requests_make_request rep replicate_append_same)
qed

text \<open>The loop entered at day \<open>days\<close>, when every day up to the last reports programs.\<close>

lemma epg_days_loop_all:
  "days \<le> Suc max_days \<Longrightarrow> (\<forall>d. days \<le> d \<and> d \<le> max_days \<longrightarrow> \<not> day_reports_none env d) \<Longrightarrow>
   epg_days_available (epg_days_loop env days st) = int max_days \<and>
   requests (epg_days_loop env days st) = requests st @ replicate (Suc max_days - days) ''/LiveTv/Programs''"
proof (induction "Suc max_days - days" arbitrary: days st)
  case 0
  then have "max_days < days" by simp
  then show ?case by (subst (1 2) epg_days_loop.simps) simp
next
  case (Suc n)
  then have le: "days \<le> max_days" by simp
  from Suc.prems le have nostop: "\<not> day_reports_none env days" by simp
  have n: "n = Suc max_days - Suc days" using Suc.hyps(2) by simp
  have ih: "epg_days_available (epg_days_loop env (Suc days) st') = int max_days \<and>
     requests (epg_days_loop env (Suc days) st') = requests st' @ replicate (Suc max_days - Suc days) ''/LiveTv/Programs''" for st'
    using Suc.hyps(1)[OF n, of st'] Suc.prems le by simp
  have rep: "Suc max_days - days = Suc (max_days - days)" using le by simp
  show ?case
    using nostop le ih
    by (simp add: epg_days_loop_unfold requests_make_request rep replicate_append_same)
qed

lemma epg_days_loop_bound:
  "length (requests (epg_days_loop env days st)) \<le> length (requests st) + (Suc max_days - days)"
proof (induction "Suc max_days - days" arbitrary: days st)
  case 0
  then have "max_days < days" by simp
  then show ?case by (subst epg_days_loop.simps) simp
next
  case (Suc n)
  then have le: "days \<le> max_days" by simp
  have n: "n = Suc max_days - Suc days" using Suc.hyps(2) by simp
  have ih: "length (requests (epg_days_loop env (Suc days) st')) \<le> length (requests st') + (Suc max_days - Suc days)" for st'
    using Suc.hyps(1)[OF n, of st'] .
  show ?case
    using le ih[of "snd (make_request ''/LiveTv/Programs'' (env_programs_day env days) st)"]
    by (auto simp: epg_days_loop_unfold requests_make_request)
qed

text \<open>
  Claim C8. The probe is the loop entered at day 1. It issues at most 14 requests. If
  \<open>k\<close> is the first of the days 1 to 14 whose query reports no programs, it issues
  exactly \<open>k\<close> requests, all to \<^verbatim>\<open>/LiveTv/Programs\<close>, and sets the gauge to \<open>k - 1\<close>, the
  number of days before \<open>k\<close>. If all 14 days report programs, it issues 14 requests and
  sets the gauge to 14.
\<close>

theorem epg_days_probe:
  "length (requests (epg_days_loop env 1 st)) \<le> length (requests st) + 14
   \<and> (1 \<le> k \<and> k \<le> 14 \<and> (\<forall>d. 1 \<le> d \<and> d < k \<longrightarrow> \<not> day_reports_none env d) \<and> day_reports_none env k \<longrightarrow>
         epg_days_available (epg_days_loop env 1 st) = int k - 1
         \<and> requests (epg_days_loop env 1 st) = requests st @ replicate k ''/LiveTv/Programs'')
   \<and> ((\<forall>d. 1 \<le> d \<and> d \<le> 14 \<longrightarrow> \<not> day_reports_none env d) \<longrightarrow>
         epg_days_available (epg_days_loop env 1 st) = 14
         \<and> requests (epg_days_loop env 1 st) = requests st @ replicate 14 ''/LiveTv/Programs'')"
proof (intro conjI impI)
  show "length (requests (epg_days_loop env 1 st)) \<le> length (requests st) + 14"
    using epg_days_loop_bound[of env 1 st] by (simp add: max_days_def)
next
  assume h: "1 \<le> k \<and> k \<le> 14 \<and> (\<forall>d. 1 \<le> d \<and> d < k \<longrightarrow> \<not> day_reports_none env d) \<and> day_reports_none env k"
  then have "epg_days_available (epg_days_loop env 1 st) = int k - 1 \<and>
     requests (epg_days_loop env 1 st) = requests st @ replicate (Suc k - 1) ''/LiveTv/Programs''"
    by (intro epg_days_loop_stop) (simp_all add: max_days_def)
  then show "epg_days_available (epg_days_loop env 1 st) = int k - 1"
    and "requests (epg_days_loop env 1 st) = requests st @ replicate k ''/LiveTv/Programs''" by simp_all
next
  assume h: "\<forall>d. 1 \<le> d \<and> d \<le> 14 \<longrightarrow> \<not> day_reports_none env d"
  then have "epg_days_available (epg_days_loop env 1 st) = int max_days \<and>
     requests (epg_days_loop env 1 st) = requests st @ replicate (Suc max_days - 1) ''/LiveTv/Programs''"
    by (intro epg_days_loop_all) (simp_all add: max_days_def)
  then show "epg_days_available (epg_days_loop env 1 st) = 14"
    and "requests (epg_days_loop env 1 st) = requests st @ replicate 14 ''/LiveTv/Programs''"
    by (simp_all add: max_days_def)
qed

text \<open>Days 1 to 3 have programs and day 4 has none: four requests, and the gauge is 3.
  With programs on every day: fourteen requests, and the gauge is 14.\<close>

theorem epg_days_probe_witness:
  "(1::nat) \<le> 4 \<and> (4::nat) \<le> 14
   \<and> \<not> day_reports_none three_days_of_guide 1
   \<and> \<not> day_reports_none three_days_of_guide 2
   \<and> \<not> day_reports_none three_days_of_guide 3
   \<and> day_reports_none three_days_of_guide 4
   \<and> epg_days_available (epg_days_loop three_days_of_guide 1 new_exporter) = 3
   \<and> length (requests (epg_days_loop three_days_of_guide 1 new_exporter)) = 4
   \<and> \<not> day_reports_none full_guide 1 \<and> \<not> day_reports_none full_guide 14
   \<and> epg_days_available (epg_days_loop full_guide 1 new_exporter) = 14
   \<and> length (requests (epg_days_loop full_guide 1 new_exporter)) = 14"
proof -
  have days: "\<forall>d. 1 \<le> d \<and> d < 4 \<longrightarrow> \<not> day_reports_none three_days_of_guide d"
    by (simp add: day_reports_none_def three_days_of_guide_def probe_stops_def returned_def
        raise_for_status_def count_of_def dict_truthy_def get_TotalRecordCount_def)
  have day4: "day_reports_none three_days_of_guide 4"
    by (simp add: day_reports_none_def three_days_of_guide_def probe_stops_def returned_def
        raise_for_status_def count_of_def dict_truthy_def get_TotalRecordCount_def)
  have full: "\<forall>d. 1 \<le> d \<and> d \<le> 14 \<longrightarrow> \<not> day_reports_none full_guide d"
    by (simp add: day_reports_none_def full_guide_def probe_stops_def returned_def
        raise_for_status_def count_of_def dict_truthy_def get_TotalRecordCount_def)
  have three: "epg_days_available (epg_days_loop three_days_of_guide 1 new_exporter) = int 4 - 1
      \<and> requests (epg_days_loop three_days_of_guide 1 new_exporter)
          = requests new_exporter @ replicate 4 ''/LiveTv/Programs''"
    using epg_days_probe[of three_days_of_guide new_exporter 4] days day4 by simp
  have fourteen: "epg_days_available (epg_days_loop full_guide 1 new_exporter) = 14
      \<and> requests (epg_days_loop full_guide 1 new_exporter)
          = requests new_exporter @ replicate 14 ''/LiveTv/Programs''"
    using epg_days_probe[of full_guide new_exporter 1] full by simp
  show ?thesis
    using days day4 full three fourteen by (simp add: new_exporter_def)
qed

section \<open>HTTP 404\<close>

text \<open>
  Claim C3, as the code has it. In the two Live TV exporters a 404 makes
  \<^verbatim>\<open>_make_request\<close> return \<^verbatim>\<open>None\<close> and leaves every error counter as it was. In
  \<^verbatim>\<open>emby_exporter_fixed.py\<close> and \<^verbatim>\<open>emby_exporter_debug.py\<close> a 404 makes it return
  \<^verbatim>\<open>None\<close> as well, but through the \<^verbatim>\<open>except\<close> clause: the error counter of the
  endpoint goes up by one.
\<close>

theorem not_found_by_exporter:
  "fst (make_request e (Response 404 body) st) = None
   \<and> stream_errors (snd (make_request e (Response 404 body) st)) = stream_errors st
   \<and> fst (make_request_livetv e (Response 404 body) lt) = None
   \<and> ltv_api_request_errors (snd (make_request_livetv e (Response 404 body) lt)) = ltv_api_request_errors lt
   \<and> fst (make_request_fixed e (Response 404 body) fx) = None
   \<and> api_request_errors (snd (make_request_fixed e (Response 404 body) fx))
       = (api_request_errors fx)(e := api_request_errors fx e + 1)
   \<and> fst (make_request_debug e (Response 404 body) db) = None
   \<and> dbg_api_request_errors (snd (make_request_debug e (Response 404 body) db))
       = (dbg_api_request_errors db)(e := dbg_api_request_errors db e + 1)"
  by (simp add: make_request_def make_request_livetv_def make_request_fixed_def
      make_request_debug_def raise_for_status_def Let_def)

text \<open>The client of \<^verbatim>\<open>emby_exporter_fixed.py\<close> counts a 404 on \<^verbatim>\<open>/Sessions\<close> as an
  error of that endpoint.\<close>

theorem not_found_counted_as_error:
  "api_request_errors new_fixed ''/Sessions'' = 0
   \<and> api_request_errors (snd (make_request_fixed ''/Sessions'' (Response 404 ([] :: session list)) new_fixed)) ''/Sessions'' = 1"
  by (simp add: make_request_fixed_def raise_for_status_def new_fixed_def)

section \<open>A cycle without sessions\<close>

lemma after_one_viewer_gauges:
  "streams_active after_one_viewer = 1 \<and> transcoding_active after_one_viewer = 1
   \<and> stream_bandwidth_total after_one_viewer = 5"
  by (simp add: after_one_viewer_def collect_sessions_def make_request_def raise_for_status_def
      server_down_def news_session_def session_step_def track_channel_switch_def
      track_watch_time_def track_bitrate_def time_time_def get_str_def bump_def new_exporter_def
      set_session_gauges_def Let_def)

lemma fixed_after_one_viewer_gauges:
  "active_streams fixed_after_one_viewer = 1 \<and> active_transcodes fixed_after_one_viewer = 1
   \<and> total_bandwidth fixed_after_one_viewer = 5000000"
  by (simp add: fixed_after_one_viewer_def collect_sessions_fixed_def make_request_fixed_def
      raise_for_status_def news_session_def session_step_fixed_def get_str_def new_fixed_def Let_def)

lemma debug_after_one_viewer_gauges:
  "dbg_active_streams debug_after_one_viewer = 1 \<and> dbg_active_transcodes debug_after_one_viewer = 1
   \<and> dbg_total_bandwidth debug_after_one_viewer = 5000000"
  by (simp add: debug_after_one_viewer_def collect_sessions_debug_def make_request_debug_def
      raise_for_status_def news_session_def session_step_debug_def session_bandwidth_debug_def
      session_labels_debug_def get_str_def new_debug_def Let_def)

text \<open>\<^verbatim>\<open>if not sessions: return\<close> leaves on an empty list as it does on \<^verbatim>\<open>None\<close>:
  no gauge is written.\<close>

lemma collect_sessions_empty:
  "returned (env_sessions env) = Some [] \<Longrightarrow>
   snd (collect_sessions env st) = snd (make_request ''/Sessions'' (env_sessions env) st)"
  using fst_make_request[of "''/Sessions''" "env_sessions env" st]
  by (cases "make_request ''/Sessions'' (env_sessions env) st") (simp add: collect_sessions_def)

text \<open>
  Claim C4, at the failing input. After the cycle with one viewer, \<^verbatim>\<open>/Sessions\<close> returns
  the empty list. \<^verbatim>\<open>emby_livetv_ultimate.py\<close> and \<^verbatim>\<open>emby_exporter_fixed.py\<close> leave the
  session gauges at the values of the cycle before; \<^verbatim>\<open>emby_exporter_debug.py\<close>, which
  tests \<^verbatim>\<open>sessions is None\<close>, sets them to 0.
\<close>

theorem empty_sessions_keep_gauges:
  "streams_active (snd (collect_sessions (server_down\<lparr>env_sessions := Response 200 []\<rparr>) after_one_viewer)) = 1
   \<and> transcoding_active (snd (collect_sessions (server_down\<lparr>env_sessions := Response 200 []\<rparr>) after_one_viewer)) = 1
   \<and> stream_bandwidth_total (snd (collect_sessions (server_down\<lparr>env_sessions := Response 200 []\<rparr>) after_one_viewer)) = 5
   \<and> active_streams (collect_sessions_fixed (Response 200 []) fixed_after_one_viewer) = 1
   \<and> active_transcodes (collect_sessions_fixed (Response 200 []) fixed_after_one_viewer) = 1
   \<and> total_bandwidth (collect_sessions_fixed (Response 200 []) fixed_after_one_viewer) = 5000000
   \<and> dbg_active_streams (collect_sessions_debug (Response 200 []) debug_after_one_viewer) = 0
   \<and> dbg_active_transcodes (collect_sessions_debug (Response 200 []) debug_after_one_viewer) = 0
   \<and> dbg_total_bandwidth (collect_sessions_debug (Response 200 []) debug_after_one_viewer) = 0"
proof -
  have u: "snd (collect_sessions (server_down\<lparr>env_sessions := Response 200 []\<rparr>) after_one_viewer)
      = snd (make_request ''/Sessions'' (Response 200 ([] :: session list)) after_one_viewer)"
    using collect_sessions_empty[of "server_down\<lparr>env_sessions := Response 200 []\<rparr>" after_one_viewer]
    by (simp add: returned_def raise_for_status_def)
  have f: "collect_sessions_fixed (Response 200 []) fixed_after_one_viewer
      = snd (make_request_fixed ''/Sessions'' (Response 200 ([] :: session list)) fixed_after_one_viewer)"
    by (simp add: collect_sessions_fixed_def make_request_fixed_def raise_for_status_def)
  show ?thesis
    unfolding u f
    using after_one_viewer_gauges fixed_after_one_viewer_gauges
    by (simp add: make_request_def make_request_fixed_def raise_for_status_def Let_def
        collect_sessions_debug_def make_request_debug_def)
qed

section \<open>A failed request and the rest of the cycle\<close>

lemma foldl_keeps:
  assumes "\<And>a x. g (f a x) = g a"
  shows "g (foldl f a xs) = g a"
  by (induction xs arbitrary: a) (simp_all add: assms)

text \<open>What the collectors before \<^verbatim>\<open>collect_epg\<close> leave alone: the EPG gauges and the
  count of collection errors. \<open>requests\<close> grows by the endpoints each of them asks.\<close>

lemma make_request_frame:
  "epg_days_available (snd (make_request e outcome st)) = epg_days_available st
   \<and> epg_programs_today (snd (make_request e outcome st)) = epg_programs_today st
   \<and> stream_errors (snd (make_request e outcome st)) ''collection_error'' = stream_errors st ''collection_error''"
  by (simp add: make_request_def Let_def split: http_outcome.splits)

lemma collect_server_info_frame:
  "requests (collect_server_info env st) = requests st @ [''/System/Info'']
   \<and> epg_days_available (collect_server_info env st) = epg_days_available st
   \<and> epg_programs_today (collect_server_info env st) = epg_programs_today st
   \<and> stream_errors (collect_server_info env st) ''collection_error'' = stream_errors st ''collection_error''"
  using requests_make_request[of "''/System/Info''" "env_system_info env" st]
    make_request_frame[of "''/System/Info''" "env_system_info env" st]
  by (cases "make_request ''/System/Info'' (env_system_info env) st")
     (simp add: collect_server_info_def split: option.splits)

lemma channel_step_frame:
  "requests (snd (snd (channel_step a c))) = requests (snd (snd a))
   \<and> epg_days_available (snd (snd (channel_step a c))) = epg_days_available (snd (snd a))
   \<and> epg_programs_today (snd (snd (channel_step a c))) = epg_programs_today (snd (snd a))
   \<and> stream_errors (snd (snd (channel_step a c))) = stream_errors (snd (snd a))"
  by (cases a) (simp add: channel_step_def Let_def)

lemma collect_channels_frame:
  "requests (collect_channels env st) = requests st @ [''/LiveTv/Channels'']
   \<and> epg_days_available (collect_channels env st) = epg_days_available st
   \<and> epg_programs_today (collect_channels env st) = epg_programs_today st
   \<and> stream_errors (collect_channels env st) ''collection_error'' = stream_errors st ''collection_error''"
proof -
  obtain r st1 where mr: "make_request ''/LiveTv/Channels'' (env_channels env) st = (r, st1)"
    by (cases "make_request ''/LiveTv/Channels'' (env_channels env) st")
  have st1: "requests st1 = requests st @ [''/LiveTv/Channels'']"
    "epg_days_available st1 = epg_days_available st" "epg_programs_today st1 = epg_programs_today st"
    "stream_errors st1 ''collection_error'' = stream_errors st ''collection_error''"
    using requests_make_request[of "''/LiveTv/Channels''" "env_channels env" st]
      make_request_frame[of "''/LiveTv/Channels''" "env_channels env" st] mr by simp_all
  have fl: "requests (snd (snd (foldl channel_step a cs))) = requests (snd (snd a))
     \<and> epg_days_available (snd (snd (foldl channel_step a cs))) = epg_days_available (snd (snd a))
     \<and> epg_programs_today (snd (snd (foldl channel_step a cs))) = epg_programs_today (snd (snd a))
     \<and> stream_errors (snd (snd (foldl channel_step a cs))) = stream_errors (snd (snd a))" for a cs
    using foldl_keeps[of "\<lambda>a. requests (snd (snd a))" channel_step a cs]
      foldl_keeps[of "\<lambda>a. epg_days_available (snd (snd a))" channel_step a cs]
      foldl_keeps[of "\<lambda>a. epg_programs_today (snd (snd a))" channel_step a cs]
      foldl_keeps[of "\<lambda>a. stream_errors (snd (snd a))" channel_step a cs]
    by (simp add: channel_step_frame)
  show ?thesis
  proof (cases r)
    case None
    then show ?thesis using mr st1 by (simp add: collect_channels_def)
  next
    case (Some p)
    show ?thesis
    proof (cases "Items p = None")
      case True
      then show ?thesis using mr st1 Some by (simp add: collect_channels_def)
    next
      case False
      obtain x y st2 where f: "foldl channel_step (0, 0, st1\<lparr>channels_total := get_TotalRecordCount p\<rparr>) (get_Items p) = (x, y, st2)"
        by (cases "foldl channel_step (0, 0, st1\<lparr>channels_total := get_TotalRecordCount p\<rparr>) (get_Items p)") auto
      from fl[of "(0, 0, st1\<lparr>channels_total := get_TotalRecordCount p\<rparr>)" "get_Items p"] f
      have "requests st2 = requests st1" "epg_days_available st2 = epg_days_available st1"
        "epg_programs_today st2 = epg_programs_today st1" "stream_errors st2 = stream_errors st1"
        by simp_all
      then show ?thesis using mr st1 Some False f by (simp add: collect_channels_def)
    qed
  qed
qed

lemma track_channel_switch_frame:
  "requests (track_channel_switch env u c st) = requests st
   \<and> epg_days_available (track_channel_switch env u c st) = epg_days_available st
   \<and> epg_programs_today (track_channel_switch env u c st) = epg_programs_today st
   \<and> stream_errors (track_channel_switch env u c st) = stream_errors st"
  by (simp add: track_channel_switch_def time_time_def Let_def split: option.splits)

lemma track_watch_time_frame:
  "requests (snd (track_watch_time env i u c st)) = requests st
   \<and> epg_days_available (snd (track_watch_time env i u c st)) = epg_days_available st
   \<and> epg_programs_today (snd (track_watch_time env i u c st)) = epg_programs_today st
   \<and> stream_errors (snd (track_watch_time env i u c st)) = stream_errors st"
  by (simp add: track_watch_time_def time_time_def Let_def split: option.splits)

lemma track_bitrate_frame:
  "requests (snd (track_bitrate s u c i a)) = requests (snd a)
   \<and> epg_days_available (snd (track_bitrate s u c i a)) = epg_days_available (snd a)
   \<and> epg_programs_today (snd (track_bitrate s u c i a)) = epg_programs_today (snd a)
   \<and> stream_errors (snd (track_bitrate s u c i a)) = stream_errors (snd a)"
  by (cases a) (simp add: track_bitrate_def Let_def split: option.splits)

lemma session_step_frame:
  "requests (snd (snd (session_step env a s))) = requests (snd a)
   \<and> epg_days_available (snd (snd (session_step env a s))) = epg_days_available (snd a)
   \<and> epg_programs_today (snd (snd (session_step env a s))) = epg_programs_today (snd a)
   \<and> stream_errors (snd (snd (session_step env a s))) = stream_errors (snd a)"
proof (cases a)
  case (Pair loc st)
  show ?thesis
  proof (cases "NowPlayingItem s")
    case None
    then show ?thesis using Pair by (simp add: session_step_def)
  next
    case (Some np)
    show ?thesis
    proof (cases "np_Type np = Some ''TvChannel''")
      case False
      then show ?thesis using Pair Some by (simp add: session_step_def)
    next
      case True
      let ?i = "get_str (sess_Id s) ''unknown''" and ?u = "get_str (sess_UserName s) ''unknown''"
        and ?c = "get_str (np_Name np) ''Unknown Channel''"
      let ?st1 = "track_channel_switch env ?u ?c st"
      obtain x st2 where tw: "track_watch_time env ?i ?u ?c ?st1 = (x, st2)"
        by (cases "track_watch_time env ?i ?u ?c ?st1")
      have st2: "requests st2 = requests st" "epg_days_available st2 = epg_days_available st"
        "epg_programs_today st2 = epg_programs_today st" "stream_errors st2 = stream_errors st"
        using track_watch_time_frame[of env ?i ?u ?c ?st1] tw
        by (simp_all add: track_channel_switch_frame)
      show ?thesis
        using Pair Some True tw st2
        by (cases x) (simp_all add: session_step_def Let_def track_bitrate_frame)
    qed
  qed
qed

lemma sessions_loop_frame:
  "requests (snd (snd (sessions_loop env a ss))) = requests (snd a)
   \<and> epg_days_available (snd (snd (sessions_loop env a ss))) = epg_days_available (snd a)
   \<and> epg_programs_today (snd (snd (sessions_loop env a ss))) = epg_programs_today (snd a)
   \<and> stream_errors (snd (snd (sessions_loop env a ss))) = stream_errors (snd a)"
proof (induction ss arbitrary: a)
  case Nil
  show ?case by simp
next
  case (Cons s ss)
  obtain x a' where st: "session_step env a s = (x, a')"
    by (cases "session_step env a s")
  have a': "requests (snd a') = requests (snd a)" "epg_days_available (snd a') = epg_days_available (snd a)"
    "epg_programs_today (snd a') = epg_programs_today (snd a)" "stream_errors (snd a') = stream_errors (snd a)"
    using session_step_frame[of env a s] st by simp_all
  show ?case
    using st a' Cons.IH[of a'] by (cases x) simp_all
qed

lemma set_streams_by_channel_frame:
  "requests (snd (set_streams_by_channel cv st)) = requests st
   \<and> epg_days_available (snd (set_streams_by_channel cv st)) = epg_days_available st
   \<and> epg_programs_today (snd (set_streams_by_channel cv st)) = epg_programs_today st
   \<and> stream_errors (snd (set_streams_by_channel cv st)) = stream_errors st"
  by (induction cv st rule: set_streams_by_channel.induct) (simp_all split: list.splits)

lemma collect_sessions_frame:
  "requests (snd (collect_sessions env st)) = requests st @ [''/Sessions'']
   \<and> epg_days_available (snd (collect_sessions env st)) = epg_days_available st
   \<and> epg_programs_today (snd (collect_sessions env st)) = epg_programs_today st
   \<and> stream_errors (snd (collect_sessions env st)) ''collection_error'' = stream_errors st ''collection_error''"
proof -
  let ?l0 = "\<lparr>livetv_stream_count = 0, users_watching_set = [], channel_viewers = [],
          total_bandwidth_mbps = 0, transcoding_count = 0\<rparr>"
  obtain r st1 where mr: "make_request ''/Sessions'' (env_sessions env) st = (r, st1)"
    by (cases "make_request ''/Sessions'' (env_sessions env) st")
  have st1: "requests st1 = requests st @ [''/Sessions'']"
    "epg_days_available st1 = epg_days_available st" "epg_programs_today st1 = epg_programs_today st"
    "stream_errors st1 ''collection_error'' = stream_errors st ''collection_error''"
    using requests_make_request[of "''/Sessions''" "env_sessions env" st]
      make_request_frame[of "''/Sessions''" "env_sessions env" st] mr by simp_all
  show ?thesis
  proof (cases "case r of None \<Rightarrow> True | Some ss \<Rightarrow> ss = []")
    case True
    then show ?thesis using mr st1 by (simp add: collect_sessions_def)
  next
    case False
    obtain x loc st2 where f: "sessions_loop env (?l0, st1) (case r of None \<Rightarrow> [] | Some ss \<Rightarrow> ss) = (x, loc, st2)"
      by (cases "sessions_loop env (?l0, st1) (case r of None \<Rightarrow> [] | Some ss \<Rightarrow> ss)") auto
    from sessions_loop_frame[of env "(?l0, st1)" "case r of None \<Rightarrow> [] | Some ss \<Rightarrow> ss"] f
    have st2: "requests st2 = requests st1" "epg_days_available st2 = epg_days_available st1"
      "epg_programs_today st2 = epg_programs_today st1" "stream_errors st2 = stream_errors st1"
      by simp_all
    show ?thesis
      using mr st1 st2 False f
      by (cases x)
         (simp_all add: collect_sessions_def set_streams_by_channel_frame set_session_gauges_def Let_def)
  qed
qed

lemma tuner_step_frame:
  "requests (snd (snd (tuner_step a t))) = requests (snd (snd a))
   \<and> epg_days_available (snd (snd (tuner_step a t))) = epg_days_available (snd (snd a))
   \<and> epg_programs_today (snd (snd (tuner_step a t))) = epg_programs_today (snd (snd a))
   \<and> stream_errors (snd (snd (tuner_step a t))) = stream_errors (snd (snd a))"
  by (cases a) (simp add: tuner_step_def Let_def)

lemma collect_tuners_frame:
  "requests (collect_tuners env st) = requests st @ [''/LiveTv/Tuners'']
   \<and> epg_days_available (collect_tuners env st) = epg_days_available st
   \<and> epg_programs_today (collect_tuners env st) = epg_programs_today st
   \<and> stream_errors (collect_tuners env st) ''collection_error'' = stream_errors st ''collection_error''"
proof -
  obtain r st1 where mr: "make_request ''/LiveTv/Tuners'' (env_tuners env) st = (r, st1)"
    by (cases "make_request ''/LiveTv/Tuners'' (env_tuners env) st")
  have st1: "requests st1 = requests st @ [''/LiveTv/Tuners'']"
    "epg_days_available st1 = epg_days_available st" "epg_programs_today st1 = epg_programs_today st"
    "stream_errors st1 ''collection_error'' = stream_errors st ''collection_error''"
    using requests_make_request[of "''/LiveTv/Tuners''" "env_tuners env" st]
      make_request_frame[of "''/LiveTv/Tuners''" "env_tuners env" st] mr by simp_all
  have fl: "requests (snd (snd (foldl tuner_step a ts))) = requests (snd (snd a))
     \<and> epg_days_available (snd (snd (foldl tuner_step a ts))) = epg_days_available (snd (snd a))
     \<and> epg_programs_today (snd (snd (foldl tuner_step a ts))) = epg_programs_today (snd (snd a))
     \<and> stream_errors (snd (snd (foldl tuner_step a ts))) = stream_errors (snd (snd a))" for a ts
    using foldl_keeps[of "\<lambda>a. requests (snd (snd a))" tuner_step a ts]
      foldl_keeps[of "\<lambda>a. epg_days_available (snd (snd a))" tuner_step a ts]
      foldl_keeps[of "\<lambda>a. epg_programs_today (snd (snd a))" tuner_step a ts]
      foldl_keeps[of "\<lambda>a. stream_errors (snd (snd a))" tuner_step a ts]
    by (simp add: tuner_step_frame)
  show ?thesis
  proof (cases "\<exists>t ts. r = Some (Tuners_list (t # ts))")
    case True
    then obtain t ts where r: "r = Some (Tuners_list (t # ts))" by auto
    obtain x y st2 where f: "foldl tuner_step (0, 0, st1) (t # ts) = (x, y, st2)"
      by (cases "foldl tuner_step (0, 0, st1) (t # ts)") auto
    from fl[of "(0, 0, st1)" "t # ts"] f
    have "requests st2 = requests st1" "epg_days_available st2 = epg_days_available st1"
      "epg_programs_today st2 = epg_programs_today st1" "stream_errors st2 = stream_errors st1"
      by simp_all
    then show ?thesis using mr st1 r f by (simp add: collect_tuners_def Let_def)
  next
    case False
    then have "collect_tuners env st =
      st1\<lparr>tuners_total := 0, tuners_available := 0, tuners_in_use := 0, tuner_utilization := 0\<rparr>"
      using mr by (auto simp: collect_tuners_def split: option.splits tuners_body.splits list.splits)
    then show ?thesis using st1 by simp
  qed
qed

text \<open>\<^verbatim>\<open>collect_recordings\<close> with its three requests made explicit.\<close>

lemma collect_recordings_cases:
  obtains a st1 t st3 sc st4 r st5 where
    "make_request ''/LiveTv/Recordings'' (env_recordings_active env) st = (a, st1)"
    "make_request ''/LiveTv/Timers'' (env_timers env)
       (case a of None \<Rightarrow> st1
        | Some p \<Rightarrow> if Items p \<noteq> None then st1\<lparr>recordings_active := get_TotalRecordCount p\<rparr> else st1) = (t, st3)"
    "(case t of
        None \<Rightarrow> (None, st3)
      | Some p \<Rightarrow>
          if Items p \<noteq> None
          then (Some (get_TotalRecordCount p),
                st3\<lparr>recordings_scheduled := get_TotalRecordCount p,
                    recording_series :=
                      int (length (filter (\<lambda>timer. str_truthy (timer_SeriesTimerId timer)) (get_Items p)))\<rparr>)
          else (None, st3)) = (sc, st4)"
    "make_request ''/LiveTv/Recordings'' (env_recordings_all env) st4 = (r, st5)"
    "collect_recordings env st =
       (case r of
          None \<Rightarrow> (None, st5)
        | Some p \<Rightarrow>
            if Items p \<noteq> None
            then (if a = None then Some AttributeError
                  else if sc = None then Some UnboundLocalError else None,
                  st5\<lparr>recording_storage_gb :=
                        of_int (sum_list (map (\<lambda>item. case rec_Size item of None \<Rightarrow> 0 | Some n \<Rightarrow> n) (get_Items p)))
                          / (1024 * 1024 * 1024)\<rparr>)
            else (None, st5))"
proof -
  obtain a st1 where a: "make_request ''/LiveTv/Recordings'' (env_recordings_active env) st = (a, st1)"
    by (cases "make_request ''/LiveTv/Recordings'' (env_recordings_active env) st")
  obtain t st3 where t: "make_request ''/LiveTv/Timers'' (env_timers env)
       (case a of None \<Rightarrow> st1
        | Some p \<Rightarrow> if Items p \<noteq> None then st1\<lparr>recordings_active := get_TotalRecordCount p\<rparr> else st1) = (t, st3)"
    by (cases "make_request ''/LiveTv/Timers'' (env_timers env)
       (case a of None \<Rightarrow> st1
        | Some p \<Rightarrow> if Items p \<noteq> None then st1\<lparr>recordings_active := get_TotalRecordCount p\<rparr> else st1)")
  obtain sc st4 where sc: "(case t of
        None \<Rightarrow> (None, st3)
      | Some p \<Rightarrow>
          if Items p \<noteq> None
          then (Some (get_TotalRecordCount p),
                st3\<lparr>recordings_scheduled := get_TotalRecordCount p,
                    recording_series :=
                      int (length (filter (\<lambda>timer. str_truthy (timer_SeriesTimerId timer)) (get_Items p)))\<rparr>)
          else (None, st3)) = (sc, st4)"
    by (cases "(case t of
        None \<Rightarrow> (None :: int option, st3)
      | Some p \<Rightarrow>
          if Items p \<noteq> None
          then (Some (get_TotalRecordCount p),
                st3\<lparr>recordings_scheduled := get_TotalRecordCount p,
                    recording_series :=
                      int (length (filter (\<lambda>timer. str_truthy (timer_SeriesTimerId timer)) (get_Items p)))\<rparr>)
          else (None, st3))")
  obtain r st5 where r: "make_request ''/LiveTv/Recordings'' (env_recordings_all env) st4 = (r, st5)"
    by (cases "make_request ''/LiveTv/Recordings'' (env_recordings_all env) st4")
  have "collect_recordings env st =
       (case r of
          None \<Rightarrow> (None, st5)
        | Some p \<Rightarrow>
            if Items p \<noteq> None
            then (if a = None then Some AttributeError
                  else if sc = None then Some UnboundLocalError else None,
                  st5\<lparr>recording_storage_gb :=
                        of_int (sum_list (map (\<lambda>item. case rec_Size item of None \<Rightarrow> 0 | Some n \<Rightarrow> n) (get_Items p)))
                          / (1024 * 1024 * 1024)\<rparr>)
            else (None, st5))"
    unfolding collect_recordings_def a prod.case Let_def t sc r
    by (simp split: option.splits)
  then show ?thesis using that a t sc r by blast
qed

lemma collect_recordings_frame:
  "requests (snd (collect_recordings env st))
     = requests st @ [''/LiveTv/Recordings'', ''/LiveTv/Timers'', ''/LiveTv/Recordings'']
   \<and> epg_days_available (snd (collect_recordings env st)) = epg_days_available st
   \<and> epg_programs_today (snd (collect_recordings env st)) = epg_programs_today st
   \<and> stream_errors (snd (collect_recordings env st)) ''collection_error'' = stream_errors st ''collection_error''"
proof (rule collect_recordings_cases[of env st])
  fix a st1 t st3 sc st4 r st5
  assume a: "make_request ''/LiveTv/Recordings'' (env_recordings_active env) st = (a, st1)"
    and t: "make_request ''/LiveTv/Timers'' (env_timers env)
       (case a of None \<Rightarrow> st1
        | Some p \<Rightarrow> if Items p \<noteq> None then st1\<lparr>recordings_active := get_TotalRecordCount p\<rparr> else st1) = (t, st3)"
    and sc: "(case t of
        None \<Rightarrow> (None, st3)
      | Some p \<Rightarrow>
          if Items p \<noteq> None
          then (Some (get_TotalRecordCount p),
                st3\<lparr>recordings_scheduled := get_TotalRecordCount p,
                    recording_series :=
                      int (length (filter (\<lambda>timer. str_truthy (timer_SeriesTimerId timer)) (get_Items p)))\<rparr>)
          else (None, st3)) = (sc, st4)"
    and r: "make_request ''/LiveTv/Recordings'' (env_recordings_all env) st4 = (r, st5)"
    and res: "collect_recordings env st =
       (case r of
          None \<Rightarrow> (None, st5)
        | Some p \<Rightarrow>
            if Items p \<noteq> None
            then (if a = None then Some AttributeError
                  else if sc = None then Some UnboundLocalError else None,
                  st5\<lparr>recording_storage_gb :=
                        of_int (sum_list (map (\<lambda>item. case rec_Size item of None \<Rightarrow> 0 | Some n \<Rightarrow> n) (get_Items p)))
                          / (1024 * 1024 * 1024)\<rparr>)
            else (None, st5))"
  have st1: "requests st1 = requests st @ [''/LiveTv/Recordings'']"
    "epg_days_available st1 = epg_days_available st" "epg_programs_today st1 = epg_programs_today st"
    "stream_errors st1 ''collection_error'' = stream_errors st ''collection_error''"
    using requests_make_request[of "''/LiveTv/Recordings''" "env_recordings_active env" st]
      make_request_frame[of "''/LiveTv/Recordings''" "env_recordings_active env" st] a by simp_all
  define st2 where "st2 = (case a of None \<Rightarrow> st1
        | Some p \<Rightarrow> if Items p \<noteq> None then st1\<lparr>recordings_active := get_TotalRecordCount p\<rparr> else st1)"
  have st2: "requests st2 = requests st1" "epg_days_available st2 = epg_days_available st1"
    "epg_programs_today st2 = epg_programs_today st1" "stream_errors st2 = stream_errors st1"
    by (simp_all add: st2_def split: option.splits)
  have st3: "requests st3 = requests st2 @ [''/LiveTv/Timers'']"
    "epg_days_available st3 = epg_days_available st2" "epg_programs_today st3 = epg_programs_today st2"
    "stream_errors st3 ''collection_error'' = stream_errors st2 ''collection_error''"
    using requests_make_request[of "''/LiveTv/Timers''" "env_timers env" st2]
      make_request_frame[of "''/LiveTv/Timers''" "env_timers env" st2] t
    by (simp_all add: st2_def)
  have st4: "requests st4 = requests st3" "epg_days_available st4 = epg_days_available st3"
    "epg_programs_today st4 = epg_programs_today st3" "stream_errors st4 = stream_errors st3"
    using sc by (auto split: option.splits if_splits)
  have st5: "requests st5 = requests st4 @ [''/LiveTv/Recordings'']"
    "epg_days_available st5 = epg_days_available st4" "epg_programs_today st5 = epg_programs_today st4"
    "stream_errors st5 ''collection_error'' = stream_errors st4 ''collection_error''"
    using requests_make_request[of "''/LiveTv/Recordings''" "env_recordings_all env" st4]
      make_request_frame[of "''/LiveTv/Recordings''" "env_recordings_all env" st4] r by simp_all
  show ?thesis
    unfolding res using st1 st2 st3 st4 st5 by (simp split: option.splits)
qed

text \<open>When the request for the recordings in progress returns \<^verbatim>\<open>None\<close> and the one for
  all recordings returns an object with \<^verbatim>\<open>Items\<close>, the log line raises.\<close>

lemma collect_recordings_raises:
  assumes "returned (env_recordings_active env) = None"
    and "returned (env_recordings_all env) = Some p" and "Items p \<noteq> None"
  shows "fst (collect_recordings env st) = Some AttributeError"
proof (rule collect_recordings_cases[of env st])
  fix a st1 t st3 sc st4 r st5
  assume a: "make_request ''/LiveTv/Recordings'' (env_recordings_active env) st = (a, st1)"
    and r: "make_request ''/LiveTv/Recordings'' (env_recordings_all env) st4 = (r, st5)"
    and res: "collect_recordings env st =
       (case r of
          None \<Rightarrow> (None, st5)
        | Some p \<Rightarrow>
            if Items p \<noteq> None
            then (if a = None then Some AttributeError
                  else if sc = None then Some UnboundLocalError else None,
                  st5\<lparr>recording_storage_gb :=
                        of_int (sum_list (map (\<lambda>item. case rec_Size item of None \<Rightarrow> 0 | Some n \<Rightarrow> n) (get_Items p)))
                          / (1024 * 1024 * 1024)\<rparr>)
            else (None, st5))"
  have "a = None"
    using fst_make_request[of "''/LiveTv/Recordings''" "env_recordings_active env" st] a assms(1) by simp
  moreover have "r = Some p"
    using fst_make_request[of "''/LiveTv/Recordings''" "env_recordings_all env" st4] r assms(2) by simp
  ultimately show ?thesis unfolding res using assms(3) by simp
qed

text \<open>What the two tracking blocks and the bitrate block do to the tracking state, and
  when the watch-time block raises.\<close>

lemma track_channel_switch_fields:
  "last_channel_switch (track_channel_switch env u c st)
     = (last_channel_switch st)(u \<mapsto> (c, env_time env (ticks st)))"
  "user_channel_switches (track_channel_switch env u c st)
     = (case last_channel_switch st u of
          None \<Rightarrow> user_channel_switches st
        | Some (last_channel, t) \<Rightarrow>
            if last_channel \<noteq> c then (user_channel_switches st)(u := user_channel_switches st u + 1)
            else user_channel_switches st)"
  "ticks (track_channel_switch env u c st) = Suc (ticks st)"
  "channel_watch_start (track_channel_switch env u c st) = channel_watch_start st"
  "user_watch_time (track_channel_switch env u c st) = user_watch_time st"
  by (simp_all add: track_channel_switch_def time_time_def Let_def split: option.splits)

lemma track_watch_time_raises:
  "fst (track_watch_time env i u c st)
     = (case channel_watch_start st i of
          None \<Rightarrow> None
        | Some (old_user, old_channel, start_time) \<Rightarrow>
            if old_channel = c \<and> env_time env (ticks st) < start_time then Some ValueError else None)"
  by (simp add: track_watch_time_def time_time_def Let_def split: option.splits)

lemma track_watch_time_fields:
  "channel_watch_start (snd (track_watch_time env i u c st))
     = (case channel_watch_start st i of
          None \<Rightarrow> (channel_watch_start st)(i \<mapsto> (u, c, env_time env (ticks st)))
        | Some a \<Rightarrow> channel_watch_start st)"
  "user_watch_time (snd (track_watch_time env i u c st))
     = (case channel_watch_start st i of
          None \<Rightarrow> user_watch_time st
        | Some (old_user, old_channel, start_time) \<Rightarrow>
            if old_channel = c \<and> start_time \<le> env_time env (ticks st)
            then (user_watch_time st)((u, c) := user_watch_time st (u, c) + (env_time env (ticks st) - start_time))
            else user_watch_time st)"
  "ticks (snd (track_watch_time env i u c st))
     = (case channel_watch_start st i of
          None \<Rightarrow> Suc (ticks st)
        | Some (old_user, old_channel, start_time) \<Rightarrow> if old_channel = c then Suc (ticks st) else ticks st)"
  "last_channel_switch (snd (track_watch_time env i u c st)) = last_channel_switch st"
  "user_channel_switches (snd (track_watch_time env i u c st)) = user_channel_switches st"
  by (simp_all add: track_watch_time_def time_time_def Let_def not_less split: option.splits)

lemma track_bitrate_fields:
  "last_channel_switch (snd (track_bitrate s u c i (loc, st))) = last_channel_switch st"
  "user_channel_switches (snd (track_bitrate s u c i (loc, st))) = user_channel_switches st"
  "channel_watch_start (snd (track_bitrate s u c i (loc, st))) = channel_watch_start st"
  "user_watch_time (snd (track_bitrate s u c i (loc, st))) = user_watch_time st"
  "ticks (snd (track_bitrate s u c i (loc, st))) = ticks st"
  by (simp_all add: track_bitrate_def Let_def split: option.splits)

text \<open>One pass of the loop: for a Live TV session it raises when the watch-time block
  does, and its tracking state is that of the two tracking blocks; any other session
  changes nothing.\<close>

lemma session_step_not_livetv:
  "\<not> is_livetv s \<Longrightarrow> session_step env (loc, st) s = (None, loc, st)"
  by (simp add: session_step_def is_livetv_def split: option.splits)

lemma session_step_livetv:
  assumes "is_livetv s"
  shows "fst (session_step env (loc, st) s)
           = fst (track_watch_time env (id_of s) (user_of s) (channel_of s)
               (track_channel_switch env (user_of s) (channel_of s) st))"
    and "last_channel_switch (snd (snd (session_step env (loc, st) s)))
           = last_channel_switch (track_channel_switch env (user_of s) (channel_of s) st)"
    and "user_channel_switches (snd (snd (session_step env (loc, st) s)))
           = user_channel_switches (track_channel_switch env (user_of s) (channel_of s) st)"
    and "channel_watch_start (snd (snd (session_step env (loc, st) s)))
           = channel_watch_start (snd (track_watch_time env (id_of s) (user_of s) (channel_of s)
               (track_channel_switch env (user_of s) (channel_of s) st)))"
    and "user_watch_time (snd (snd (session_step env (loc, st) s)))
           = user_watch_time (snd (track_watch_time env (id_of s) (user_of s) (channel_of s)
               (track_channel_switch env (user_of s) (channel_of s) st)))"
    and "ticks (snd (snd (session_step env (loc, st) s)))
           = ticks (snd (track_watch_time env (id_of s) (user_of s) (channel_of s)
               (track_channel_switch env (user_of s) (channel_of s) st)))"
proof -
  let ?tw = "track_watch_time env (id_of s) (user_of s) (channel_of s)
               (track_channel_switch env (user_of s) (channel_of s) st)"
  obtain np where np: "NowPlayingItem s = Some np" "np_Type np = Some ''TvChannel''"
    using assms by (auto simp: is_livetv_def split: option.splits)
  obtain x st2 where tw: "?tw = (x, st2)"
    by (cases ?tw)
  have "\<exists>loc1 loc2. session_step env (loc, st) s =
      (case x of Some e \<Rightarrow> (Some e, loc1, st2)
       | None \<Rightarrow> (None, track_bitrate s (user_of s) (channel_of s) (id_of s) (loc2, st2)))"
    using np tw
    by (cases x) (auto simp: session_step_def Let_def user_of_def channel_of_def id_of_def intro!: exI)
  then obtain loc1 loc2 where eq: "session_step env (loc, st) s =
      (case x of Some e \<Rightarrow> (Some e, loc1, st2)
       | None \<Rightarrow> (None, track_bitrate s (user_of s) (channel_of s) (id_of s) (loc2, st2)))"
    by blast
  have st2: "last_channel_switch st2 = last_channel_switch (track_channel_switch env (user_of s) (channel_of s) st)"
    "user_channel_switches st2 = user_channel_switches (track_channel_switch env (user_of s) (channel_of s) st)"
    using track_watch_time_fields(4,5)[of env "id_of s" "user_of s" "channel_of s"
        "track_channel_switch env (user_of s) (channel_of s) st"] tw by simp_all
  show "fst (session_step env (loc, st) s) = fst ?tw"
    unfolding eq tw by (cases x) simp_all
  show "last_channel_switch (snd (snd (session_step env (loc, st) s)))
           = last_channel_switch (track_channel_switch env (user_of s) (channel_of s) st)"
    unfolding eq using st2 by (cases x) (simp_all add: track_bitrate_fields)
  show "user_channel_switches (snd (snd (session_step env (loc, st) s)))
           = user_channel_switches (track_channel_switch env (user_of s) (channel_of s) st)"
    unfolding eq using st2 by (cases x) (simp_all add: track_bitrate_fields)
  show "channel_watch_start (snd (snd (session_step env (loc, st) s))) = channel_watch_start (snd ?tw)"
    unfolding eq tw by (cases x) (simp_all add: track_bitrate_fields)
  show "user_watch_time (snd (snd (session_step env (loc, st) s))) = user_watch_time (snd ?tw)"
    unfolding eq tw by (cases x) (simp_all add: track_bitrate_fields)
  show "ticks (snd (snd (session_step env (loc, st) s))) = ticks (snd ?tw)"
    unfolding eq tw by (cases x) (simp_all add: track_bitrate_fields)
qed

text \<open>Outside the loop, the collectors before \<^verbatim>\<open>collect_sessions\<close> leave the anchors and
  the clock alone.\<close>

lemma make_request_tracking:
  "last_channel_switch (snd (make_request e outcome st)) = last_channel_switch st"
  "user_channel_switches (snd (make_request e outcome st)) = user_channel_switches st"
  "channel_watch_start (snd (make_request e outcome st)) = channel_watch_start st"
  "user_watch_time (snd (make_request e outcome st)) = user_watch_time st"
  "ticks (snd (make_request e outcome st)) = ticks st"
  by (simp_all add: make_request_def Let_def split: http_outcome.splits)

lemma collect_server_info_tracking:
  "channel_watch_start (collect_server_info env st) = channel_watch_start st"
  "ticks (collect_server_info env st) = ticks st"
  using make_request_tracking(3,5)[of "''/System/Info''" "env_system_info env" st]
  by (cases "make_request ''/System/Info'' (env_system_info env) st";
      simp add: collect_server_info_def split: option.splits)+

lemma channel_step_tracking:
  "channel_watch_start (snd (snd (channel_step a c))) = channel_watch_start (snd (snd a))"
  "ticks (snd (snd (channel_step a c))) = ticks (snd (snd a))"
  by (cases a; simp add: channel_step_def Let_def)+

lemma collect_channels_tracking:
  "channel_watch_start (collect_channels env st) = channel_watch_start st"
  "ticks (collect_channels env st) = ticks st"
proof -
  obtain r st1 where mr: "make_request ''/LiveTv/Channels'' (env_channels env) st = (r, st1)"
    by (cases "make_request ''/LiveTv/Channels'' (env_channels env) st")
  have st1: "channel_watch_start st1 = channel_watch_start st" "ticks st1 = ticks st"
    using make_request_tracking(3,5)[of "''/LiveTv/Channels''" "env_channels env" st] mr by simp_all
  have fl: "channel_watch_start (snd (snd (foldl channel_step a cs))) = channel_watch_start (snd (snd a))
     \<and> ticks (snd (snd (foldl channel_step a cs))) = ticks (snd (snd a))" for a cs
    using foldl_keeps[of "\<lambda>a. channel_watch_start (snd (snd a))" channel_step a cs]
      foldl_keeps[of "\<lambda>a. ticks (snd (snd a))" channel_step a cs]
    by (simp add: channel_step_tracking)
  have both: "channel_watch_start (collect_channels env st) = channel_watch_start st
      \<and> ticks (collect_channels env st) = ticks st"
  proof (cases r)
    case None
    then show ?thesis using mr st1 by (simp add: collect_channels_def)
  next
    case (Some p)
    show ?thesis
    proof (cases "Items p = None")
      case True
      then show ?thesis using mr st1 Some by (simp add: collect_channels_def)
    next
      case False
      obtain x y st2 where f: "foldl channel_step (0, 0, st1\<lparr>channels_total := get_TotalRecordCount p\<rparr>) (get_Items p) = (x, y, st2)"
        by (cases "foldl channel_step (0, 0, st1\<lparr>channels_total := get_TotalRecordCount p\<rparr>) (get_Items p)") auto
      from fl[of "(0, 0, st1\<lparr>channels_total := get_TotalRecordCount p\<rparr>)" "get_Items p"] f
      have "channel_watch_start st2 = channel_watch_start st1" "ticks st2 = ticks st1"
        by simp_all
      then show ?thesis using mr st1 Some False f by (simp add: collect_channels_def)
    qed
  qed
  show "channel_watch_start (collect_channels env st) = channel_watch_start st"
    and "ticks (collect_channels env st) = ticks st"
    using both by simp_all
qed

text \<open>Whether \<^verbatim>\<open>collect_sessions\<close> raises depends on the sessions, the clock and the
  anchors in store, and on nothing else of the exporter's state.\<close>

lemma track_bitrate_locals:
  "fst (track_bitrate s u c i (loc, st)) = fst (track_bitrate s u c i (loc, st'))"
  by (simp add: track_bitrate_def Let_def split: option.splits)

lemma session_step_locals:
  assumes "fst (session_step env (loc, st) s) = fst (session_step env (loc, st') s)"
  shows "fst (snd (session_step env (loc, st) s)) = fst (snd (session_step env (loc, st') s))"
proof (cases "NowPlayingItem s")
  case None
  then show ?thesis by (simp add: session_step_def)
next
  case (Some np)
  show ?thesis
  proof (cases "np_Type np = Some ''TvChannel''")
    case False
    then show ?thesis using Some by (simp add: session_step_def)
  next
    case True
    let ?i = "get_str (sess_Id s) ''unknown''" and ?u = "get_str (sess_UserName s) ''unknown''"
      and ?c = "get_str (np_Name np) ''Unknown Channel''"
    obtain x st2 where tw: "track_watch_time env ?i ?u ?c (track_channel_switch env ?u ?c st) = (x, st2)"
      by (cases "track_watch_time env ?i ?u ?c (track_channel_switch env ?u ?c st)")
    obtain x' st2' where tw': "track_watch_time env ?i ?u ?c (track_channel_switch env ?u ?c st') = (x', st2')"
      by (cases "track_watch_time env ?i ?u ?c (track_channel_switch env ?u ?c st')")
    have "fst (session_step env (loc, st) s) = x"
      using Some True tw by (cases x) (simp_all add: session_step_def Let_def)
    moreover have "fst (session_step env (loc, st') s) = x'"
      using Some True tw' by (cases x') (simp_all add: session_step_def Let_def)
    ultimately have xx: "x' = x"
      using assms by simp
    show ?thesis
      using Some True tw tw' xx
      by (cases x) (auto simp: session_step_def Let_def intro: track_bitrate_locals)
  qed
qed

lemma track_watch_time_same:
  assumes "channel_watch_start st = channel_watch_start st'" and "ticks st = ticks st'"
  shows "fst (track_watch_time env i u c st) = fst (track_watch_time env i u c st')"
    and "channel_watch_start (snd (track_watch_time env i u c st))
           = channel_watch_start (snd (track_watch_time env i u c st'))"
    and "ticks (snd (track_watch_time env i u c st)) = ticks (snd (track_watch_time env i u c st'))"
  using assms
  by (simp_all add: track_watch_time_raises track_watch_time_fields split: option.splits)

lemma session_step_same:
  assumes "channel_watch_start st = channel_watch_start st'" and "ticks st = ticks st'"
  shows "fst (session_step env (loc, st) s) = fst (session_step env (loc, st') s)"
    and "fst (snd (session_step env (loc, st) s)) = fst (snd (session_step env (loc, st') s))"
    and "channel_watch_start (snd (snd (session_step env (loc, st) s)))
           = channel_watch_start (snd (snd (session_step env (loc, st') s)))"
    and "ticks (snd (snd (session_step env (loc, st) s))) = ticks (snd (snd (session_step env (loc, st') s)))"
proof -
  have sw: "channel_watch_start (track_channel_switch env u c st) = channel_watch_start (track_channel_switch env u c st')"
    "ticks (track_channel_switch env u c st) = ticks (track_channel_switch env u c st')" for u c
    using assms by (simp_all add: track_channel_switch_fields)
  show raises: "fst (session_step env (loc, st) s) = fst (session_step env (loc, st') s)"
    using track_watch_time_same(1)[OF sw]
    by (cases "is_livetv s") (simp_all add: session_step_not_livetv session_step_livetv(1))
  show "fst (snd (session_step env (loc, st) s)) = fst (snd (session_step env (loc, st') s))"
    by (rule session_step_locals[OF raises])
  show "channel_watch_start (snd (snd (session_step env (loc, st) s)))
           = channel_watch_start (snd (snd (session_step env (loc, st') s)))"
    using track_watch_time_same(2)[OF sw] assms
    by (cases "is_livetv s") (simp_all add: session_step_not_livetv session_step_livetv(4))
  show "ticks (snd (snd (session_step env (loc, st) s))) = ticks (snd (snd (session_step env (loc, st') s)))"
    using track_watch_time_same(3)[OF sw] assms
    by (cases "is_livetv s") (simp_all add: session_step_not_livetv session_step_livetv(6))
qed

lemma sessions_loop_same:
  assumes "channel_watch_start st = channel_watch_start st'" and "ticks st = ticks st'"
  shows "fst (sessions_loop env (loc, st) ss) = fst (sessions_loop env (loc, st') ss)
     \<and> fst (snd (sessions_loop env (loc, st) ss)) = fst (snd (sessions_loop env (loc, st') ss))"
  using assms
proof (induction ss arbitrary: loc st st')
  case Nil
  show ?case by simp
next
  case (Cons s ss)
  obtain x l1 s1 where a: "session_step env (loc, st) s = (x, l1, s1)"
    by (cases "session_step env (loc, st) s") auto
  obtain x' l1' s1' where b: "session_step env (loc, st') s = (x', l1', s1')"
    by (cases "session_step env (loc, st') s") auto
  have same: "x' = x" "l1' = l1" "channel_watch_start s1 = channel_watch_start s1'" "ticks s1 = ticks s1'"
    using session_step_same[OF Cons.prems, of env loc s] a b by simp_all
  show ?case
  proof (cases x)
    case None
    then show ?thesis
      using a b same(1,2) Cons.IH[OF same(3,4), of l1] by simp
  next
    case (Some e)
    then show ?thesis
      using a b same(1,2) by simp
  qed
qed

lemma set_streams_by_channel_raises:
  "fst (set_streams_by_channel cv st) = fst (set_streams_by_channel cv st')"
proof (induction cv arbitrary: st st')
  case Nil
  show ?case by simp
next
  case (Cons kc cv)
  obtain k c where kc: "kc = (k, c)" by (cases kc)
  show ?case
  proof (cases "\<exists>x y. split_on CHR ''|'' k = [x, y]")
    case True
    then obtain x y where "split_on CHR ''|'' k = [x, y]" by auto
    then show ?thesis unfolding kc using Cons.IH by simp
  next
    case False
    then have "set_streams_by_channel ((k, c) # cv) s = (Some ValueError, s)" for s
      by (cases "split_on CHR ''|'' k" rule: list.exhaust)
         (auto split: list.splits)
    then show ?thesis unfolding kc by simp
  qed
qed

lemma collect_sessions_raises:
  assumes "channel_watch_start st = channel_watch_start st'" and "ticks st = ticks st'"
  shows "fst (collect_sessions env st) = fst (collect_sessions env st')"
proof -
  obtain r st1 where a: "make_request ''/Sessions'' (env_sessions env) st = (r, st1)"
    by (cases "make_request ''/Sessions'' (env_sessions env) st")
  obtain r' st1' where b: "make_request ''/Sessions'' (env_sessions env) st' = (r', st1')"
    by (cases "make_request ''/Sessions'' (env_sessions env) st'")
  have rr: "r' = r"
    using fst_make_request[of "''/Sessions''" "env_sessions env" st]
      fst_make_request[of "''/Sessions''" "env_sessions env" st'] a b by simp
  have st1: "channel_watch_start st1 = channel_watch_start st1'" "ticks st1 = ticks st1'"
    using make_request_tracking(3,5)[of "''/Sessions''" "env_sessions env" st]
      make_request_tracking(3,5)[of "''/Sessions''" "env_sessions env" st'] a b assms by simp_all
  let ?l0 = "\<lparr>livetv_stream_count = 0, users_watching_set = [], channel_viewers = [],
          total_bandwidth_mbps = 0, transcoding_count = 0\<rparr>"
  let ?ss = "case r of None \<Rightarrow> [] | Some ss \<Rightarrow> ss"
  obtain x loc st2 where f: "sessions_loop env (?l0, st1) ?ss = (x, loc, st2)"
    by (cases "sessions_loop env (?l0, st1) ?ss") auto
  obtain x' loc' st2' where f': "sessions_loop env (?l0, st1') ?ss = (x', loc', st2')"
    by (cases "sessions_loop env (?l0, st1') ?ss") auto
  have ll: "x' = x" "loc' = loc"
    using sessions_loop_same[OF st1, of env ?l0 ?ss] f f' by simp_all
  show ?thesis
  proof (cases "case r of None \<Rightarrow> True | Some ss \<Rightarrow> ss = []")
    case True
    then show ?thesis by (simp add: collect_sessions_def a b rr)
  next
    case False
    show ?thesis
    proof (cases x)
      case (Some e)
      then show ?thesis
        using False by (simp add: collect_sessions_def a b rr f f' ll)
    next
      case None
      have 1: "collect_sessions env st = set_streams_by_channel (channel_viewers loc) (set_session_gauges loc st2)"
        using False None by (simp add: collect_sessions_def a f)
      have 2: "collect_sessions env st' = set_streams_by_channel (channel_viewers loc) (set_session_gauges loc st2')"
        using False None by (simp add: collect_sessions_def b rr f' ll)
      show ?thesis unfolding 1 2 by (rule set_streams_by_channel_raises)
    qed
  qed
qed

text \<open>When \<^verbatim>\<open>collect_sessions\<close> does not raise and \<^verbatim>\<open>collect_recordings\<close> does, the cycle
  ends in the \<^verbatim>\<open>except\<close> clause, before \<^verbatim>\<open>collect_epg\<close>.\<close>

lemma collect_all_metrics_aborts_at_recordings:
  assumes "fst (collect_sessions env (collect_channels env (collect_server_info env st))) = None"
    and "fst (collect_recordings env
               (collect_tuners env (snd (collect_sessions env (collect_channels env (collect_server_info env st)))))) = Some e"
  shows "collect_all_metrics env st =
     collection_error (snd (collect_recordings env
        (collect_tuners env (snd (collect_sessions env (collect_channels env (collect_server_info env st)))))))"
proof -
  let ?st2 = "collect_channels env (collect_server_info env st)"
  obtain x st3 where cs: "collect_sessions env ?st2 = (x, st3)" by (cases "collect_sessions env ?st2")
  with assms(1) have x: "x = None" by simp
  obtain y st5 where cr: "collect_recordings env (collect_tuners env st3) = (y, st5)"
    by (cases "collect_recordings env (collect_tuners env st3)")
  with assms(2) cs have y: "y = Some e" by simp
  show ?thesis
    by (simp add: collect_all_metrics_def Let_def cs x cr y)
qed

lemma one_viewer_does_not_raise:
  "fst (collect_sessions recordings_in_progress_down new_exporter) = None"
  by (simp add: recordings_in_progress_down_def healthy_def collect_sessions_def make_request_def
      raise_for_status_def news_session_def session_step_def track_channel_switch_def
      track_watch_time_def track_bitrate_def time_time_def get_str_def bump_def new_exporter_def
      set_session_gauges_def Let_def)

text \<open>
  Claim C1, at the failing input. Only the request for the recordings in progress
  fails; the guide endpoint would answer. \<^verbatim>\<open>collect_recordings\<close> raises at its log line,
  the \<^verbatim>\<open>except\<close> clause of \<^verbatim>\<open>collect_all_metrics\<close> takes over, and \<^verbatim>\<open>collect_epg\<close> does
  not run: no request to \<^verbatim>\<open>/LiveTv/Programs\<close> is made, the EPG gauges stay as they were,
  the server is reported down and a collection error is counted.
\<close>

theorem failed_recordings_skip_epg:
  "returned (env_recordings_active recordings_in_progress_down) = None
   \<and> returned (env_programs_today recordings_in_progress_down) = Some (count_of 40)
   \<and> fst (collect_recordings recordings_in_progress_down new_exporter) = Some AttributeError
   \<and> requests (collect_all_metrics recordings_in_progress_down new_exporter)
       = [''/System/Info'', ''/LiveTv/Channels'', ''/Sessions'', ''/LiveTv/Tuners'',
          ''/LiveTv/Recordings'', ''/LiveTv/Timers'', ''/LiveTv/Recordings'']
   \<and> epg_days_available (collect_all_metrics recordings_in_progress_down new_exporter) = 0
   \<and> epg_programs_today (collect_all_metrics recordings_in_progress_down new_exporter) = 0
   \<and> server_up (collect_all_metrics recordings_in_progress_down new_exporter) = 0
   \<and> stream_errors (collect_all_metrics recordings_in_progress_down new_exporter) ''collection_error'' = 1"
proof -
  let ?env = recordings_in_progress_down
  have act: "returned (env_recordings_active ?env) = None"
    by (simp add: recordings_in_progress_down_def healthy_def returned_def)
  have today: "returned (env_programs_today ?env) = Some (count_of 40)"
    by (simp add: recordings_in_progress_down_def healthy_def returned_def raise_for_status_def)
  have all: "returned (env_recordings_all ?env)
      = Some \<lparr>Items = Some [\<lparr>rec_Size = Some 1073741824\<rparr>], TotalRecordCount = Some 1, other_keys = False\<rparr>"
    by (simp add: recordings_in_progress_down_def healthy_def returned_def raise_for_status_def)
  have raises: "fst (collect_recordings ?env s) = Some AttributeError" for s
    by (rule collect_recordings_raises[OF act all]) simp
  let ?st4 = "collect_tuners ?env (snd (collect_sessions ?env (collect_channels ?env (collect_server_info ?env new_exporter))))"
  have "fst (collect_sessions ?env (collect_channels ?env (collect_server_info ?env new_exporter)))
      = fst (collect_sessions ?env new_exporter)"
    by (rule collect_sessions_raises)
       (simp_all add: collect_channels_tracking collect_server_info_tracking)
  then have quiet: "fst (collect_sessions ?env (collect_channels ?env (collect_server_info ?env new_exporter))) = None"
    using one_viewer_does_not_raise by simp
  have res: "collect_all_metrics ?env new_exporter = collection_error (snd (collect_recordings ?env ?st4))"
    by (rule collect_all_metrics_aborts_at_recordings[OF quiet raises])
  have new: "requests new_exporter = []" "epg_days_available new_exporter = 0"
    "epg_programs_today new_exporter = 0" "stream_errors new_exporter ''collection_error'' = 0"
    by (simp_all add: new_exporter_def)
  show ?thesis
    unfolding res
    using act today raises[of new_exporter] new
    by (simp add: collection_error_def collect_recordings_frame collect_tuners_frame
        collect_sessions_frame collect_channels_frame collect_server_info_frame)
qed

section \<open>Bandwidth per session\<close>

text \<open>One pass of the loop of \<^verbatim>\<open>EmbyExporterDebug.collect_sessions\<close>: a streaming
  session adds its bandwidth, if positive, to the total and sets its series, to the
  bandwidth if positive and to 0 otherwise; any other session changes neither.\<close>

lemma session_step_debug_total:
  "dl_total_bandwidth_bytes (fst (session_step_debug (loc, st) (i, s)))
     = dl_total_bandwidth_bytes loc
       + (if NowPlayingItem s \<noteq> None then max 0 (session_bandwidth_debug s) else 0)"
  by (simp add: session_step_debug_def Let_def max_def)

lemma session_step_debug_series:
  "dbg_session_bandwidth (snd (session_step_debug (loc, st) (i, s)))
     = (if NowPlayingItem s \<noteq> None
        then (dbg_session_bandwidth st)(session_labels_debug i s \<mapsto> max 0 (session_bandwidth_debug s))
        else dbg_session_bandwidth st)"
  by (simp add: session_step_debug_def Let_def max_def)

lemma foldl_session_step_debug_snoc:
  "foldl session_step_debug a (enumerate 0 (ss @ [s]))
     = session_step_debug (foldl session_step_debug a (enumerate 0 ss)) (length ss, s)"
  by (simp add: enumerate_append_eq)

lemma foldl_session_step_debug_total:
  "dl_total_bandwidth_bytes (fst (foldl session_step_debug (loc, st) (enumerate 0 ss)))
     = dl_total_bandwidth_bytes loc
       + sum_list (map (\<lambda>s. max 0 (session_bandwidth_debug s)) (filter (\<lambda>s. NowPlayingItem s \<noteq> None) ss))"
proof (induction ss rule: rev_induct)
  case Nil
  show ?case by simp
next
  case (snoc s ss)
  obtain l1 s1 where f: "foldl session_step_debug (loc, st) (enumerate 0 ss) = (l1, s1)"
    by (cases "foldl session_step_debug (loc, st) (enumerate 0 ss)")
  show ?case
    using snoc.IH f session_step_debug_total[of l1 s1 "length ss" s]
    by (simp add: foldl_session_step_debug_snoc)
qed

lemma foldl_session_step_debug_set:
  "i < length ss \<Longrightarrow> NowPlayingItem (ss ! i) \<noteq> None \<Longrightarrow>
   dbg_session_bandwidth (snd (foldl session_step_debug (loc, st) (enumerate 0 ss)))
     (session_labels_debug i (ss ! i)) \<noteq> None"
proof (induction ss rule: rev_induct)
  case Nil
  then show ?case by simp
next
  case (snoc s ss)
  obtain l1 s1 where f: "foldl session_step_debug (loc, st) (enumerate 0 ss) = (l1, s1)"
    by (cases "foldl session_step_debug (loc, st) (enumerate 0 ss)")
  show ?case
  proof (cases "i < length ss")
    case True
    then have "dbg_session_bandwidth s1 (session_labels_debug i (ss ! i)) \<noteq> None"
      using snoc f by (simp add: nth_append)
    then show ?thesis
      using True f session_step_debug_series[of l1 s1 "length ss" s]
      by (simp add: foldl_session_step_debug_snoc nth_append)
  next
    case False
    then have i: "i = length ss" using snoc.prems(1) by simp
    then have "NowPlayingItem s \<noteq> None" using snoc.prems(2) by simp
    then show ?thesis
      using i f session_step_debug_series[of l1 s1 "length ss" s]
      by (simp add: foldl_session_step_debug_snoc)
  qed
qed

lemma foldl_session_step_debug_value:
  "i < length ss \<Longrightarrow> NowPlayingItem (ss ! i) \<noteq> None \<Longrightarrow>
   (\<forall>j. i < j \<and> j < length ss \<and> NowPlayingItem (ss ! j) \<noteq> None
        \<longrightarrow> session_labels_debug j (ss ! j) \<noteq> session_labels_debug i (ss ! i)) \<Longrightarrow>
   dbg_session_bandwidth (snd (foldl session_step_debug (loc, st) (enumerate 0 ss)))
     (session_labels_debug i (ss ! i)) = Some (max 0 (session_bandwidth_debug (ss ! i)))"
proof (induction ss rule: rev_induct)
  case Nil
  then show ?case by simp
next
  case (snoc s ss)
  obtain l1 s1 where f: "foldl session_step_debug (loc, st) (enumerate 0 ss) = (l1, s1)"
    by (cases "foldl session_step_debug (loc, st) (enumerate 0 ss)")
  show ?case
  proof (cases "i < length ss")
    case True
    have later: "\<forall>j. i < j \<and> j < length ss \<and> NowPlayingItem (ss ! j) \<noteq> None
        \<longrightarrow> session_labels_debug j (ss ! j) \<noteq> session_labels_debug i (ss ! i)"
    proof (intro allI impI)
      fix j assume j: "i < j \<and> j < length ss \<and> NowPlayingItem (ss ! j) \<noteq> None"
      then have "i < j \<and> j < length (ss @ [s]) \<and> NowPlayingItem ((ss @ [s]) ! j) \<noteq> None"
        by (simp add: nth_append)
      with snoc.prems(3) have "session_labels_debug j ((ss @ [s]) ! j) \<noteq> session_labels_debug i ((ss @ [s]) ! i)"
        by blast
      with j True show "session_labels_debug j (ss ! j) \<noteq> session_labels_debug i (ss ! i)"
        by (simp add: nth_append)
    qed
    have ih: "dbg_session_bandwidth s1 (session_labels_debug i (ss ! i)) = Some (max 0 (session_bandwidth_debug (ss ! i)))"
      using snoc.IH[OF True _ later] snoc.prems(2) True f by (simp add: nth_append)
    have last: "NowPlayingItem s \<noteq> None \<Longrightarrow> session_labels_debug (length ss) s \<noteq> session_labels_debug i (ss ! i)"
      using snoc.prems(3)[rule_format, of "length ss"] True by (simp add: nth_append)
    show ?thesis
      using True f ih last session_step_debug_series[of l1 s1 "length ss" s]
      by (auto simp: foldl_session_step_debug_snoc nth_append)
  next
    case False
    then have i: "i = length ss" using snoc.prems(1) by simp
    then have "NowPlayingItem s \<noteq> None" using snoc.prems(2) by simp
    then show ?thesis
      using i f session_step_debug_series[of l1 s1 "length ss" s]
      by (simp add: foldl_session_step_debug_snoc)
  qed
qed

text \<open>
  Claim C5, as the code has it: the exporter of \<^verbatim>\<open>emby_exporter_debug.py\<close>, in a
  cycle whose \<^verbatim>\<open>/Sessions\<close> request succeeds with the sessions \<open>ss\<close>. The bandwidth
  of a session is its key \<^verbatim>\<open>Bandwidth\<close> when it has one, else the \<^verbatim>\<open>Bitrate\<close> of its
  \<^verbatim>\<open>TranscodingInfo\<close>, else 0. The total is the sum, over the streaming sessions, of
  the bandwidth where positive. The series of every streaming session is set; it holds
  the session's bandwidth if positive and 0 otherwise, unless a later streaming session
  of the list has the same label values and overwrites it.
\<close>

theorem debug_bandwidth_per_session:
  assumes "outcome = Response status ss" and "\<not> raise_for_status status"
  shows "(Bandwidth s = Some b \<longrightarrow> session_bandwidth_debug s = b)
     \<and> (Bandwidth s = None \<and> TranscodingInfo s = Some ti \<longrightarrow>
          session_bandwidth_debug s = (case ti_Bitrate ti of None \<Rightarrow> 0 | Some b \<Rightarrow> b))
     \<and> (Bandwidth s = None \<and> TranscodingInfo s = None \<longrightarrow> session_bandwidth_debug s = 0)
     \<and> dbg_total_bandwidth (collect_sessions_debug outcome st)
          = sum_list (map (\<lambda>s. max 0 (session_bandwidth_debug s)) (filter (\<lambda>s. NowPlayingItem s \<noteq> None) ss))
     \<and> (i < length ss \<and> NowPlayingItem (ss ! i) \<noteq> None \<longrightarrow>
          dbg_session_bandwidth (collect_sessions_debug outcome st) (session_labels_debug i (ss ! i)) \<noteq> None)
     \<and> (i < length ss \<and> NowPlayingItem (ss ! i) \<noteq> None
          \<and> (\<forall>j. i < j \<and> j < length ss \<and> NowPlayingItem (ss ! j) \<noteq> None
                 \<longrightarrow> session_labels_debug j (ss ! j) \<noteq> session_labels_debug i (ss ! i)) \<longrightarrow>
          dbg_session_bandwidth (collect_sessions_debug outcome st) (session_labels_debug i (ss ! i))
            = Some (max 0 (session_bandwidth_debug (ss ! i))))"
proof -
  let ?l0 = "\<lparr>dl_streaming_count = 0, dl_transcoding_count = 0, dl_total_bandwidth_bytes = 0\<rparr>"
  obtain st1 where mr: "make_request_debug ''/Sessions'' outcome st = (Some ss, st1)"
    using assms by (simp add: make_request_debug_def Let_def)
  obtain loc st2 where f: "foldl session_step_debug (?l0, st1\<lparr>debug_sessions_found := int (length ss)\<rparr>)
      (enumerate 0 ss) = (loc, st2)"
    by (cases "foldl session_step_debug (?l0, st1\<lparr>debug_sessions_found := int (length ss)\<rparr>) (enumerate 0 ss)")
  have res: "dbg_total_bandwidth (collect_sessions_debug outcome st) = dl_total_bandwidth_bytes loc"
    "dbg_session_bandwidth (collect_sessions_debug outcome st) = dbg_session_bandwidth st2"
    by (simp_all add: collect_sessions_debug_def mr f)
  have total: "dl_total_bandwidth_bytes loc
      = sum_list (map (\<lambda>s. max 0 (session_bandwidth_debug s)) (filter (\<lambda>s. NowPlayingItem s \<noteq> None) ss))"
    using foldl_session_step_debug_total[of ?l0 "st1\<lparr>debug_sessions_found := int (length ss)\<rparr>" ss] f
    by simp
  have set: "dbg_session_bandwidth st2 (session_labels_debug i (ss ! i)) \<noteq> None"
    if "i < length ss" "NowPlayingItem (ss ! i) \<noteq> None"
    using foldl_session_step_debug_set[OF that, of ?l0 "st1\<lparr>debug_sessions_found := int (length ss)\<rparr>"] f
    by simp
  have val: "dbg_session_bandwidth st2 (session_labels_debug i (ss ! i))
      = Some (max 0 (session_bandwidth_debug (ss ! i)))"
    if "i < length ss" "NowPlayingItem (ss ! i) \<noteq> None"
      "\<forall>j. i < j \<and> j < length ss \<and> NowPlayingItem (ss ! j) \<noteq> None
         \<longrightarrow> session_labels_debug j (ss ! j) \<noteq> session_labels_debug i (ss ! i)"
    using foldl_session_step_debug_value[OF that, of ?l0 "st1\<lparr>debug_sessions_found := int (length ss)\<rparr>"] f
    by simp
  have pref: "(Bandwidth s = Some b \<longrightarrow> session_bandwidth_debug s = b)
     \<and> (Bandwidth s = None \<and> TranscodingInfo s = Some ti \<longrightarrow>
          session_bandwidth_debug s = (case ti_Bitrate ti of None \<Rightarrow> 0 | Some b \<Rightarrow> b))
     \<and> (Bandwidth s = None \<and> TranscodingInfo s = None \<longrightarrow> session_bandwidth_debug s = 0)"
    by (simp add: session_bandwidth_debug_def)
  show ?thesis
    unfolding res using pref total set val by blast
qed

text \<open>Four sessions: News24 with \<^verbatim>\<open>Bandwidth\<close> 5000000, a transcode at 3000000 without
  \<^verbatim>\<open>Bandwidth\<close>, an idle session, and a streaming session without bandwidth
  information and without id, whose label is \<^verbatim>\<open>unknown_3\<close>. And two sessions with the same
  label values, the first with the id \<^verbatim>\<open>unknown_1\<close> and the bandwidth 5, the second without
  id at index 1 and with the bandwidth 7: there is one series, it holds 7, and the total
  is 12.\<close>

theorem debug_bandwidth_per_session_witness:
  "\<not> raise_for_status 200
   \<and> session_bandwidth_debug news_session = 5000000
   \<and> session_bandwidth_debug transcode_only_session = 3000000
   \<and> session_bandwidth_debug silent_session = 0
   \<and> dbg_total_bandwidth (collect_sessions_debug
         (Response 200 [news_session, transcode_only_session, idle_session, silent_session]) new_debug) = 8000000
   \<and> dbg_session_bandwidth (collect_sessions_debug
         (Response 200 [news_session, transcode_only_session, idle_session, silent_session]) new_debug)
         (''s1'', ''alice'', ''Emby Web'', ''Video'', ''Transcode'') = Some 5000000
   \<and> dbg_session_bandwidth (collect_sessions_debug
         (Response 200 [news_session, transcode_only_session, idle_session, silent_session]) new_debug)
         (''s2'', ''bob'', ''Emby Theater'', ''Video'', ''Transcode'') = Some 3000000
   \<and> dbg_session_bandwidth (collect_sessions_debug
         (Response 200 [news_session, transcode_only_session, idle_session, silent_session]) new_debug)
         (''unknown_3'', ''dave'', ''Emby Web'', ''Audio'', ''DirectPlay'') = Some 0
   \<and> session_labels_debug 0 (silent_session\<lparr>sess_Id := Some ''unknown_1'', Bandwidth := Some 5\<rparr>)
       = session_labels_debug 1 (silent_session\<lparr>Bandwidth := Some 7\<rparr>)
   \<and> dbg_session_bandwidth (collect_sessions_debug
         (Response 200 [silent_session\<lparr>sess_Id := Some ''unknown_1'', Bandwidth := Some 5\<rparr>,
                        silent_session\<lparr>Bandwidth := Some 7\<rparr>]) new_debug)
         (''unknown_1'', ''dave'', ''Emby Web'', ''Audio'', ''DirectPlay'') = Some 7
   \<and> dbg_total_bandwidth (collect_sessions_debug
         (Response 200 [silent_session\<lparr>sess_Id := Some ''unknown_1'', Bandwidth := Some 5\<rparr>,
                        silent_session\<lparr>Bandwidth := Some 7\<rparr>]) new_debug) = 12"
proof -
  let ?ss = "[news_session, transcode_only_session, idle_session, silent_session]"
  let ?out = "Response 200 ?ss"
  have ok: "\<not> raise_for_status 200" by (simp add: raise_for_status_def)
  have l0: "session_labels_debug 0 (?ss ! 0) = (''s1'', ''alice'', ''Emby Web'', ''Video'', ''Transcode'')"
    and l1: "session_labels_debug 1 (?ss ! 1) = (''s2'', ''bob'', ''Emby Theater'', ''Video'', ''Transcode'')"
    and l2: "NowPlayingItem (?ss ! 2) = None"
    and l3: "session_labels_debug 3 (?ss ! 3) = (''unknown_3'', ''dave'', ''Emby Web'', ''Audio'', ''DirectPlay'')"
    by (simp_all add: session_labels_debug_def news_session_def transcode_only_session_def
        silent_session_def idle_session_def get_str_def str_nat.simps[of 3])
  have b0: "session_bandwidth_debug news_session = 5000000"
    using debug_bandwidth_per_session[OF refl ok, of news_session 5000000 undefined ?ss new_debug 0]
    by (simp add: news_session_def)
  have b1: "session_bandwidth_debug transcode_only_session = 3000000"
    using debug_bandwidth_per_session[OF refl ok, of transcode_only_session 0
        "\<lparr>ti_Bitrate = Some 3000000, ti_Height = Some 720\<rparr>" ?ss new_debug 0]
    by (simp add: transcode_only_session_def)
  have b3: "session_bandwidth_debug silent_session = 0"
    using debug_bandwidth_per_session[OF refl ok, of silent_session 0 undefined ?ss new_debug 0]
    by (simp add: silent_session_def)
  have three: "j < 4 \<Longrightarrow> j = 0 \<or> j = 1 \<or> j = 2 \<or> j = (3::nat)" for j by arith
  have d0: "\<forall>j. 0 < j \<and> j < length ?ss \<and> NowPlayingItem (?ss ! j) \<noteq> None
      \<longrightarrow> session_labels_debug j (?ss ! j) \<noteq> session_labels_debug 0 (?ss ! 0)"
  proof (intro allI impI)
    fix j assume a: "0 < j \<and> j < length ?ss \<and> NowPlayingItem (?ss ! j) \<noteq> None"
    then have "j = 1 \<or> j = 2 \<or> j = 3" using three[of j] by auto
    then show "session_labels_debug j (?ss ! j) \<noteq> session_labels_debug 0 (?ss ! 0)"
      using a l0 l1 l2 l3 by auto
  qed
  have d1: "\<forall>j. 1 < j \<and> j < length ?ss \<and> NowPlayingItem (?ss ! j) \<noteq> None
      \<longrightarrow> session_labels_debug j (?ss ! j) \<noteq> session_labels_debug 1 (?ss ! 1)"
  proof (intro allI impI)
    fix j assume a: "1 < j \<and> j < length ?ss \<and> NowPlayingItem (?ss ! j) \<noteq> None"
    then have "j = 2 \<or> j = 3" using three[of j] by auto
    then show "session_labels_debug j (?ss ! j) \<noteq> session_labels_debug 1 (?ss ! 1)"
      using a l0 l1 l2 l3 by auto
  qed
  have d3: "\<forall>j. 3 < j \<and> j < length ?ss \<and> NowPlayingItem (?ss ! j) \<noteq> None
      \<longrightarrow> session_labels_debug j (?ss ! j) \<noteq> session_labels_debug 3 (?ss ! 3)"
  proof (intro allI impI)
    fix j assume a: "3 < j \<and> j < length ?ss \<and> NowPlayingItem (?ss ! j) \<noteq> None"
    then have "3 < j \<and> j < 4" by simp
    then have False by arith
    then show "session_labels_debug j (?ss ! j) \<noteq> session_labels_debug 3 (?ss ! 3)" ..
  qed
  have np: "NowPlayingItem (?ss ! 0) \<noteq> None" "NowPlayingItem (?ss ! 1) \<noteq> None" "NowPlayingItem (?ss ! 3) \<noteq> None"
    by (simp_all add: news_session_def transcode_only_session_def silent_session_def)
  have total: "dbg_total_bandwidth (collect_sessions_debug ?out new_debug) = 8000000"
    using debug_bandwidth_per_session[OF refl ok, of news_session 0 undefined ?ss new_debug 0] b0 b1 b3 np l2
    by (simp add: idle_session_def news_session_def transcode_only_session_def silent_session_def)
  have v0: "dbg_session_bandwidth (collect_sessions_debug ?out new_debug)
      (session_labels_debug 0 (?ss ! 0)) = Some (max 0 (session_bandwidth_debug (?ss ! 0)))"
    using debug_bandwidth_per_session[OF refl ok, of news_session 0 undefined ?ss new_debug 0] d0 np by simp
  have v1: "dbg_session_bandwidth (collect_sessions_debug ?out new_debug)
      (session_labels_debug 1 (?ss ! 1)) = Some (max 0 (session_bandwidth_debug (?ss ! 1)))"
    using debug_bandwidth_per_session[OF refl ok, of news_session 0 undefined ?ss new_debug 1] d1 np by simp
  have v3: "dbg_session_bandwidth (collect_sessions_debug ?out new_debug)
      (session_labels_debug 3 (?ss ! 3)) = Some (max 0 (session_bandwidth_debug (?ss ! 3)))"
    using debug_bandwidth_per_session[OF refl ok, of news_session 0 undefined ?ss new_debug 3] d3 np by simp
  let ?A = "silent_session\<lparr>sess_Id := Some ''unknown_1'', Bandwidth := Some 5\<rparr>"
    and ?B = "silent_session\<lparr>Bandwidth := Some 7\<rparr>"
  have lab: "session_labels_debug 0 ?A = (''unknown_1'', ''dave'', ''Emby Web'', ''Audio'', ''DirectPlay'')"
    "session_labels_debug 1 ?B = (''unknown_1'', ''dave'', ''Emby Web'', ''Audio'', ''DirectPlay'')"
    by (simp_all add: session_labels_debug_def silent_session_def get_str_def str_nat.simps[of "Suc 0"])
  have bw: "session_bandwidth_debug ?A = 5" "session_bandwidth_debug ?B = 7"
    by (simp_all add: session_bandwidth_debug_def)
  have npAB: "NowPlayingItem ?A \<noteq> None" "NowPlayingItem ?B \<noteq> None"
    by (simp_all add: silent_session_def)
  have dB: "\<forall>j. 1 < j \<and> j < length [?A, ?B] \<and> NowPlayingItem ([?A, ?B] ! j) \<noteq> None
      \<longrightarrow> session_labels_debug j ([?A, ?B] ! j) \<noteq> session_labels_debug 1 ([?A, ?B] ! 1)"
  proof (intro allI impI)
    fix j assume a: "1 < j \<and> j < length [?A, ?B] \<and> NowPlayingItem ([?A, ?B] ! j) \<noteq> None"
    then have "1 < j \<and> j < 2" by simp
    then have False by arith
    then show "session_labels_debug j ([?A, ?B] ! j) \<noteq> session_labels_debug 1 ([?A, ?B] ! 1)" ..
  qed
  have over: "dbg_session_bandwidth (collect_sessions_debug (Response 200 [?A, ?B]) new_debug)
      (session_labels_debug 1 ([?A, ?B] ! 1)) = Some (max 0 (session_bandwidth_debug ([?A, ?B] ! 1)))"
    using debug_bandwidth_per_session[OF refl ok, of news_session 0 undefined "[?A, ?B]" new_debug 1] dB npAB
    by simp
  have total2: "dbg_total_bandwidth (collect_sessions_debug (Response 200 [?A, ?B]) new_debug) = 12"
    using debug_bandwidth_per_session[OF refl ok, of news_session 0 undefined "[?A, ?B]" new_debug 1] bw npAB
    by simp
  have over': "dbg_session_bandwidth (collect_sessions_debug (Response 200 [?A, ?B]) new_debug)
      (''unknown_1'', ''dave'', ''Emby Web'', ''Audio'', ''DirectPlay'') = Some 7"
    using over lab(2) bw(2) by simp
  show ?thesis
    using ok b0 b1 b3 total v0 v1 v3 lab over' total2 unfolding l0 l1 l3 by simp
qed

text \<open>
  The other exporters. In \<^verbatim>\<open>emby_exporter_fixed.py\<close> the transcode at 3 Mbit/s without
  \<^verbatim>\<open>Bandwidth\<close> gets the series value 0, and the streaming session without
  \<^verbatim>\<open>PlayState\<close> gets no series and adds nothing to the total. In
  \<^verbatim>\<open>emby_livetv_ultimate.py\<close> a live session without \<^verbatim>\<open>TranscodingInfo\<close> gets no
  series and adds nothing, whatever its \<^verbatim>\<open>Bandwidth\<close>.
\<close>

theorem bandwidth_not_derived_counterexample:
  "active_streams (collect_sessions_fixed (Response 200 [transcode_only_session, stateless_session]) new_fixed) = 2
   \<and> session_bandwidth (collect_sessions_fixed (Response 200 [transcode_only_session, stateless_session]) new_fixed)
        (''s2'', ''bob'', ''Emby Theater'') = Some 0
   \<and> session_bandwidth (collect_sessions_fixed (Response 200 [transcode_only_session, stateless_session]) new_fixed)
        (''s3'', ''carol'', ''Emby Web'') = None
   \<and> total_bandwidth (collect_sessions_fixed (Response 200 [transcode_only_session, stateless_session]) new_fixed) = 0
   \<and> streams_active (snd (collect_sessions
        (server_down\<lparr>env_sessions := Response 200 [news_session\<lparr>TranscodingInfo := None\<rparr>]\<rparr>) new_exporter)) = 1
   \<and> stream_bitrate (snd (collect_sessions
        (server_down\<lparr>env_sessions := Response 200 [news_session\<lparr>TranscodingInfo := None\<rparr>]\<rparr>) new_exporter))
        (''alice'', ''News24'', ''s1'') = None
   \<and> stream_bandwidth_total (snd (collect_sessions
        (server_down\<lparr>env_sessions := Response 200 [news_session\<lparr>TranscodingInfo := None\<rparr>]\<rparr>) new_exporter)) = 0"
proof -
  have f: "active_streams (collect_sessions_fixed (Response 200 [transcode_only_session, stateless_session]) new_fixed) = 2
   \<and> session_bandwidth (collect_sessions_fixed (Response 200 [transcode_only_session, stateless_session]) new_fixed)
        (''s2'', ''bob'', ''Emby Theater'') = Some 0
   \<and> session_bandwidth (collect_sessions_fixed (Response 200 [transcode_only_session, stateless_session]) new_fixed)
        (''s3'', ''carol'', ''Emby Web'') = None
   \<and> total_bandwidth (collect_sessions_fixed (Response 200 [transcode_only_session, stateless_session]) new_fixed) = 0"
    by (simp add: collect_sessions_fixed_def make_request_fixed_def raise_for_status_def
        transcode_only_session_def stateless_session_def session_step_fixed_def get_str_def
        new_fixed_def Let_def)
  have u: "streams_active (snd (collect_sessions
        (server_down\<lparr>env_sessions := Response 200 [news_session\<lparr>TranscodingInfo := None\<rparr>]\<rparr>) new_exporter)) = 1
   \<and> stream_bitrate (snd (collect_sessions
        (server_down\<lparr>env_sessions := Response 200 [news_session\<lparr>TranscodingInfo := None\<rparr>]\<rparr>) new_exporter))
        (''alice'', ''News24'', ''s1'') = None
   \<and> stream_bandwidth_total (snd (collect_sessions
        (server_down\<lparr>env_sessions := Response 200 [news_session\<lparr>TranscodingInfo := None\<rparr>]\<rparr>) new_exporter)) = 0"
    by (simp add: collect_sessions_def make_request_def raise_for_status_def
      server_down_def news_session_def session_step_def track_channel_switch_def
      track_watch_time_def track_bitrate_def time_time_def get_str_def bump_def new_exporter_def
      set_session_gauges_def Let_def)
  from f u show ?thesis by simp
qed

section \<open>Session tracking: watch time and channel switches\<close>

text \<open>The tracking state after one pass of the loop, for every accumulator.\<close>

lemma session_step_fields:
  assumes "is_livetv s"
  shows "last_channel_switch (snd (snd (session_step env a s)))
           = last_channel_switch (track_channel_switch env (user_of s) (channel_of s) (snd a))"
    and "user_channel_switches (snd (snd (session_step env a s)))
           = user_channel_switches (track_channel_switch env (user_of s) (channel_of s) (snd a))"
    and "channel_watch_start (snd (snd (session_step env a s)))
           = channel_watch_start (snd (track_watch_time env (id_of s) (user_of s) (channel_of s)
               (track_channel_switch env (user_of s) (channel_of s) (snd a))))"
    and "user_watch_time (snd (snd (session_step env a s)))
           = user_watch_time (snd (track_watch_time env (id_of s) (user_of s) (channel_of s)
               (track_channel_switch env (user_of s) (channel_of s) (snd a))))"
    and "ticks (snd (snd (session_step env a s)))
           = ticks (snd (track_watch_time env (id_of s) (user_of s) (channel_of s)
               (track_channel_switch env (user_of s) (channel_of s) (snd a))))"
    and "fst (session_step env a s)
           = fst (track_watch_time env (id_of s) (user_of s) (channel_of s)
               (track_channel_switch env (user_of s) (channel_of s) (snd a)))"
  using session_step_livetv[OF assms, of env "fst a" "snd a"] by simp_all

lemma session_step_skips:
  "\<not> is_livetv s \<Longrightarrow> snd (snd (session_step env a s)) = snd a"
  "\<not> is_livetv s \<Longrightarrow> fst (session_step env a s) = None"
  by (cases a; simp add: session_step_not_livetv)+

text \<open>The loop, one session at a time: it goes on after a pass that does not raise and
  ends with a pass that does.\<close>

lemma sessions_loop_Cons:
  "sessions_loop env a (s # ss)
     = (if fst (session_step env a s) = None then sessions_loop env (snd (session_step env a s)) ss
        else session_step env a s)"
  by (cases "session_step env a s"; cases "fst (session_step env a s)") auto

declare sessions_loop.simps(2) [simp del]

text \<open>Outside the loop, \<^verbatim>\<open>collect_sessions\<close> leaves the tracking state alone.\<close>

lemma set_session_gauges_tracking:
  "last_channel_switch (set_session_gauges loc st) = last_channel_switch st"
  "user_channel_switches (set_session_gauges loc st) = user_channel_switches st"
  "channel_watch_start (set_session_gauges loc st) = channel_watch_start st"
  "user_watch_time (set_session_gauges loc st) = user_watch_time st"
  "ticks (set_session_gauges loc st) = ticks st"
  by (simp_all add: set_session_gauges_def Let_def)

lemma set_streams_by_channel_tracking:
  "last_channel_switch (snd (set_streams_by_channel cv st)) = last_channel_switch st
   \<and> user_channel_switches (snd (set_streams_by_channel cv st)) = user_channel_switches st
   \<and> channel_watch_start (snd (set_streams_by_channel cv st)) = channel_watch_start st
   \<and> user_watch_time (snd (set_streams_by_channel cv st)) = user_watch_time st
   \<and> ticks (snd (set_streams_by_channel cv st)) = ticks st"
  by (induction cv st rule: set_streams_by_channel.induct) (simp_all split: list.splits)

text \<open>The tracking state after \<^verbatim>\<open>collect_sessions\<close> is the tracking state after the
  loop over the sessions that \<^verbatim>\<open>/Sessions\<close> returned, whether the loop raised or not.\<close>

lemma collect_sessions_tracking_eq:
  "last_channel_switch (snd (collect_sessions env st))
     = last_channel_switch (snd (snd (sessions_loop env
         (fresh_locals, snd (make_request ''/Sessions'' (env_sessions env) st)) (sessions_returned env))))"
  "user_channel_switches (snd (collect_sessions env st))
     = user_channel_switches (snd (snd (sessions_loop env
         (fresh_locals, snd (make_request ''/Sessions'' (env_sessions env) st)) (sessions_returned env))))"
  "channel_watch_start (snd (collect_sessions env st))
     = channel_watch_start (snd (snd (sessions_loop env
         (fresh_locals, snd (make_request ''/Sessions'' (env_sessions env) st)) (sessions_returned env))))"
  "user_watch_time (snd (collect_sessions env st))
     = user_watch_time (snd (snd (sessions_loop env
         (fresh_locals, snd (make_request ''/Sessions'' (env_sessions env) st)) (sessions_returned env))))"
  "ticks (snd (collect_sessions env st))
     = ticks (snd (snd (sessions_loop env
         (fresh_locals, snd (make_request ''/Sessions'' (env_sessions env) st)) (sessions_returned env))))"
proof -
  obtain r st1 where mr: "make_request ''/Sessions'' (env_sessions env) st = (r, st1)"
    by (cases "make_request ''/Sessions'' (env_sessions env) st")
  have r: "r = returned (env_sessions env)"
    using fst_make_request[of "''/Sessions''" "env_sessions env" st] mr by simp
  have ss: "sessions_returned env = (case r of None \<Rightarrow> [] | Some ss \<Rightarrow> ss)"
    by (simp add: sessions_returned_def r)
  obtain x loc st2 where f: "sessions_loop env (fresh_locals, st1) (sessions_returned env) = (x, loc, st2)"
    by (cases "sessions_loop env (fresh_locals, st1) (sessions_returned env)") auto
  have res: "snd (collect_sessions env st) =
      (if sessions_returned env = [] then st1
       else if x = None then snd (set_streams_by_channel (channel_viewers loc) (set_session_gauges loc st2))
       else st2)"
    using f unfolding ss fresh_locals_def
    by (cases x) (simp_all add: collect_sessions_def mr split: option.splits)
  have st2: "sessions_returned env = [] \<Longrightarrow> st2 = st1" using f by simp
  have all: "last_channel_switch (snd (collect_sessions env st)) = last_channel_switch st2
     \<and> user_channel_switches (snd (collect_sessions env st)) = user_channel_switches st2
     \<and> channel_watch_start (snd (collect_sessions env st)) = channel_watch_start st2
     \<and> user_watch_time (snd (collect_sessions env st)) = user_watch_time st2
     \<and> ticks (snd (collect_sessions env st)) = ticks st2"
    using res st2 set_streams_by_channel_tracking[of "channel_viewers loc" "set_session_gauges loc st2"]
    by (simp add: set_session_gauges_tracking)
  show "last_channel_switch (snd (collect_sessions env st))
     = last_channel_switch (snd (snd (sessions_loop env (fresh_locals, snd (make_request ''/Sessions'' (env_sessions env) st)) (sessions_returned env))))"
    and "user_channel_switches (snd (collect_sessions env st))
     = user_channel_switches (snd (snd (sessions_loop env (fresh_locals, snd (make_request ''/Sessions'' (env_sessions env) st)) (sessions_returned env))))"
    and "channel_watch_start (snd (collect_sessions env st))
     = channel_watch_start (snd (snd (sessions_loop env (fresh_locals, snd (make_request ''/Sessions'' (env_sessions env) st)) (sessions_returned env))))"
    and "user_watch_time (snd (collect_sessions env st))
     = user_watch_time (snd (snd (sessions_loop env (fresh_locals, snd (make_request ''/Sessions'' (env_sessions env) st)) (sessions_returned env))))"
    and "ticks (snd (collect_sessions env st))
     = ticks (snd (snd (sessions_loop env (fresh_locals, snd (make_request ''/Sessions'' (env_sessions env) st)) (sessions_returned env))))"
    using all f by (simp_all add: mr)
qed













text \<open>Evaluating the tracking state of concrete cycles.\<close>

lemmas tracking_eval =
  collect_sessions_tracking_eq sessions_loop_Cons session_step_fields session_step_skips
  track_channel_switch_fields track_watch_time_fields track_watch_time_raises make_request_tracking
  sessions_returned_def returned_def raise_for_status_def sessions_are_def server_down_def
  watching_def is_livetv_def user_of_def channel_of_def id_of_def get_str_def



text \<open>
  Claim C2, as the code has it, for one pass of the loop over a Live TV session \<open>s\<close>;
  \<open>snd a\<close> is the exporter before the pass. The clock is read once for the switch
  tracking and once more for the watch time. If the anchor stored for the session id is
  on the channel now observed and the second reading is not less than the start of the
  anchor, the watch time of (user, channel) grows by the second reading minus that start;
  if the second reading is less, the counter refuses the negative amount, the pass raises
  \<^verbatim>\<open>ValueError\<close> and no watch time changes. If the anchor is on another channel, no watch
  time changes. In these three cases no anchor changes. If no anchor is stored for the
  session id, one is created for the channel observed, starting at the second reading.
  The switch count of the user grows by 1 if the channel last recorded for the user
  differs from the channel observed, and stays as it is if it is the same or none is
  recorded; the channel observed is then recorded for the user.
\<close>

theorem watch_time_and_switches:
  assumes "is_livetv s"
  shows "(channel_watch_start (snd a) (id_of s) = Some (u0, channel_of s, t0)
            \<and> t0 \<le> env_time env (Suc (ticks (snd a))) \<longrightarrow>
            fst (session_step env a s) = None
            \<and> user_watch_time (snd (snd (session_step env a s))) (user_of s, channel_of s)
              = user_watch_time (snd a) (user_of s, channel_of s) + (env_time env (Suc (ticks (snd a))) - t0)
            \<and> channel_watch_start (snd (snd (session_step env a s))) = channel_watch_start (snd a))
     \<and> (channel_watch_start (snd a) (id_of s) = Some (u0, channel_of s, t0)
            \<and> env_time env (Suc (ticks (snd a))) < t0 \<longrightarrow>
            fst (session_step env a s) = Some ValueError
            \<and> user_watch_time (snd (snd (session_step env a s))) = user_watch_time (snd a)
            \<and> channel_watch_start (snd (snd (session_step env a s))) = channel_watch_start (snd a))
     \<and> (channel_watch_start (snd a) (id_of s) = Some (u0, c0, t0) \<and> c0 \<noteq> channel_of s \<longrightarrow>
            fst (session_step env a s) = None
            \<and> user_watch_time (snd (snd (session_step env a s))) = user_watch_time (snd a)
            \<and> channel_watch_start (snd (snd (session_step env a s))) = channel_watch_start (snd a))
     \<and> (channel_watch_start (snd a) (id_of s) = None \<longrightarrow>
            fst (session_step env a s) = None
            \<and> user_watch_time (snd (snd (session_step env a s))) = user_watch_time (snd a)
            \<and> channel_watch_start (snd (snd (session_step env a s)))
              = (channel_watch_start (snd a))(id_of s \<mapsto> (user_of s, channel_of s, env_time env (Suc (ticks (snd a))))))
     \<and> (last_channel_switch (snd a) (user_of s) = Some (c, t) \<and> c \<noteq> channel_of s \<longrightarrow>
            user_channel_switches (snd (snd (session_step env a s))) (user_of s)
              = user_channel_switches (snd a) (user_of s) + 1)
     \<and> (last_channel_switch (snd a) (user_of s) = Some (channel_of s, t) \<longrightarrow>
            user_channel_switches (snd (snd (session_step env a s))) = user_channel_switches (snd a))
     \<and> (last_channel_switch (snd a) (user_of s) = None \<longrightarrow>
            user_channel_switches (snd (snd (session_step env a s))) = user_channel_switches (snd a))
     \<and> last_channel_switch (snd (snd (session_step env a s))) (user_of s)
          = Some (channel_of s, env_time env (ticks (snd a)))"
  by (simp add: session_step_fields[OF assms] track_channel_switch_fields track_watch_time_fields
      track_watch_time_raises not_le)

text \<open>alice stays on News24 with session s1 for three cycles. The anchor is made in
  the first cycle, at the reading 1010; the second cycle adds 1030 - 1010 and the third
  1050 - 1010, and the anchor stays where it was. Were the clock to read 0 after the
  first cycle, the pass over s1 would raise and add nothing.\<close>

theorem watch_time_and_switches_witness:
  "is_livetv (watching ''s1'' ''alice'' ''News24'')
   \<and> channel_watch_start (session_cycles [sessions_are [watching ''s1'' ''alice'' ''News24'']] new_exporter) ''s1''
       = Some (''alice'', ''News24'', 1010)
   \<and> fst (session_step (sessions_are [watching ''s1'' ''alice'' ''News24''])
         (fresh_locals, session_cycles [sessions_are [watching ''s1'' ''alice'' ''News24'']] new_exporter)
         (watching ''s1'' ''alice'' ''News24'')) = None
   \<and> user_watch_time (snd (snd (session_step (sessions_are [watching ''s1'' ''alice'' ''News24''])
         (fresh_locals, session_cycles [sessions_are [watching ''s1'' ''alice'' ''News24'']] new_exporter)
         (watching ''s1'' ''alice'' ''News24'')))) (''alice'', ''News24'') = 20
   \<and> channel_watch_start (snd (snd (session_step (sessions_are [watching ''s1'' ''alice'' ''News24''])
         (fresh_locals, session_cycles [sessions_are [watching ''s1'' ''alice'' ''News24'']] new_exporter)
         (watching ''s1'' ''alice'' ''News24'')))) ''s1'' = Some (''alice'', ''News24'', 1010)
   \<and> fst (session_step ((sessions_are [watching ''s1'' ''alice'' ''News24''])\<lparr>env_time := (\<lambda>n. 0)\<rparr>)
         (fresh_locals, session_cycles [sessions_are [watching ''s1'' ''alice'' ''News24'']] new_exporter)
         (watching ''s1'' ''alice'' ''News24'')) = Some ValueError
   \<and> user_watch_time (snd (snd (session_step ((sessions_are [watching ''s1'' ''alice'' ''News24''])\<lparr>env_time := (\<lambda>n. 0)\<rparr>)
         (fresh_locals, session_cycles [sessions_are [watching ''s1'' ''alice'' ''News24'']] new_exporter)
         (watching ''s1'' ''alice'' ''News24'')))) (''alice'', ''News24'') = 0
   \<and> user_watch_time (session_cycles
         [sessions_are [watching ''s1'' ''alice'' ''News24''], sessions_are [watching ''s1'' ''alice'' ''News24''],
          sessions_are [watching ''s1'' ''alice'' ''News24'']] new_exporter) (''alice'', ''News24'') = 60
   \<and> channel_watch_start (session_cycles
         [sessions_are [watching ''s1'' ''alice'' ''News24''], sessions_are [watching ''s1'' ''alice'' ''News24''],
          sessions_are [watching ''s1'' ''alice'' ''News24'']] new_exporter) ''s1'' = Some (''alice'', ''News24'', 1010)
   \<and> user_channel_switches (session_cycles
         [sessions_are [watching ''s1'' ''alice'' ''News24''], sessions_are [watching ''s1'' ''alice'' ''News24''],
          sessions_are [watching ''s1'' ''alice'' ''News24'']] new_exporter) ''alice'' = 0"
proof -
  let ?s = "watching ''s1'' ''alice'' ''News24''"
  let ?env = "sessions_are [?s]"
  let ?behind = "?env\<lparr>env_time := (\<lambda>n. 0)\<rparr>"
  let ?st1 = "session_cycles [?env] new_exporter"
  have l: "is_livetv ?s" by (simp add: is_livetv_def watching_def)
  have ids: "id_of ?s = ''s1''" "user_of ?s = ''alice''" "channel_of ?s = ''News24''"
    by (simp_all add: id_of_def user_of_def channel_of_def watching_def get_str_def)
  have anchor: "channel_watch_start ?st1 ''s1'' = Some (''alice'', ''News24'', 1010)"
    by (simp add: tracking_eval new_exporter_def)
  have st1: "ticks ?st1 = 2" "user_watch_time ?st1 (''alice'', ''News24'') = 0"
    by (simp_all add: tracking_eval new_exporter_def)
  have step: "fst (session_step ?env (fresh_locals, ?st1) ?s) = None
      \<and> user_watch_time (snd (snd (session_step ?env (fresh_locals, ?st1) ?s))) (''alice'', ''News24'') = 20
      \<and> channel_watch_start (snd (snd (session_step ?env (fresh_locals, ?st1) ?s))) ''s1'' = Some (''alice'', ''News24'', 1010)"
    using watch_time_and_switches[OF l, of "(fresh_locals, ?st1)" "''alice''" 1010 ?env "''x''" "''x''" 0] anchor st1
    unfolding ids by (simp add: sessions_are_def)
  have neg: "fst (session_step ?behind (fresh_locals, ?st1) ?s) = Some ValueError
      \<and> user_watch_time (snd (snd (session_step ?behind (fresh_locals, ?st1) ?s))) (''alice'', ''News24'') = 0"
    using watch_time_and_switches[OF l, of "(fresh_locals, ?st1)" "''alice''" 1010 ?behind "''x''" "''x''" 0] anchor st1
    unfolding ids by (simp add: sessions_are_def)
  have three: "user_watch_time (session_cycles [?env, ?env, ?env] new_exporter) (''alice'', ''News24'') = 60"
    "channel_watch_start (session_cycles [?env, ?env, ?env] new_exporter) ''s1'' = Some (''alice'', ''News24'', 1010)"
    "user_channel_switches (session_cycles [?env, ?env, ?env] new_exporter) ''alice'' = 0"
    by (simp_all add: tracking_eval new_exporter_def)
  show ?thesis using l anchor step neg three by simp
qed

text \<open>
  Where the claim fails. Session s1 of alice is on News24, then on Sports1 for two
  cycles: the anchor of s1 stays on News24 and no watch time is counted for Sports1. And
  with a second session s2 of alice on Sports1 all along, the change of s1 from News24
  to Sports1 is not counted as a switch: the count is 1 before the cycle and 1 after it.
\<close>

theorem channel_change_counterexample:
  "channel_watch_start (session_cycles
       [sessions_are [watching ''s1'' ''alice'' ''News24''], sessions_are [watching ''s1'' ''alice'' ''Sports1'']]
       new_exporter) ''s1'' = Some (''alice'', ''News24'', 1010)
   \<and> user_watch_time (session_cycles
       [sessions_are [watching ''s1'' ''alice'' ''News24''], sessions_are [watching ''s1'' ''alice'' ''Sports1''],
        sessions_are [watching ''s1'' ''alice'' ''Sports1'']]
       new_exporter) (''alice'', ''Sports1'') = 0
   \<and> user_channel_switches (session_cycles
       [sessions_are [watching ''s1'' ''alice'' ''News24'', watching ''s2'' ''alice'' ''Sports1'']]
       new_exporter) ''alice'' = 1
   \<and> user_channel_switches (session_cycles
       [sessions_are [watching ''s1'' ''alice'' ''News24'', watching ''s2'' ''alice'' ''Sports1''],
        sessions_are [watching ''s1'' ''alice'' ''Sports1'', watching ''s2'' ''alice'' ''Sports1'']]
       new_exporter) ''alice'' = 1"
  by (simp add: tracking_eval new_exporter_def)

text \<open>
  The passes the hypothesis on the clock leaves out. bob's session s0 is anchored at the
  reading 1010; in the next cycle the clock reads 0 and s0 comes first in the list, before
  the two sessions of alice. The pass over s0 raises \<^verbatim>\<open>ValueError\<close>, the loop ends there,
  \<^verbatim>\<open>collect_sessions\<close> raises, and no switch of alice is counted.
\<close>

lemma collect_sessions_loop_raises:
  assumes "fst (sessions_loop env (fresh_locals, snd (make_request ''/Sessions'' (env_sessions env) st))
             (sessions_returned env)) = Some e"
  shows "fst (collect_sessions env st) = Some e"
proof -
  obtain r st1 where mr: "make_request ''/Sessions'' (env_sessions env) st = (r, st1)"
    by (cases "make_request ''/Sessions'' (env_sessions env) st")
  have r: "r = returned (env_sessions env)"
    using fst_make_request[of "''/Sessions''" "env_sessions env" st] mr by simp
  have ss: "sessions_returned env = (case r of None \<Rightarrow> [] | Some ss \<Rightarrow> ss)"
    by (simp add: sessions_returned_def r)
  obtain loc st2 where f: "sessions_loop env (fresh_locals, st1) (sessions_returned env) = (Some e, loc, st2)"
    using assms mr by (cases "sessions_loop env (fresh_locals, st1) (sessions_returned env)") auto
  have "sessions_returned env \<noteq> []"
    using f by auto
  then show ?thesis
    using f unfolding ss fresh_locals_def
    by (simp add: collect_sessions_def mr split: option.splits)
qed

lemma clock_stepped_back_ends_the_loop:
  "fst (collect_sessions
          ((sessions_are [watching ''s0'' ''bob'' ''News24'', watching ''s1'' ''alice'' ''News24'',
                          watching ''s2'' ''alice'' ''Sports1''])\<lparr>env_time := (\<lambda>n. 0)\<rparr>)
          (session_cycles [sessions_are [watching ''s0'' ''bob'' ''News24'']] new_exporter)) = Some ValueError
   \<and> user_channel_switches (snd (collect_sessions
          ((sessions_are [watching ''s0'' ''bob'' ''News24'', watching ''s1'' ''alice'' ''News24'',
                          watching ''s2'' ''alice'' ''Sports1''])\<lparr>env_time := (\<lambda>n. 0)\<rparr>)
          (session_cycles [sessions_are [watching ''s0'' ''bob'' ''News24'']] new_exporter))) ''alice'' = 0"
proof -
  let ?env = "(sessions_are [watching ''s0'' ''bob'' ''News24'', watching ''s1'' ''alice'' ''News24'',
                          watching ''s2'' ''alice'' ''Sports1''])\<lparr>env_time := (\<lambda>n. 0)\<rparr>"
  let ?st = "session_cycles [sessions_are [watching ''s0'' ''bob'' ''News24'']] new_exporter"
  have "fst (sessions_loop ?env (fresh_locals, snd (make_request ''/Sessions'' (env_sessions ?env) ?st))
             (sessions_returned ?env)) = Some ValueError"
    by (simp add: tracking_eval new_exporter_def)
  then have "fst (collect_sessions ?env ?st) = Some ValueError"
    by (rule collect_sessions_loop_raises)
  moreover have "user_channel_switches (snd (collect_sessions ?env ?st)) ''alice'' = 0"
    by (simp add: tracking_eval new_exporter_def)
  ultimately show ?thesis by simp
qed

section \<open>Timestamps\<close>

lemma is_digit_not_sign: "is_digit c \<Longrightarrow> \<not> is_sign c"
  by (auto simp: is_digit_def is_sign_def)

lemma is_digit_not_Z: "is_digit c \<Longrightarrow> c \<noteq> CHR ''Z''"
  by (auto simp: is_digit_def)

lemma is_sign_not_digit: "is_sign c \<Longrightarrow> \<not> is_digit c"
  by (auto simp: is_digit_def is_sign_def)

lemma matches_length: "matches ps s \<Longrightarrow> length s = length ps"
  by (induction ps s rule: matches.induct) simp_all

lemma matches_Cons:
  "matches (p # ps) s \<longleftrightarrow>
     (\<exists>c cs. s = c # cs \<and> (case p of D \<Rightarrow> is_digit c | Sign \<Rightarrow> is_sign c | L x \<Rightarrow> c = x) \<and> matches ps cs)"
  by (cases s; cases p) simp_all

lemma matches_Nil: "matches [] s \<longleftrightarrow> s = []"
  by (cases s) simp_all

lemma matches_digits:
  "matches (replicate n D) xs \<longleftrightarrow> length xs = n \<and> list_all is_digit xs"
proof (induction n arbitrary: xs)
  case 0
  show ?case by (auto simp: matches_Nil)
next
  case (Suc n)
  show ?case by (cases xs) (auto simp: Suc)
qed

lemma matches_six_digits:
  "matches [D, D, D, D, D, D] xs \<longleftrightarrow> length xs = 6 \<and> list_all is_digit xs"
  using matches_digits[of 6 xs] by (simp add: numeral_eq_Suc)

text \<open>A string of the form \<^verbatim>\<open>dddd-dd-ddTdd:dd:dd\<close>, character by character.\<close>

lemma base_time_chars:
  assumes "matches base_time_pat dt"
  obtains y1 y2 y3 y4 m1 m2 d1 d2 h1 h2 n1 n2 s1 s2 where
    "dt = [y1, y2, y3, y4, CHR ''-'', m1, m2, CHR ''-'', d1, d2, CHR ''T'',
           h1, h2, CHR '':'', n1, n2, CHR '':'', s1, s2]"
    "is_digit y1" "is_digit y2" "is_digit y3" "is_digit y4" "is_digit m1" "is_digit m2"
    "is_digit d1" "is_digit d2" "is_digit h1" "is_digit h2" "is_digit n1" "is_digit n2"
    "is_digit s1" "is_digit s2"
  using assms unfolding base_time_pat_def
  by (auto simp: matches_Cons matches_Nil)

lemma offset_chars:
  assumes "matches [Sign, D, D, L CHR '':'', D, D] off"
  obtains sg a b c d where
    "off = [sg, a, b, CHR '':'', c, d]" "is_sign sg" "is_digit a" "is_digit b" "is_digit c" "is_digit d"
  using assms by (auto simp: matches_Cons matches_Nil)

text \<open>The regular expression on a timestamp with at least six fractional digits and an
  offset, \<^verbatim>\<open>Z\<close> or nothing behind them: group 1 is the date and time, group 2 the first
  six digits, group 3 the suffix.\<close>

lemma list_all_take: "list_all P xs \<Longrightarrow> list_all P (take n xs)"
  by (auto simp: list_all_iff dest: in_set_takeD)

lemma list_all_drop: "list_all P xs \<Longrightarrow> list_all P (drop n xs)"
  by (auto simp: list_all_iff dest: in_set_dropD)

lemma dropWhile_digits_suffix:
  assumes "list_all is_digit ds" and "off = [] \<or> \<not> is_digit (hd off)"
  shows "dropWhile is_digit (ds @ off) = off"
proof -
  have "dropWhile is_digit (ds @ off) = dropWhile is_digit off"
    using assms(1) by (intro dropWhile_append2) (simp add: list_all_iff)
  also have "\<dots> = off" using assms(2) by (cases off) auto
  finally show ?thesis .
qed

lemma re_match_timestamp:
  assumes "matches base_time_pat dt" and "list_all is_digit fs" and "6 \<le> length fs"
    and "off = [] \<or> off = ''Z'' \<or> matches [Sign, D, D, L CHR '':'', D, D] off"
  shows "re_match (dt @ ''.'' @ fs @ off) = Some (dt, take 6 fs, if off = [] then None else Some off)"
proof -
  have len: "length dt = 19"
    using matches_length[OF assms(1)] by (simp add: base_time_pat_def)
  have base: "take 19 (dt @ ''.'' @ fs @ off) = dt" using len by simp
  have rest: "drop 19 (dt @ ''.'' @ fs @ off) = ''.'' @ fs @ off" using len by simp
  have micro: "take 6 (drop 1 (''.'' @ fs @ off)) = take 6 fs" using assms(3) by simp
  have six: "matches [D, D, D, D, D, D] (take 6 fs)"
    using assms(2,3) by (simp add: matches_six_digits list_all_take)
  have nd: "off = [] \<or> \<not> is_digit (hd off)"
    using assms(4)
  proof (elim disjE)
    assume "matches [Sign, D, D, L CHR '':'', D, D] off"
    then show ?thesis by (auto simp: matches_Cons is_sign_not_digit)
  qed (auto simp: is_digit_def)
  have tail: "dropWhile is_digit (drop 7 (''.'' @ fs @ off)) = off"
    using dropWhile_digits_suffix[OF list_all_drop[OF assms(2), of 6] nd] assms(3) by simp
  have g3: "(if matches [Sign, D, D, L CHR '':'', D, D] (take 6 off) then Some (take 6 off)
             else if take 1 off = ''Z'' then Some ''Z'' else None)
            = (if off = [] then None else Some off)"
    using assms(4)
  proof (elim disjE)
    assume m: "matches [Sign, D, D, L CHR '':'', D, D] off"
    then have "length off = 6" using matches_length[OF m] by simp
    then show ?thesis using m by auto
  qed (auto simp: is_sign_def)
  show ?thesis
    unfolding re_match_def Let_def base rest micro tail g3
    using assms(1) six by simp
qed

text \<open>The model of \<^verbatim>\<open>datetime.fromisoformat\<close> on the time of day and the offset.\<close>

lemma parse_isoformat_time_naive:
  assumes "list_all (\<lambda>c. \<not> is_sign c) pre"
  shows "parse_isoformat_time pre
     = (case parse_hh_mm_ss_ff pre of None \<Rightarrow> None | Some tc \<Rightarrow> Some (tc, None))"
proof -
  have tw: "takeWhile (\<lambda>c. \<not> is_sign c) pre = pre"
    and dw: "dropWhile (\<lambda>c. \<not> is_sign c) pre = []"
    using assms by (simp_all add: list_all_iff)
  show ?thesis unfolding parse_isoformat_time_def tw dw by (simp split: option.splits)
qed

lemma parse_isoformat_time_offset:
  assumes "list_all (\<lambda>c. \<not> is_sign c) pre" and "is_sign sg"
  shows "parse_isoformat_time (pre @ sg # tz)
     = (case parse_hh_mm_ss_ff pre of
          None \<Rightarrow> None
        | Some tc \<Rightarrow>
            if length tz \<noteq> 5 \<and> length tz \<noteq> 8 \<and> length tz \<noteq> 15 then None
            else (case parse_hh_mm_ss_ff tz of
                    None \<Rightarrow> None
                  | Some (h, m, sec, us) \<Rightarrow>
                      (let td = (int h * 3600 + int m * 60 + int sec) * 1000000 + int us;
                           offset = (if sg = CHR ''-'' then - td else td)
                       in if td < 24 * 3600 * 1000000 then Some (tc, Some offset) else None)))"
proof -
  have "takeWhile (\<lambda>c. \<not> is_sign c) (pre @ sg # tz) = pre"
    using assms by (simp add: list_all_iff)
  moreover have "dropWhile (\<lambda>c. \<not> is_sign c) (pre @ sg # tz) = sg # tz"
    using assms by (simp add: list_all_iff)
  ultimately show ?thesis by (simp add: parse_isoformat_time_def cong: option.case_cong)
qed

lemma parse_digits_digits: "cs \<noteq> [] \<Longrightarrow> list_all is_digit cs \<Longrightarrow> parse_digits cs = Some (digits_val cs)"
  by (simp add: parse_digits_def)

lemma parse_hh_mm_ss:
  assumes "is_digit h1" "is_digit h2" "is_digit n1" "is_digit n2" "is_digit s1" "is_digit s2"
  shows "parse_hh_mm_ss_ff [h1, h2, CHR '':'', n1, n2, CHR '':'', s1, s2]
     = Some (digits_val [h1, h2], digits_val [n1, n2], digits_val [s1, s2], 0)"
  using assms by (simp add: parse_hh_mm_ss_ff_def parse_digits_digits)

lemma parse_hh_mm_ss_ffffff:
  assumes "is_digit h1" "is_digit h2" "is_digit n1" "is_digit n2" "is_digit s1" "is_digit s2"
    and "list_all is_digit f6" and "length f6 = 6"
  shows "parse_hh_mm_ss_ff ([h1, h2, CHR '':'', n1, n2, CHR '':'', s1, s2] @ ''.'' @ f6)
     = Some (digits_val [h1, h2], digits_val [n1, n2], digits_val [s1, s2], digits_val f6)"
proof -
  have "f6 \<noteq> []" using assms(8) by auto
  then show ?thesis
    using assms by (simp add: parse_hh_mm_ss_ff_def parse_digits_digits)
qed

lemma parse_hh_mm_ss_too_long:
  assumes "7 \<le> length fs"
  shows "parse_hh_mm_ss_ff ([h1, h2, CHR '':'', n1, n2, CHR '':'', s1, s2] @ ''.'' @ fs) = None"
  using assms by (simp add: parse_hh_mm_ss_ff_def)

lemma parse_hh_mm:
  assumes "is_digit a" "is_digit b" "is_digit c" "is_digit d"
  shows "parse_hh_mm_ss_ff [a, b, CHR '':'', c, d] = Some (digits_val [a, b], digits_val [c, d], 0, 0)"
  using assms by (simp add: parse_hh_mm_ss_ff_def parse_digits_digits)

text \<open>The model of \<^verbatim>\<open>datetime.fromisoformat\<close> on a string that starts with a date and time
  of the form \<^verbatim>\<open>dddd-dd-ddTdd:dd:dd\<close>: the date is read off the first ten characters,
  the rest goes to the time of day and the offset.\<close>

lemma fromisoformat_after_date:
  assumes "is_digit y1" "is_digit y2" "is_digit y3" "is_digit y4" "is_digit m1" "is_digit m2"
    "is_digit d1" "is_digit d2"
  shows "fromisoformat ([y1, y2, y3, y4, CHR ''-'', m1, m2, CHR ''-'', d1, d2, sep] @ tm @ r)
     = (case (if tm @ r = [] then None else parse_isoformat_time (tm @ r)) of
          None \<Rightarrow> Inl ValueError
        | Some ((h, mi, sec, us), tz) \<Rightarrow>
            if 1 \<le> digits_val [y1, y2, y3, y4] \<and> digits_val [y1, y2, y3, y4] \<le> 9999
               \<and> 1 \<le> digits_val [m1, m2] \<and> digits_val [m1, m2] \<le> 12
               \<and> 1 \<le> digits_val [d1, d2]
               \<and> digits_val [d1, d2] \<le> days_in_month (digits_val [y1, y2, y3, y4]) (digits_val [m1, m2])
               \<and> h < 24 \<and> mi < 60 \<and> sec < 60
            then Inr \<lparr>dt_year = digits_val [y1, y2, y3, y4], dt_month = digits_val [m1, m2],
                     dt_day = digits_val [d1, d2], dt_hour = h, dt_minute = mi,
                     dt_second = sec, dt_microsecond = us, dt_utcoffset = tz\<rparr>
            else Inl ValueError)"
proof -
  have date: "parse_isoformat_date [y1, y2, y3, y4, CHR ''-'', m1, m2, CHR ''-'', d1, d2]
      = Some (digits_val [y1, y2, y3, y4], digits_val [m1, m2], digits_val [d1, d2])"
    using assms by (simp add: parse_isoformat_date_def parse_digits_digits)
  have empty: "tm @ r = [] \<Longrightarrow> parse_isoformat_time (tm @ r) = None"
    by (simp add: parse_isoformat_time_def parse_hh_mm_ss_ff_def)
  show ?thesis
    unfolding fromisoformat_def using empty
    by (simp add: date split: option.splits)
qed

lemma no_sign_in_time:
  assumes "is_digit h1" "is_digit h2" "is_digit n1" "is_digit n2" "is_digit s1" "is_digit s2"
    and "list_all is_digit fs"
  shows "list_all (\<lambda>c. \<not> is_sign c) [h1, h2, CHR '':'', n1, n2, CHR '':'', s1, s2]"
    and "list_all (\<lambda>c. \<not> is_sign c) ([h1, h2, CHR '':'', n1, n2, CHR '':'', s1, s2] @ ''.'' @ fs)"
proof -
  have c: "\<not> is_sign CHR '':''" "\<not> is_sign CHR ''.''" by (simp_all add: is_sign_def)
  show "list_all (\<lambda>c. \<not> is_sign c) [h1, h2, CHR '':'', n1, n2, CHR '':'', s1, s2]"
    using assms c by (simp add: is_digit_not_sign)
  show "list_all (\<lambda>c. \<not> is_sign c) ([h1, h2, CHR '':'', n1, n2, CHR '':'', s1, s2] @ ''.'' @ fs)"
    using assms c by (auto simp: list_all_iff dest: is_digit_not_sign)
qed

text \<open>The model of the library function raises nothing but \<^verbatim>\<open>ValueError\<close>.\<close>

lemma fromisoformat_raises_ValueError: "fromisoformat t = Inl e \<Longrightarrow> e = ValueError"
  by (auto simp: fromisoformat_def split: option.splits prod.splits if_splits)

text \<open>
  Claim C7. On the empty string both versions of \<^verbatim>\<open>parse_emby_datetime\<close> return
  \<^verbatim>\<open>None\<close> without calling the library. On every other string they return, an instant
  or \<^verbatim>\<open>None\<close>, and raise nothing, provided that the library function raises nothing but
  \<^verbatim>\<open>ValueError\<close> on a string, as its documentation says: the outer \<^verbatim>\<open>try\<close> catches
  \<^verbatim>\<open>ValueError\<close> and the inner one every exception.
\<close>

theorem parse_emby_datetime_total:
  "parse_emby_datetime fromiso [] = Inr None
   \<and> parse_emby_datetime_fixed fromiso [] = Inr None
   \<and> ((\<forall>t e. fromiso t = Inl e \<longrightarrow> e = ValueError) \<longrightarrow>
        (\<exists>r. parse_emby_datetime fromiso s = Inr r) \<and> (\<exists>r. parse_emby_datetime_fixed fromiso s = Inr r))"
proof (intro conjI impI)
  show "parse_emby_datetime fromiso [] = Inr None" by (simp add: parse_emby_datetime_def)
  show "parse_emby_datetime_fixed fromiso [] = Inr None" by (simp add: parse_emby_datetime_fixed_def)
next
  assume only: "\<forall>t e. fromiso t = Inl e \<longrightarrow> e = ValueError"
  let ?first = "if endswith_Z s then fromiso (replace_Z s) else fromiso s"
  have first: "(\<exists>d. ?first = Inr d) \<or> ?first = Inl ValueError"
  proof (cases ?first)
    case (Inl e)
    then have "e = ValueError" using only by (auto split: if_splits)
    with Inl show ?thesis by simp
  next
    case (Inr d)
    then show ?thesis by simp
  qed
  show "\<exists>r. parse_emby_datetime fromiso s = Inr r"
    using first by (auto simp: parse_emby_datetime_def split: option.splits)
  show "\<exists>r. parse_emby_datetime_fixed fromiso s = Inr r"
    using first by (auto simp: parse_emby_datetime_fixed_def split: option.splits)
qed

text \<open>With the model of the library: a string that is no timestamp, and the empty
  string.\<close>

theorem parse_emby_datetime_total_witness:
  "(\<exists>r. parse_emby_datetime fromisoformat ''yesterday'' = Inr r)
   \<and> (\<exists>r. parse_emby_datetime_fixed fromisoformat ''yesterday'' = Inr r)
   \<and> parse_emby_datetime fromisoformat [] = Inr None
   \<and> parse_emby_datetime_fixed fromisoformat [] = Inr None
   \<and> fromisoformat ''yesterday'' = Inl ValueError"
proof -
  have only: "\<forall>t e. fromisoformat t = Inl e \<longrightarrow> e = ValueError"
    using fromisoformat_raises_ValueError by blast
  have v: "fromisoformat ''yesterday'' = Inl ValueError"
    by (simp add: fromisoformat_def parse_isoformat_date_def)
  show ?thesis
    using parse_emby_datetime_total[of fromisoformat "''yesterday''"] only v by blast
qed

lemma fromisoformat_rejects_long_fraction_chars:
  assumes dg: "is_digit y1" "is_digit y2" "is_digit y3" "is_digit y4" "is_digit m1" "is_digit m2"
      "is_digit d1" "is_digit d2"
    and tg: "is_digit h1" "is_digit h2" "is_digit n1" "is_digit n2" "is_digit s1" "is_digit s2"
    and fs: "list_all is_digit fs" "7 \<le> length fs"
    and off: "off = [] \<or> (\<exists>sg tz. off = sg # tz \<and> is_sign sg)"
  shows "fromisoformat ([y1, y2, y3, y4, CHR ''-'', m1, m2, CHR ''-'', d1, d2, CHR ''T'',
               h1, h2, CHR '':'', n1, n2, CHR '':'', s1, s2] @ ''.'' @ fs @ off) = Inl ValueError"
proof -
  let ?tm = "[h1, h2, CHR '':'', n1, n2, CHR '':'', s1, s2]"
  have ns: "list_all (\<lambda>c. \<not> is_sign c) (?tm @ ''.'' @ fs)"
    by (rule no_sign_in_time(2)[OF tg fs(1)])
  have long: "parse_hh_mm_ss_ff (?tm @ ''.'' @ fs) = None"
    by (rule parse_hh_mm_ss_too_long[OF fs(2)])
  have none: "parse_isoformat_time (?tm @ (''.'' @ fs @ off)) = None"
    using off
  proof
    assume "off = []"
    then show ?thesis using parse_isoformat_time_naive[OF ns] long by simp
  next
    assume "\<exists>sg tz. off = sg # tz \<and> is_sign sg"
    then obtain sg tz where o: "off = sg # tz" "is_sign sg" by auto
    show ?thesis
      using parse_isoformat_time_offset[OF ns o(2), of tz] long o(1) by simp
  qed
  have "fromisoformat ([y1, y2, y3, y4, CHR ''-'', m1, m2, CHR ''-'', d1, d2, CHR ''T''] @ ?tm @ (''.'' @ fs @ off))
      = Inl ValueError"
    unfolding fromisoformat_after_date[OF dg] none by simp
  then show ?thesis by simp
qed

lemma fromisoformat_rejects_long_fraction:
  assumes "matches base_time_pat dt" and "list_all is_digit fs" and "7 \<le> length fs"
    and "off = [] \<or> (\<exists>sg tz. off = sg # tz \<and> is_sign sg)"
  shows "fromisoformat (dt @ ''.'' @ fs @ off) = Inl ValueError"
proof (rule base_time_chars[OF assms(1)])
  fix y1 y2 y3 y4 m1 m2 d1 d2 h1 h2 n1 n2 s1 s2
  assume dt: "dt = [y1, y2, y3, y4, CHR ''-'', m1, m2, CHR ''-'', d1, d2, CHR ''T'',
               h1, h2, CHR '':'', n1, n2, CHR '':'', s1, s2]"
    and dg: "is_digit y1" "is_digit y2" "is_digit y3" "is_digit y4" "is_digit m1" "is_digit m2"
      "is_digit d1" "is_digit d2" "is_digit h1" "is_digit h2" "is_digit n1" "is_digit n2"
      "is_digit s1" "is_digit s2"
  show ?thesis
    unfolding dt by (rule fromisoformat_rejects_long_fraction_chars[OF dg assms(2-4)])
qed
text \<open>A date and time that the model of the library accepts, followed by six fractional
  digits and an offset: the same instant, with the six digits as microseconds and with
  the offset.\<close>

lemma fromisoformat_accepts_six_digits_chars:
  assumes dg: "is_digit y1" "is_digit y2" "is_digit y3" "is_digit y4" "is_digit m1" "is_digit m2"
      "is_digit d1" "is_digit d2"
    and tg: "is_digit h1" "is_digit h2" "is_digit n1" "is_digit n2" "is_digit s1" "is_digit s2"
    and og: "is_sign sg" "is_digit a" "is_digit b" "is_digit c" "is_digit d"
    and f6: "list_all is_digit f6" "length f6 = 6"
    and d0: "fromisoformat [y1, y2, y3, y4, CHR ''-'', m1, m2, CHR ''-'', d1, d2, CHR ''T'',
               h1, h2, CHR '':'', n1, n2, CHR '':'', s1, s2] = Inr d0"
    and v: "utc_offset_of [sg, a, b, CHR '':'', c, d] = Some v"
  shows "fromisoformat ([y1, y2, y3, y4, CHR ''-'', m1, m2, CHR ''-'', d1, d2, CHR ''T'',
               h1, h2, CHR '':'', n1, n2, CHR '':'', s1, s2] @ ''.'' @ f6 @ [sg, a, b, CHR '':'', c, d])
     = Inr (d0\<lparr>dt_microsecond := digits_val f6, dt_utcoffset := Some v\<rparr>)"
proof -
  let ?date = "[y1, y2, y3, y4, CHR ''-'', m1, m2, CHR ''-'', d1, d2, CHR ''T'']"
  let ?tm = "[h1, h2, CHR '':'', n1, n2, CHR '':'', s1, s2]"
  let ?off = "[sg, a, b, CHR '':'', c, d]"
  let ?ok = "1 \<le> digits_val [y1, y2, y3, y4] \<and> digits_val [y1, y2, y3, y4] \<le> 9999
               \<and> 1 \<le> digits_val [m1, m2] \<and> digits_val [m1, m2] \<le> 12
               \<and> 1 \<le> digits_val [d1, d2]
               \<and> digits_val [d1, d2] \<le> days_in_month (digits_val [y1, y2, y3, y4]) (digits_val [m1, m2])
               \<and> digits_val [h1, h2] < 24 \<and> digits_val [n1, n2] < 60 \<and> digits_val [s1, s2] < 60"
  let ?d = "\<lparr>dt_year = digits_val [y1, y2, y3, y4], dt_month = digits_val [m1, m2],
             dt_day = digits_val [d1, d2], dt_hour = digits_val [h1, h2], dt_minute = digits_val [n1, n2],
             dt_second = digits_val [s1, s2], dt_microsecond = 0, dt_utcoffset = None\<rparr>"
  have t0: "parse_isoformat_time (?tm @ []) = Some ((digits_val [h1, h2], digits_val [n1, n2], digits_val [s1, s2], 0), None)"
    using parse_isoformat_time_naive[OF no_sign_in_time(1)[OF tg f6(1)]] parse_hh_mm_ss[OF tg] by simp
  have "fromisoformat (?date @ ?tm @ []) = (if ?ok then Inr ?d else Inl ValueError)"
    unfolding fromisoformat_after_date[OF dg] t0 by simp
  then have base: "(if ?ok then Inr ?d else Inl ValueError) = Inr d0"
    using d0 by simp
  have ok: ?ok using base by (simp split: if_splits)
  have d0eq: "d0 = ?d" using base by (simp split: if_splits)
  have sgm: "matches [Sign, D, D, L CHR '':'', D, D] ?off" using og by simp
  have vlt: "(int (digits_val [a, b]) * 3600 + int (digits_val [c, d]) * 60) * 1000000 < 24 * 3600 * 1000000"
    using v sgm og(1) by (simp add: utc_offset_of_def Let_def is_sign_def split: if_splits)
  have veq: "v = (if sg = CHR ''-'' then - ((int (digits_val [a, b]) * 3600 + int (digits_val [c, d]) * 60) * 1000000)
          else (int (digits_val [a, b]) * 3600 + int (digits_val [c, d]) * 60) * 1000000)"
    using v sgm og(1) by (simp add: utc_offset_of_def Let_def is_sign_def split: if_splits)
  have t1: "parse_isoformat_time (?tm @ (''.'' @ f6 @ ?off))
      = Some ((digits_val [h1, h2], digits_val [n1, n2], digits_val [s1, s2], digits_val f6), Some v)"
    using parse_isoformat_time_offset[OF no_sign_in_time(2)[OF tg f6(1)] og(1), of "[a, b, CHR '':'', c, d]"]
      parse_hh_mm_ss_ffffff[OF tg f6] parse_hh_mm[OF og(2-5)] vlt veq
    by (simp add: Let_def)
  have "fromisoformat (?date @ ?tm @ (''.'' @ f6 @ ?off))
      = Inr (d0\<lparr>dt_microsecond := digits_val f6, dt_utcoffset := Some v\<rparr>)"
    unfolding fromisoformat_after_date[OF dg] t1 using ok by (simp add: d0eq)
  then show ?thesis by simp
qed
lemma fromisoformat_accepts_six_digits:
  assumes "matches base_time_pat dt" and "fromisoformat dt = Inr d0"
    and "list_all is_digit f6" and "length f6 = 6"
    and "matches [Sign, D, D, L CHR '':'', D, D] off" and "utc_offset_of off = Some v"
  shows "fromisoformat (dt @ ''.'' @ f6 @ off)
     = Inr (d0\<lparr>dt_microsecond := digits_val f6, dt_utcoffset := Some v\<rparr>)"
proof (rule base_time_chars[OF assms(1)])
  fix y1 y2 y3 y4 m1 m2 d1 d2 h1 h2 n1 n2 s1 s2
  assume dt: "dt = [y1, y2, y3, y4, CHR ''-'', m1, m2, CHR ''-'', d1, d2, CHR ''T'',
               h1, h2, CHR '':'', n1, n2, CHR '':'', s1, s2]"
    and dg: "is_digit y1" "is_digit y2" "is_digit y3" "is_digit y4" "is_digit m1" "is_digit m2"
      "is_digit d1" "is_digit d2" "is_digit h1" "is_digit h2" "is_digit n1" "is_digit n2"
      "is_digit s1" "is_digit s2"
  show ?thesis
  proof (rule offset_chars[OF assms(5)])
    fix sg a b c d
    assume off: "off = [sg, a, b, CHR '':'', c, d]"
      and og: "is_sign sg" "is_digit a" "is_digit b" "is_digit c" "is_digit d"
    show ?thesis
      using assms(2,6) unfolding dt off
      by (rule fromisoformat_accepts_six_digits_chars[OF dg og assms(3,4)])
  qed
qed

lemma replace_Z_without_Z: "CHR ''Z'' \<notin> set xs \<Longrightarrow> replace_Z (xs @ ''Z'') = xs @ ''+00:00''"
proof -
  assume "CHR ''Z'' \<notin> set xs"
  then have "concat (map (\<lambda>c. if c = CHR ''Z'' then ''+00:00'' else [c]) xs) = xs"
    by (induction xs) auto
  then show ?thesis by (simp add: replace_Z_def)
qed

lemma base_time_without_Z:
  assumes "matches base_time_pat dt"
  shows "CHR ''Z'' \<notin> set dt"
proof (rule base_time_chars[OF assms])
  fix y1 y2 y3 y4 m1 m2 d1 d2 h1 h2 n1 n2 s1 s2
  assume dt: "dt = [y1, y2, y3, y4, CHR ''-'', m1, m2, CHR ''-'', d1, d2, CHR ''T'',
               h1, h2, CHR '':'', n1, n2, CHR '':'', s1, s2]"
    and dg: "is_digit y1" "is_digit y2" "is_digit y3" "is_digit y4" "is_digit m1" "is_digit m2"
      "is_digit d1" "is_digit d2" "is_digit h1" "is_digit h2" "is_digit n1" "is_digit n2"
      "is_digit s1" "is_digit s2"
  show ?thesis
    unfolding dt using dg[THEN is_digit_not_Z] by simp
qed

lemma digits_without_Z: "list_all is_digit fs \<Longrightarrow> CHR ''Z'' \<notin> set fs"
  by (auto simp: list_all_iff dest: is_digit_not_Z)

lemma utc_offset_of_cases:
  assumes "utc_offset_of off = Some v"
  obtains "off = ''Z''" and "v = 0"
  | "off \<noteq> ''Z''" and "matches [Sign, D, D, L CHR '':'', D, D] off"
  using assms by (auto simp: utc_offset_of_def split: if_splits)

lemma utc_offset_of_plus_zero: "utc_offset_of ''+00:00'' = Some 0"
  by (simp add: utc_offset_of_def is_sign_def is_digit_def digits_val_def digit_val_def)

lemma matches_plus_zero: "matches [Sign, D, D, L CHR '':'', D, D] ''+00:00''"
  by (simp add: is_sign_def is_digit_def)

lemma offset_not_endswith_Z:
  assumes "matches [Sign, D, D, L CHR '':'', D, D] off"
  shows "\<not> endswith_Z (xs @ off)" and "\<exists>sg tz. off = sg # tz \<and> is_sign sg"
proof -
  show "\<not> endswith_Z (xs @ off)"
  proof (rule offset_chars[OF assms])
    fix sg a b c d
    assume off: "off = [sg, a, b, CHR '':'', c, d]"
      and og: "is_sign sg" "is_digit a" "is_digit b" "is_digit c" "is_digit d"
    show ?thesis
      unfolding off using is_digit_not_Z[OF og(5)] by (simp add: endswith_Z_def)
  qed
  show "\<exists>sg tz. off = sg # tz \<and> is_sign sg"
  proof (rule offset_chars[OF assms])
    fix sg a b c d
    assume off: "off = [sg, a, b, CHR '':'', c, d]"
      and og: "is_sign sg" "is_digit a" "is_digit b" "is_digit c" "is_digit d"
    show ?thesis
      unfolding off using og(1) by simp
  qed
qed

lemma first_attempt_raises_ValueError:
  assumes "matches base_time_pat dt" and "list_all is_digit fs" and "7 \<le> length fs"
    and "utc_offset_of off = Some v"
  shows "(if endswith_Z (dt @ ''.'' @ fs @ off)
          then fromisoformat (replace_Z (dt @ ''.'' @ fs @ off))
          else fromisoformat (dt @ ''.'' @ fs @ off)) = Inl ValueError"
proof (rule utc_offset_of_cases[OF assms(4)])
  assume off: "off = ''Z''"
  have "CHR ''Z'' \<notin> set (dt @ ''.'' @ fs)"
    using base_time_without_Z[OF assms(1)] digits_without_Z[OF assms(2)] by simp
  then have "replace_Z ((dt @ ''.'' @ fs) @ ''Z'') = (dt @ ''.'' @ fs) @ ''+00:00''"
    by (rule replace_Z_without_Z)
  then have r: "replace_Z (dt @ ''.'' @ fs @ ''Z'') = dt @ ''.'' @ fs @ ''+00:00''"
    by simp
  have e: "endswith_Z (dt @ ''.'' @ fs @ ''Z'')"
    by (simp add: endswith_Z_def)
  have "fromisoformat (dt @ ''.'' @ fs @ ''+00:00'') = Inl ValueError"
    by (rule fromisoformat_rejects_long_fraction[OF assms(1-3)]) (simp add: is_sign_def)
  then show ?thesis
    unfolding off using e r by simp
next
  assume m: "matches [Sign, D, D, L CHR '':'', D, D] off"
  have "\<not> endswith_Z ((dt @ ''.'' @ fs) @ off)"
    by (rule offset_not_endswith_Z(1)[OF m])
  then have e: "\<not> endswith_Z (dt @ ''.'' @ fs @ off)"
    by simp
  have "fromisoformat (dt @ ''.'' @ fs @ off) = Inl ValueError"
    using offset_not_endswith_Z(2)[OF m]
    by (intro fromisoformat_rejects_long_fraction[OF assms(1-3)]) simp
  then show ?thesis
    using e by simp
qed

lemma truncate_and_parse_long_fraction:
  assumes "matches base_time_pat dt" and "fromisoformat dt = Inr d0"
    and "list_all is_digit fs" and "7 \<le> length fs"
    and "utc_offset_of off = Some v"
  shows "truncate_and_parse fromisoformat (dt @ ''.'' @ fs @ off)
     = Some (Some (d0\<lparr>dt_microsecond := digits_val (take 6 fs), dt_utcoffset := Some v\<rparr>))"
proof -
  have f6: "list_all is_digit (take 6 fs)" "length (take 6 fs) = 6"
    using assms(3,4) by (simp_all add: list_all_take)
  have len: "6 \<le> length fs"
    using assms(4) by simp
  show ?thesis
  proof (rule utc_offset_of_cases[OF assms(5)])
    assume off: "off = ''Z''" and v: "v = 0"
    have re: "re_match (dt @ ''.'' @ fs @ ''Z'') = Some (dt, take 6 fs, Some ''Z'')"
      using re_match_timestamp[OF assms(1,3) len, of "''Z''"] by simp
    have "fromisoformat (dt @ ''.'' @ take 6 fs @ ''+00:00'')
       = Inr (d0\<lparr>dt_microsecond := digits_val (take 6 fs), dt_utcoffset := Some 0\<rparr>)"
      by (rule fromisoformat_accepts_six_digits[OF assms(1,2) f6 matches_plus_zero utc_offset_of_plus_zero])
    then show ?thesis
      unfolding off v truncate_and_parse_def re by simp
  next
    assume nz: "off \<noteq> ''Z''" and m: "matches [Sign, D, D, L CHR '':'', D, D] off"
    have "off \<noteq> []"
      using m by auto
    then have re: "re_match (dt @ ''.'' @ fs @ off) = Some (dt, take 6 fs, Some off)"
      using re_match_timestamp[OF assms(1,3) len, of off] m by simp
    have "fromisoformat (dt @ ''.'' @ take 6 fs @ off)
       = Inr (d0\<lparr>dt_microsecond := digits_val (take 6 fs), dt_utcoffset := Some v\<rparr>)"
      by (rule fromisoformat_accepts_six_digits[OF assms(1,2) f6 m assms(5)])
    then show ?thesis
      unfolding truncate_and_parse_def re using nz by simp
  qed
qed
lemma digit_val_less: "is_digit c \<Longrightarrow> digit_val c < 10"
  by (auto simp: is_digit_def digit_val_def)

lemma digits_val_snoc: "digits_val (xs @ [c]) = 10 * digits_val xs + digit_val c"
  by (simp add: digits_val_def)

lemma digits_val_take:
  "list_all is_digit fs \<Longrightarrow> digits_val (take n fs) = digits_val fs div 10 ^ (length fs - n)"
proof (induction fs rule: rev_induct)
  case Nil
  show ?case by (simp add: digits_val_def)
next
  case (snoc c xs)
  show ?case
  proof (cases "n \<le> length xs")
    case True
    have c: "digit_val c < 10"
      using snoc.prems by (simp add: digit_val_less)
    have "digits_val (xs @ [c]) div 10 ^ (length (xs @ [c]) - n)
        = (10 * digits_val xs + digit_val c) div (10 * 10 ^ (length xs - n))"
      using True by (simp add: digits_val_snoc Suc_diff_le)
    also have "\<dots> = ((10 * digits_val xs + digit_val c) div 10) div 10 ^ (length xs - n)"
      by (simp add: div_mult2_eq)
    also have "(10 * digits_val xs + digit_val c) div 10 = digits_val xs"
      using c by simp
    finally show ?thesis
      using True snoc by simp
  next
    case False
    then show ?thesis by simp
  qed
qed
subsection \<open>More than six fractional digits\<close>

text \<open>The date and time of the example in the docstring of \<^verbatim>\<open>emby_exporter_fixed.py\<close>,
  "2025-07-20T01:16:29.5706488+00:00", as \<^verbatim>\<open>fromisoformat\<close> reads them.\<close>

lemma docstring_date_time:
  "fromisoformat ''2025-07-20T01:16:29''
     = Inr \<lparr>dt_year = 2025, dt_month = 7, dt_day = 20, dt_hour = 1, dt_minute = 16,
            dt_second = 29, dt_microsecond = 0, dt_utcoffset = None\<rparr>"
  by code_simp

lemma docstring_base_time: "matches base_time_pat ''2025-07-20T01:16:29''"
  by (simp add: base_time_pat_def is_digit_def)

lemma utc_offset_of_examples:
  "utc_offset_of ''Z'' = Some 0" "utc_offset_of ''-05:30'' = Some (- 19800000000)"
  by (simp_all add: utc_offset_of_def is_sign_def is_digit_def digits_val_def digit_val_def)

text \<open>
  Claim C6. Let a timestamp consist of a date and time \<open>dt\<close> of the form
  \<^verbatim>\<open>YYYY-MM-DDTHH:MM:SS\<close> that \<^verbatim>\<open>fromisoformat\<close> reads as the instant \<open>d0\<close>, a dot, seven or
  more digits \<open>fs\<close>, and an offset \<open>off\<close> that is \<^verbatim>\<open>Z\<close> or \<^verbatim>\<open>+HH:MM\<close> or \<^verbatim>\<open>-HH:MM\<close> of less
  than 24 hours, worth \<open>v\<close> microseconds. Then \<^verbatim>\<open>parse_emby_datetime\<close>, in the version of
  \<^verbatim>\<open>emby_livetv_ultimate.py\<close> and in that of \<^verbatim>\<open>emby_exporter_fixed.py\<close>, returns the instant
  \<open>d0\<close> with the offset \<open>v\<close> and, as its microseconds, the number written by the first six
  digits of \<open>fs\<close>. That number is the whole fraction divided by the power of ten of the digits
  left out, rounded down: the fraction is truncated, never rounded up.
\<close>

theorem long_fraction_is_truncated:
  assumes "matches base_time_pat dt" and "fromisoformat dt = Inr d0"
    and "list_all is_digit fs" and "7 \<le> length fs"
    and "utc_offset_of off = Some v"
  shows "parse_emby_datetime fromisoformat (dt @ ''.'' @ fs @ off)
           = Inr (Some (d0\<lparr>dt_microsecond := digits_val (take 6 fs), dt_utcoffset := Some v\<rparr>))
       \<and> parse_emby_datetime_fixed fromisoformat (dt @ ''.'' @ fs @ off)
           = Inr (Some (d0\<lparr>dt_microsecond := digits_val (take 6 fs), dt_utcoffset := Some v\<rparr>))
       \<and> digits_val (take 6 fs) = digits_val fs div 10 ^ (length fs - 6)"
proof -
  let ?s = "dt @ ''.'' @ fs @ off"
  have first: "(if endswith_Z ?s then fromisoformat (replace_Z ?s) else fromisoformat ?s) = Inl ValueError"
    by (rule first_attempt_raises_ValueError[OF assms(1,3,4,5)])
  have second: "truncate_and_parse fromisoformat ?s
     = Some (Some (d0\<lparr>dt_microsecond := digits_val (take 6 fs), dt_utcoffset := Some v\<rparr>))"
    by (rule truncate_and_parse_long_fraction[OF assms])
  have ne: "?s \<noteq> []"
    by simp
  have a: "parse_emby_datetime fromisoformat ?s
           = Inr (Some (d0\<lparr>dt_microsecond := digits_val (take 6 fs), dt_utcoffset := Some v\<rparr>))"
    unfolding parse_emby_datetime_def first second using ne by simp
  have b: "parse_emby_datetime_fixed fromisoformat ?s
           = Inr (Some (d0\<lparr>dt_microsecond := digits_val (take 6 fs), dt_utcoffset := Some v\<rparr>))"
    unfolding parse_emby_datetime_fixed_def first second using ne by simp
  have c: "digits_val (take 6 fs) = digits_val fs div 10 ^ (length fs - 6)"
    by (rule digits_val_take[OF assms(3)])
  show ?thesis
    using a b c by simp
qed

text \<open>The example of the docstring, with seven digits whose last would round the sixth up,
  and the same instant written with \<^verbatim>\<open>Z\<close> and with nine digits and a negative offset.\<close>

theorem long_fraction_is_truncated_witness:
  "parse_emby_datetime fromisoformat ''2025-07-20T01:16:29.5706488+00:00''
     = Inr (Some \<lparr>dt_year = 2025, dt_month = 7, dt_day = 20, dt_hour = 1, dt_minute = 16,
                  dt_second = 29, dt_microsecond = 570648, dt_utcoffset = Some 0\<rparr>)
   \<and> parse_emby_datetime_fixed fromisoformat ''2025-07-20T01:16:29.5706488+00:00''
     = Inr (Some \<lparr>dt_year = 2025, dt_month = 7, dt_day = 20, dt_hour = 1, dt_minute = 16,
                  dt_second = 29, dt_microsecond = 570648, dt_utcoffset = Some 0\<rparr>)
   \<and> parse_emby_datetime fromisoformat ''2025-07-20T01:16:29.5706488Z''
     = Inr (Some \<lparr>dt_year = 2025, dt_month = 7, dt_day = 20, dt_hour = 1, dt_minute = 16,
                  dt_second = 29, dt_microsecond = 570648, dt_utcoffset = Some 0\<rparr>)
   \<and> parse_emby_datetime_fixed fromisoformat ''2025-07-20T01:16:29.999999999-05:30''
     = Inr (Some \<lparr>dt_year = 2025, dt_month = 7, dt_day = 20, dt_hour = 1, dt_minute = 16,
                  dt_second = 29, dt_microsecond = 999999, dt_utcoffset = Some (- 19800000000)\<rparr>)
   \<and> matches base_time_pat ''2025-07-20T01:16:29''
   \<and> list_all is_digit ''5706488'' \<and> 7 \<le> length ''5706488''
   \<and> utc_offset_of ''+00:00'' = Some 0"
proof -
  have d: "list_all is_digit ''5706488''" "7 \<le> length ''5706488''"
      "list_all is_digit ''999999999''" "7 \<le> length ''999999999''"
    by (simp_all add: is_digit_def)
  have v: "digits_val ''570648'' = 570648" "digits_val ''999999'' = 999999"
    by (simp_all add: digits_val_def digit_val_def)
  show ?thesis
    using long_fraction_is_truncated[OF docstring_base_time docstring_date_time d(1,2) utc_offset_of_plus_zero]
      long_fraction_is_truncated[OF docstring_base_time docstring_date_time d(1,2) utc_offset_of_examples(1)]
      long_fraction_is_truncated[OF docstring_base_time docstring_date_time d(3,4) utc_offset_of_examples(2)]
      docstring_base_time d(1,2) utc_offset_of_plus_zero v
    by simp
qed

end
